(* ===== verification/Pyval.thy ===== *)
theory Pyval
  imports Prelude "HOL-Library.Sublist"
begin

section \<open>Python values and strings\<close>

text \<open>
  The values the SDK moves between JSON, its dataclasses and user code: \<open>pyval\<close>.  A dict is an
  association list in insertion order whose keys are values (the code checks that they are
  strings); \<open>dget\<close> is \<open>d.get(k)\<close>, \<open>dset\<close> is \<open>d[k] = v\<close> (it keeps the place of an existing
  key, as Python does).  Strings are lists of ASCII characters, a float is an exact rational or
  one of the three special values, and a datetime is naive (local microseconds) or aware
  (UTC microseconds and offset).  Values are immutable here, so \<open>copy.deepcopy\<close> is the identity.
\<close>

subsection \<open>Values\<close>

datatype pfloat = Fin rat | PosInf | NegInf | NaN

datatype pydatetime = NaiveDT int | AwareDT int int

datatype pyval =
    PNone
  | PBool bool
  | PInt int
  | PFloat pfloat
  | PStr string
  | PBytes "nat list"
  | PList "pyval list"
  | PDict "(pyval \<times> pyval) list"
  | PDatetime pydatetime

type_synonym pydict = "(pyval \<times> pyval) list"

definition dget :: "pydict \<Rightarrow> string \<Rightarrow> pyval option" where
  "dget d k = map_of d (PStr k)"

definition dget_default :: "pydict \<Rightarrow> string \<Rightarrow> pyval \<Rightarrow> pyval" where
  "dget_default d k v = (case dget d k of None \<Rightarrow> v | Some w \<Rightarrow> w)"

definition dset :: "pydict \<Rightarrow> string \<Rightarrow> pyval \<Rightarrow> pydict" where
  "dset d k v = AList.update (PStr k) v d"

definition dhas :: "pydict \<Rightarrow> string \<Rightarrow> bool" where
  "dhas d k \<longleftrightarrow> dget d k \<noteq> None"

text \<open>A dict display whose optional entries are added one \<open>if\<close> at a time.\<close>

definition opt_entry :: "bool \<Rightarrow> string \<Rightarrow> pyval \<Rightarrow> pydict" where
  "opt_entry b k v = (if b then [(PStr k, v)] else [])"

named_theorems dict_simps \<open>evaluation of dict lookups and updates\<close>

lemma dget_simps [simp, dict_simps]:
  "dget [] k = None"
  "dget ((PStr k', v) # d) k = (if k' = k then Some v else dget d k)"
  by (auto simp: dget_def)

lemma dget_append [dict_simps]:
  "dget (d @ d') k = (case dget d k of None \<Rightarrow> dget d' k | Some v \<Rightarrow> Some v)"
  by (simp add: dget_def map_add_def split: option.splits)

lemma dget_opt_entry [simp, dict_simps]:
  "dget (opt_entry b k' v) k = (if b \<and> k' = k then Some v else None)"
  by (simp add: opt_entry_def)

lemma dget_dset [simp, dict_simps]: "dget (dset d k v) k' = (if k = k' then Some v else dget d k')"
  by (auto simp: dget_def dset_def update_conv')

lemma dget_default_simps [simp, dict_simps]:
  "dget d k = None \<Longrightarrow> dget_default d k v = v"
  "dget d k = Some w \<Longrightarrow> dget_default d k v = w"
  by (simp_all add: dget_default_def)

definition str_keys :: "pydict \<Rightarrow> bool" where
  "str_keys d \<longleftrightarrow> (\<forall>(k, v) \<in> set d. \<exists>s. k = PStr s)"

fun str_key :: "pyval \<Rightarrow> bool" where
  "str_key (PStr s) = True"
| "str_key _ = False"

lemma str_keys_code [code]: "str_keys d \<longleftrightarrow> list_all (\<lambda>(k, v). str_key k) d"
proof -
  have "(\<exists>s. k = PStr s) \<longleftrightarrow> str_key k" for k
    by (cases k) auto
  then show ?thesis by (auto simp: str_keys_def list_all_iff)
qed

lemma str_keys_simps [simp]:
  "str_keys []"
  "str_keys ((k, v) # d) \<longleftrightarrow> (\<exists>s. k = PStr s) \<and> str_keys d"
  "str_keys (d @ d') \<longleftrightarrow> str_keys d \<and> str_keys d'"
  "str_keys (opt_entry b k' v)"
  by (auto simp: str_keys_def opt_entry_def)

text \<open>\<open>type(value).__name__\<close>, truth value, and the \<open>isinstance\<close> tests the code makes.\<close>

fun type_name :: "pyval \<Rightarrow> string" where
  "type_name PNone = ''NoneType''"
| "type_name (PBool _) = ''bool''"
| "type_name (PInt _) = ''int''"
| "type_name (PFloat _) = ''float''"
| "type_name (PStr _) = ''str''"
| "type_name (PBytes _) = ''bytes''"
| "type_name (PList _) = ''list''"
| "type_name (PDict _) = ''dict''"
| "type_name (PDatetime _) = ''datetime''"

fun truthy :: "pyval \<Rightarrow> bool" where
  "truthy PNone = False"
| "truthy (PBool b) = b"
| "truthy (PInt i) = (i \<noteq> 0)"
| "truthy (PFloat f) = (f \<noteq> Fin 0)"
| "truthy (PStr s) = (s \<noteq> [])"
| "truthy (PBytes b) = (b \<noteq> [])"
| "truthy (PList xs) = (xs \<noteq> [])"
| "truthy (PDict d) = (d \<noteq> [])"
| "truthy (PDatetime _) = True"

fun as_str :: "pyval \<Rightarrow> string option" where
  "as_str (PStr s) = Some s"
| "as_str _ = None"

fun as_list :: "pyval \<Rightarrow> pyval list option" where
  "as_list (PList xs) = Some xs"
| "as_list _ = None"

fun as_dict :: "pyval \<Rightarrow> pydict option" where
  "as_dict (PDict d) = Some d"
| "as_dict _ = None"

text \<open>\<open>isinstance(v, int)\<close>, true of a bool as well, and the same with bools refused.\<close>

fun as_int :: "pyval \<Rightarrow> int option" where
  "as_int (PInt i) = Some i"
| "as_int (PBool b) = Some (if b then 1 else 0)"
| "as_int _ = None"

fun as_strict_int :: "pyval \<Rightarrow> int option" where
  "as_strict_int (PInt i) = Some i"
| "as_strict_int _ = None"

fun as_strict_number :: "pyval \<Rightarrow> pfloat option" where
  "as_strict_number (PInt i) = Some (Fin (of_int i))"
| "as_strict_number (PFloat f) = Some f"
| "as_strict_number _ = None"

lemma as_str_Some [simp]: "as_str v = Some s \<longleftrightarrow> v = PStr s"
  by (cases v) auto

lemma as_list_Some [simp]: "as_list v = Some xs \<longleftrightarrow> v = PList xs"
  by (cases v) auto

lemma as_dict_Some [simp]: "as_dict v = Some d \<longleftrightarrow> v = PDict d"
  by (cases v) auto

lemma as_strict_int_Some [simp]: "as_strict_int v = Some i \<longleftrightarrow> v = PInt i"
  by (cases v) auto

definition pstrs :: "string list \<Rightarrow> pyval" where
  "pstrs xs = PList (map PStr xs)"

definition opt_str :: "string option \<Rightarrow> pyval" where
  "opt_str x = (case x of None \<Rightarrow> PNone | Some s \<Rightarrow> PStr s)"

subsection \<open>Strings\<close>

definition chr_lower :: "char \<Rightarrow> char" where
  "chr_lower c = (if 65 \<le> (of_char c :: nat) \<and> (of_char c :: nat) \<le> 90 then char_of ((of_char c :: nat) + 32) else c)"

definition chr_upper :: "char \<Rightarrow> char" where
  "chr_upper c = (if 97 \<le> (of_char c :: nat) \<and> (of_char c :: nat) \<le> 122 then char_of ((of_char c :: nat) - 32) else c)"

definition str_lower :: "string \<Rightarrow> string" where
  "str_lower = map chr_lower"

definition str_upper :: "string \<Rightarrow> string" where
  "str_upper = map chr_upper"

lemma of_char_chr_lower:
  "(of_char (chr_lower c) :: nat) =
     (if 65 \<le> (of_char c :: nat) \<and> (of_char c :: nat) \<le> 90 then (of_char c :: nat) + 32 else of_char c)"
  by (auto simp: chr_lower_def)

lemma str_lower_idem [simp]: "str_lower (str_lower s) = str_lower s"
proof -
  have "chr_lower (chr_lower c) = chr_lower c" for c
    by (subst chr_lower_def) (auto simp: of_char_chr_lower)
  then show ?thesis by (simp add: str_lower_def)
qed

text \<open>The same functions on the bits of a character, for evaluation.\<close>

definition letter_bits :: "bool \<Rightarrow> bool \<Rightarrow> bool \<Rightarrow> bool \<Rightarrow> bool \<Rightarrow> bool" where
  "letter_bits b0 b1 b2 b3 b4 \<longleftrightarrow> (b0 \<or> b1 \<or> b2 \<or> b3 \<or> b4) \<and> \<not> (b4 \<and> b3 \<and> (b2 \<or> (b1 \<and> b0)))"

lemma of_char_bits:
  "(of_char (Char b0 b1 b2 b3 b4 b5 b6 b7) :: nat)
     = (of_bool b0 + 2 * of_bool b1 + 4 * of_bool b2 + 8 * of_bool b3 + 16 * of_bool b4)
       + 32 * of_bool b5 + 64 * of_bool b6 + 128 * of_bool b7"
  by (simp add: of_char_Char)

lemma letter_bits_range:
  fixes m :: nat
  assumes "m = of_bool b0 + 2 * of_bool b1 + 4 * of_bool b2 + 8 * of_bool b3 + 16 * of_bool b4"
  shows "letter_bits b0 b1 b2 b3 b4 \<longleftrightarrow> 1 \<le> m \<and> m \<le> 26" "m \<le> 31"
  using assms by (cases b0; cases b1; cases b2; cases b3; cases b4; simp add: letter_bits_def)+

lemma chr_case_code [code]:
  "chr_lower (Char b0 b1 b2 b3 b4 b5 b6 b7) =
     (if \<not> b7 \<and> b6 \<and> \<not> b5 \<and> letter_bits b0 b1 b2 b3 b4 then Char b0 b1 b2 b3 b4 True b6 b7
      else Char b0 b1 b2 b3 b4 b5 b6 b7)" (is "?lower")
  "chr_upper (Char b0 b1 b2 b3 b4 b5 b6 b7) =
     (if \<not> b7 \<and> b6 \<and> b5 \<and> letter_bits b0 b1 b2 b3 b4 then Char b0 b1 b2 b3 b4 False b6 b7
      else Char b0 b1 b2 b3 b4 b5 b6 b7)" (is "?upper")
proof -
  define m :: nat where "m = of_bool b0 + 2 * of_bool b1 + 4 * of_bool b2 + 8 * of_bool b3 + 16 * of_bool b4"
  note m = letter_bits_range[OF m_def]
  have bits: "(of_char (Char b0 b1 b2 b3 b4 x b6 b7) :: nat) = m + 32 * of_bool x + 64 * of_bool b6 + 128 * of_bool b7" for x
    unfolding of_char_bits m_def ..
  have same: "c = Char b0 b1 b2 b3 b4 x b6 b7" if "(of_char c :: nat) = m + 32 * of_bool x + 64 * of_bool b6 + 128 * of_bool b7" for c x
    using that bits[of x] by (metis of_char_eq_iff)
  show ?lower
  proof (cases "\<not> b7 \<and> b6 \<and> \<not> b5 \<and> letter_bits b0 b1 b2 b3 b4")
    case True
    then have "(of_char (Char b0 b1 b2 b3 b4 b5 b6 b7) :: nat) = m + 64" "1 \<le> m" "m \<le> 26"
      unfolding bits using True m by simp_all
    then have "(of_char (chr_lower (Char b0 b1 b2 b3 b4 b5 b6 b7)) :: nat) = m + 96"
      unfolding of_char_chr_lower by simp
    then show ?thesis using True same[of "chr_lower (Char b0 b1 b2 b3 b4 b5 b6 b7)" True] by simp
  next
    case False
    then have "\<not> (65 \<le> (of_char (Char b0 b1 b2 b3 b4 b5 b6 b7) :: nat) \<and> (of_char (Char b0 b1 b2 b3 b4 b5 b6 b7) :: nat) \<le> 90)"
      unfolding bits m(1) using m(2) by (cases b5; cases b6; cases b7) auto
    then show ?thesis using False by (auto simp: chr_lower_def)
  qed
  show ?upper
  proof (cases "\<not> b7 \<and> b6 \<and> b5 \<and> letter_bits b0 b1 b2 b3 b4")
    case True
    then have "(of_char (Char b0 b1 b2 b3 b4 b5 b6 b7) :: nat) = m + 96" "1 \<le> m" "m \<le> 26"
      unfolding bits using True m by simp_all
    then have "(of_char (chr_upper (Char b0 b1 b2 b3 b4 b5 b6 b7)) :: nat) = m + 64"
      unfolding chr_upper_def by simp
    then show ?thesis using True same[of "chr_upper (Char b0 b1 b2 b3 b4 b5 b6 b7)" False] by simp
  next
    case False
    then have "\<not> (97 \<le> (of_char (Char b0 b1 b2 b3 b4 b5 b6 b7) :: nat) \<and> (of_char (Char b0 b1 b2 b3 b4 b5 b6 b7) :: nat) \<le> 122)"
      unfolding bits m(1) using m(2) by (cases b5; cases b6; cases b7) auto
    then show ?thesis using False by (auto simp: chr_upper_def)
  qed
qed

definition starts_with :: "string \<Rightarrow> string \<Rightarrow> bool" where
  "starts_with s p \<longleftrightarrow> take (length p) s = p"

definition remove_prefix :: "string \<Rightarrow> string \<Rightarrow> string" where
  "remove_prefix s p = (if starts_with s p then drop (length p) s else s)"

lemma starts_with_append [simp]: "starts_with (p @ s) p"
  by (simp add: starts_with_def)

lemma remove_prefix_append [simp]: "remove_prefix (p @ s) p = s"
  by (simp add: remove_prefix_def)

definition is_space :: "char \<Rightarrow> bool" where
  "is_space c \<longleftrightarrow> (let n = (of_char c :: nat) in (9 \<le> n \<and> n \<le> 13) \<or> (28 \<le> n \<and> n \<le> 32))"

definition str_strip :: "string \<Rightarrow> string" where
  "str_strip s = rev (dropWhile is_space (rev (dropWhile is_space s)))"

lemma str_strip_eq_Nil_iff: "str_strip s = [] \<longleftrightarrow> (\<forall>c \<in> set s. is_space c)"
proof
  assume "\<forall>c \<in> set s. is_space c"
  then show "str_strip s = []" by (auto simp: str_strip_def dest: set_dropWhileD)
next
  assume "str_strip s = []"
  then have "\<forall>c \<in> set (rev (dropWhile is_space s)). is_space c"
    unfolding str_strip_def rev_is_Nil_conv dropWhile_eq_Nil_conv .
  then have "\<forall>c \<in> set (dropWhile is_space s). is_space c" by simp
  then have "dropWhile is_space s = []"
    using hd_dropWhile[of is_space s] by (cases "dropWhile is_space s") auto
  then show "\<forall>c \<in> set s. is_space c"
    by (simp add: dropWhile_eq_Nil_conv)
qed

definition rstrip_char :: "char \<Rightarrow> string \<Rightarrow> string" where
  "rstrip_char x s = rev (dropWhile (\<lambda>c. c = x) (rev s))"

text \<open>\<open>s.partition(sep)\<close> for a one-character separator: head, whether it was found, tail.\<close>

fun partition_chr :: "char \<Rightarrow> string \<Rightarrow> string \<times> bool \<times> string" where
  "partition_chr x [] = ([], False, [])"
| "partition_chr x (c # s) =
     (if c = x then ([], True, s)
      else case partition_chr x s of (h, b, t) \<Rightarrow> (c # h, b, t))"

lemma partition_chr_found: "x \<notin> set h \<Longrightarrow> partition_chr x (h @ x # t) = (h, True, t)"
  by (induction h) auto

lemma partition_chr_absent: "x \<notin> set s \<Longrightarrow> partition_chr x s = (s, False, [])"
  by (induction s) auto

text \<open>\<open>repr(s)\<close>: the quote that needs no escape, and backslash escapes.\<close>

definition hex_lower :: "nat \<Rightarrow> char" where
  "hex_lower n = (if n < 10 then char_of (48 + n) else char_of (87 + n))"

definition repr_char :: "char \<Rightarrow> char \<Rightarrow> string" where
  "repr_char q c = (let n = (of_char c :: nat) in
     if c = q \<or> c = CHR 0x5C then [CHR 0x5C, c]
     else if n = 9 then [CHR 0x5C, CHR ''t'']
     else if n = 10 then [CHR 0x5C, CHR ''n'']
     else if n = 13 then [CHR 0x5C, CHR ''r'']
     else if n < 32 \<or> 127 \<le> n then [CHR 0x5C, CHR ''x'', hex_lower (n div 16), hex_lower (n mod 16)]
     else [c])"

definition repr_str :: "string \<Rightarrow> string" where
  "repr_str s = (let q = (if CHR 0x27 \<in> set s \<and> CHR 0x22 \<notin> set s then CHR 0x22 else CHR 0x27)
     in q # concat (map (repr_char q) s) @ [q])"

subsection \<open>Percent-encoding: \<open>urllib.parse.quote(s, safe='')\<close>\<close>

definition unreserved :: "char \<Rightarrow> bool" where
  "unreserved c \<longleftrightarrow> is_digit c
     \<or> (65 \<le> (of_char c :: nat) \<and> (of_char c :: nat) \<le> 90)
     \<or> (97 \<le> (of_char c :: nat) \<and> (of_char c :: nat) \<le> 122)
     \<or> c \<in> set ''_.-~''"

definition hex_digit :: "nat \<Rightarrow> char" where
  "hex_digit n = (if n < 10 then char_of (48 + n) else char_of (55 + n))"

definition quote_char :: "char \<Rightarrow> string" where
  "quote_char c = (if unreserved c then [c]
     else [CHR ''%'', hex_digit (of_char c div 16), hex_digit (of_char c mod 16)])"

definition quote_str :: "string \<Rightarrow> string" where
  "quote_str s = concat (map quote_char s)"

lemma unreserved_not_special: "unreserved c \<Longrightarrow> c \<noteq> CHR ''/'' \<and> c \<noteq> CHR ''%''"
  by (auto simp: unreserved_def is_digit_def)

lemma hex_digit_unreserved: "n < 16 \<Longrightarrow> unreserved (hex_digit n)"
  by (simp add: unreserved_def is_digit_def hex_digit_def)

lemma of_char_hex_digit:
  "n < 16 \<Longrightarrow> (of_char (hex_digit n) :: nat) = (if n < 10 then 48 + n else 55 + n)"
  by (simp add: hex_digit_def)

lemma hex_digit_inj:
  assumes "m < 16" and "n < 16" and eq: "hex_digit m = hex_digit n"
  shows "m = n"
proof -
  have "(if m < 10 then 48 + m else 55 + m) = (if n < 10 then 48 + n else 55 + n)"
    unfolding of_char_hex_digit[OF assms(1), symmetric] of_char_hex_digit[OF assms(2), symmetric] eq ..
  then show ?thesis by presburger
qed

lemma quote_str_no_slash: "CHR ''/'' \<notin> set (quote_str s)"
proof -
  have lt: "(of_char c :: nat) div 16 < 16" for c :: char
    using nat_of_char_less_256[of c] by (simp add: less_mult_imp_div_less)
  have "CHR ''/'' \<notin> set (quote_char c)" for c
    using unreserved_not_special[of c] unreserved_not_special[OF hex_digit_unreserved[OF lt[of c]]]
      unreserved_not_special[OF hex_digit_unreserved[of "of_char c mod 16"]]
    by (simp add: quote_char_def eq_commute)
  then show ?thesis by (auto simp: quote_str_def)
qed

lemma quote_char_cancel: "quote_char c @ r = quote_char d @ r' \<Longrightarrow> c = d \<and> r = r'"
proof -
  assume eq: "quote_char c @ r = quote_char d @ r'"
  have lt: "(of_char x :: nat) div 16 < 16" "(of_char x :: nat) mod 16 < 16" for x :: char
    using nat_of_char_less_256[of x] by (simp_all add: less_mult_imp_div_less)
  show ?thesis
  proof (cases "unreserved c \<or> unreserved d")
    case True
    then show ?thesis using eq unreserved_not_special[of c] unreserved_not_special[of d]
      by (auto simp: quote_char_def split: if_splits)
  next
    case False
    then have "hex_digit (of_char c div 16) = hex_digit (of_char d div 16)" "hex_digit (of_char c mod 16) = hex_digit (of_char d mod 16)" "r = r'"
      using eq by (simp_all add: quote_char_def)
    then have "(of_char c :: nat) div 16 = of_char d div 16" "(of_char c :: nat) mod 16 = of_char d mod 16" "r = r'"
      using hex_digit_inj lt by blast+
    then have "(of_char c :: nat) = of_char d" by (metis div_mult_mod_eq)
    then show ?thesis using \<open>r = r'\<close> by (metis char_of_char)
  qed
qed

lemma quote_char_nonempty [simp]: "quote_char c \<noteq> []"
  by (simp add: quote_char_def)

lemma quote_str_inj: "quote_str s = quote_str t \<Longrightarrow> s = t"
proof (induction s arbitrary: t)
  case Nil
  then show ?case by (cases t) (simp_all add: quote_str_def)
next
  case (Cons c s)
  then obtain d u where t: "t = d # u" by (cases t) (simp_all add: quote_str_def)
  then have "quote_char c @ quote_str s = quote_char d @ quote_str u" using Cons.prems by (simp add: quote_str_def)
  then show ?case using quote_char_cancel Cons.IH t by blast
qed

text \<open>A quoted name is one path segment: what stands between two slashes can be read back.\<close>

lemma segment_cancel:
  "CHR ''/'' \<notin> set s \<Longrightarrow> CHR ''/'' \<notin> set t \<Longrightarrow> s @ CHR ''/'' # r = t @ CHR ''/'' # r' \<longleftrightarrow> s = t \<and> r = r'"
  by (induction s arbitrary: t; case_tac t) auto

lemma quoted_segment:
  "quote_str s @ CHR ''/'' # r = quote_str t @ CHR ''/'' # r' \<longleftrightarrow> s = t \<and> r = r'"
  using segment_cancel[OF quote_str_no_slash quote_str_no_slash] quote_str_inj by blast

end
