(* ===== verification/Errors.thy ===== *)
theory Errors
  imports Pyval
begin

section \<open>Errors: the exception hierarchy, the catalog, the response mapper\<close>

text \<open>
  \<open>src/ojs/errors/\<close> and \<open>src/ojs/error_codes.py\<close>.  \<open>exn\<close> is every exception the modelled code
  raises or catches, with the message where the code builds one; the predicates below are the
  \<open>isinstance\<close> tests of its \<open>except\<close> clauses.  \<open>map_error_response\<close> turns an error response
  into the most specific exception, with the defaults the catalog gives.  Parsing an HTTP date
  (\<open>email.utils\<close>) is the parameter \<open>http_date\<close>.
\<close>

subsection \<open>Exceptions\<close>

record error_detail =
  ed_code :: string
  ed_message :: string
  ed_retryable :: bool
  ed_details :: pydict
  ed_request_id :: "string option"

record rate_limit_info =
  rl_limit :: "int option"
  rl_remaining :: "int option"
  rl_reset :: "int option"
  rl_retry_after :: "rat option"

datatype api_class =
    PlainAPI
  | DuplicateJob
  | JobNotFound
  | QueuePaused
  | RateLimited "rat option" "rate_limit_info option"

datatype exn =
    ValueErr string
  | TypeErr string
  | KeyErr string
  | RuntimeErr string
  | OverflowErr
  | ZeroDivErr
  | TimeoutErr
  | CancelledErr
  | OJSErr string
  | ValidationErr string
  | CapabilityErr string
  | ConnectionErr string
  | OJSTimeoutErr string
  | JobExecutionTimeoutErr rat string
  | APIErr api_class int error_detail
  | DurableReplayErr string
  | SSEDataErr string
  | ServerlessEventErr string
  | HandlerNotFoundErr string
  | ResultSerializationErr string
  | LeaseBudgetExceededErr
  | StreamTerminatedErr
  | UserErr string string

text \<open>\<open>except Exception\<close> catches everything but \<open>asyncio.CancelledError\<close>.\<close>

fun is_exception :: "exn \<Rightarrow> bool" where
  "is_exception CancelledErr = False"
| "is_exception _ = True"

fun is_ojs_error :: "exn \<Rightarrow> bool" where
  "is_ojs_error (OJSErr _) = True"
| "is_ojs_error (ValidationErr _) = True"
| "is_ojs_error (CapabilityErr _) = True"
| "is_ojs_error (ConnectionErr _) = True"
| "is_ojs_error (OJSTimeoutErr _) = True"
| "is_ojs_error (JobExecutionTimeoutErr _ _) = True"
| "is_ojs_error (APIErr _ _ _) = True"
| "is_ojs_error (DurableReplayErr _) = True"
| "is_ojs_error (SSEDataErr _) = True"
| "is_ojs_error _ = False"

fun is_connection_error :: "exn \<Rightarrow> bool" where
  "is_connection_error (ConnectionErr _) = True"
| "is_connection_error _ = False"

fun is_timeout_error :: "exn \<Rightarrow> bool" where
  "is_timeout_error (OJSTimeoutErr _) = True"
| "is_timeout_error (JobExecutionTimeoutErr _ _) = True"
| "is_timeout_error _ = False"

fun is_job_not_found :: "exn \<Rightarrow> bool" where
  "is_job_not_found (APIErr JobNotFound _ _) = True"
| "is_job_not_found _ = False"

fun is_api_error :: "exn \<Rightarrow> bool" where
  "is_api_error (APIErr _ _ _) = True"
| "is_api_error _ = False"

fun api_retryable :: "exn \<Rightarrow> bool" where
  "api_retryable (APIErr _ _ d) = ed_retryable d"
| "api_retryable _ = False"

subsection \<open>The error catalog\<close>

record error_code_entry =
  ec_code :: string
  ec_name :: string
  ec_canonical :: string
  ec_http_status :: int
  ec_message :: string
  ec_retryable :: bool

definition entry :: "string \<Rightarrow> string \<Rightarrow> string \<Rightarrow> int \<Rightarrow> string \<Rightarrow> bool \<Rightarrow> error_code_entry" where
  "entry c n k h m r = \<lparr>ec_code = c, ec_name = n, ec_canonical = k, ec_http_status = h,
                        ec_message = m, ec_retryable = r\<rparr>"

definition catalog_1xxx :: "error_code_entry list" where
  "catalog_1xxx =
    [entry ''OJS-1000'' ''InvalidPayload''
       ''INVALID_PAYLOAD'' 400
       ''Job envelope fails structural validation'' False,
     entry ''OJS-1001'' ''InvalidJobType''
       ''INVALID_JOB_TYPE'' 400
       ''Job type is not registered or does not match the allowlist'' False,
     entry ''OJS-1002'' ''InvalidQueue''
       ''INVALID_QUEUE'' 400
       ''Queue name is invalid or does not match naming rules'' False,
     entry ''OJS-1003'' ''InvalidArgs''
       ''INVALID_ARGS'' 400
       ''Job args fail type checking or schema validation'' False,
     entry ''OJS-1004'' ''InvalidMetadata''
       ''INVALID_METADATA'' 400
       ''Metadata field is malformed or exceeds the 64 KB size limit'' False,
     entry ''OJS-1005'' ''InvalidStateTransition''
       ''INVALID_STATE_TRANSITION'' 409
       ''Attempted an invalid lifecycle state change'' False,
     entry ''OJS-1006'' ''InvalidRetryPolicy''
       ''INVALID_RETRY_POLICY'' 400
       ''Retry policy configuration is invalid'' False,
     entry ''OJS-1007'' ''InvalidCronExpression''
       ''INVALID_CRON_EXPRESSION'' 400
       ''Cron expression syntax cannot be parsed'' False,
     entry ''OJS-1008'' ''SchemaValidationFailed''
       ''SCHEMA_VALIDATION_FAILED'' 422
       ''Job args do not conform to the registered schema'' False,
     entry ''OJS-1009'' ''PayloadTooLarge''
       ''PAYLOAD_TOO_LARGE'' 413
       ''Job envelope exceeds the server's maximum payload size'' False,
     entry ''OJS-1010'' ''MetadataTooLarge''
       ''METADATA_TOO_LARGE'' 413
       ''Metadata field exceeds the 64 KB limit'' False,
     entry ''OJS-1011'' ''ConnectionError''
       '''' 0
       ''Could not establish a connection to the OJS server'' True,
     entry ''OJS-1012'' ''RequestTimeout''
       '''' 0
       ''HTTP request to the OJS server timed out'' True,
     entry ''OJS-1013'' ''SerializationError''
       '''' 0
       ''Failed to serialize the request or deserialize the response'' False,
     entry ''OJS-1014'' ''QueueNameTooLong''
       ''QUEUE_NAME_TOO_LONG'' 400
       ''Queue name exceeds the 255-byte maximum length'' False,
     entry ''OJS-1015'' ''JobTypeTooLong''
       ''JOB_TYPE_TOO_LONG'' 400
       ''Job type exceeds the 255-byte maximum length'' False,
     entry ''OJS-1016'' ''ChecksumMismatch''
       ''CHECKSUM_MISMATCH'' 400
       ''External payload reference checksum verification failed'' False,
     entry ''OJS-1017'' ''UnsupportedCompression''
       ''UNSUPPORTED_COMPRESSION'' 400
       ''The specified compression codec is not supported'' False]"

definition catalog_2xxx :: "error_code_entry list" where
  "catalog_2xxx =
    [entry ''OJS-2000'' ''BackendError''
       ''BACKEND_ERROR'' 500
       ''Internal backend storage or transport failure'' True,
     entry ''OJS-2001'' ''BackendUnavailable''
       ''BACKEND_UNAVAILABLE'' 503
       ''Backend storage system is unreachable'' True,
     entry ''OJS-2002'' ''BackendTimeout''
       ''BACKEND_TIMEOUT'' 504
       ''Backend operation timed out'' True,
     entry ''OJS-2003'' ''ReplicationLag''
       ''REPLICATION_LAG'' 500
       ''Operation failed due to replication consistency issue'' True,
     entry ''OJS-2004'' ''InternalServerError''
       '''' 500
       ''Unclassified internal server error'' True]"

definition catalog_3xxx :: "error_code_entry list" where
  "catalog_3xxx =
    [entry ''OJS-3000'' ''JobNotFound''
       ''NOT_FOUND'' 404
       ''The requested job, queue, or resource does not exist'' False,
     entry ''OJS-3001'' ''DuplicateJob''
       ''DUPLICATE_JOB'' 409
       ''Unique job constraint was violated'' False,
     entry ''OJS-3002'' ''JobAlreadyCompleted''
       ''JOB_ALREADY_COMPLETED'' 409
       ''Operation attempted on a job that has already completed'' False,
     entry ''OJS-3003'' ''JobAlreadyCancelled''
       ''JOB_ALREADY_CANCELLED'' 409
       ''Operation attempted on a job that has already been cancelled'' False,
     entry ''OJS-3004'' ''QueuePaused''
       ''QUEUE_PAUSED'' 422
       ''The target queue is paused and not accepting new jobs'' True,
     entry ''OJS-3005'' ''HandlerError''
       ''HANDLER_ERROR'' 0
       ''Job handler threw an exception during execution'' True,
     entry ''OJS-3006'' ''HandlerTimeout''
       ''HANDLER_TIMEOUT'' 0
       ''Job handler exceeded the configured execution timeout'' True,
     entry ''OJS-3007'' ''HandlerPanic''
       ''HANDLER_PANIC'' 0
       ''Job handler caused an unrecoverable error'' True,
     entry ''OJS-3008'' ''NonRetryableError''
       ''NON_RETRYABLE_ERROR'' 0
       ''Error type matched non_retryable_errors in the retry policy'' False,
     entry ''OJS-3009'' ''JobCancelled''
       ''JOB_CANCELLED'' 0
       ''Job was cancelled while it was executing'' False,
     entry ''OJS-3010'' ''NoHandlerRegistered''
       '''' 0
       ''No handler is registered for the received job type'' False]"

definition catalog_4xxx :: "error_code_entry list" where
  "catalog_4xxx =
    [entry ''OJS-4000'' ''WorkflowNotFound''
       '''' 404
       ''The specified workflow does not exist'' False,
     entry ''OJS-4001'' ''ChainStepFailed''
       '''' 422
       ''A step in a chain workflow failed, halting subsequent steps'' False,
     entry ''OJS-4002'' ''GroupTimeout''
       '''' 504
       ''A group workflow did not complete within the allowed timeout'' True,
     entry ''OJS-4003'' ''DependencyFailed''
       '''' 422
       ''A required dependency job failed, preventing execution'' False,
     entry ''OJS-4004'' ''CyclicDependency''
       '''' 400
       ''The workflow definition contains circular dependencies'' False,
     entry ''OJS-4005'' ''BatchCallbackFailed''
       '''' 422
       ''The batch completion callback job failed'' True,
     entry ''OJS-4006'' ''WorkflowCancelled''
       '''' 409
       ''The entire workflow was cancelled'' False]"

definition catalog_5xxx :: "error_code_entry list" where
  "catalog_5xxx =
    [entry ''OJS-5000'' ''Unauthenticated''
       ''UNAUTHENTICATED'' 401
       ''No authentication credentials provided or credentials are invalid'' False,
     entry ''OJS-5001'' ''PermissionDenied''
       ''PERMISSION_DENIED'' 403
       ''Authenticated but lacks the required permission'' False,
     entry ''OJS-5002'' ''TokenExpired''
       ''TOKEN_EXPIRED'' 401
       ''The authentication token has expired'' False,
     entry ''OJS-5003'' ''TenantAccessDenied''
       ''TENANT_ACCESS_DENIED'' 403
       ''Operation on a tenant the caller does not have access to'' False]"

definition catalog_6xxx :: "error_code_entry list" where
  "catalog_6xxx =
    [entry ''OJS-6000'' ''RateLimited''
       ''RATE_LIMITED'' 429
       ''Rate limit exceeded'' True,
     entry ''OJS-6001'' ''QueueFull''
       ''QUEUE_FULL'' 429
       ''The queue has reached its configured maximum depth'' True,
     entry ''OJS-6002'' ''ConcurrencyLimited''
       '''' 429
       ''The concurrency limit has been reached'' True,
     entry ''OJS-6003'' ''BackpressureApplied''
       '''' 429
       ''The server is applying backpressure'' True]"

definition catalog_7xxx :: "error_code_entry list" where
  "catalog_7xxx =
    [entry ''OJS-7000'' ''UnsupportedFeature''
       ''UNSUPPORTED_FEATURE'' 422
       ''Feature requires a conformance level the backend does not support'' False,
     entry ''OJS-7001'' ''CronScheduleConflict''
       '''' 409
       ''The cron schedule conflicts with an existing schedule'' False,
     entry ''OJS-7002'' ''UniqueKeyInvalid''
       '''' 400
       ''The unique key specification is invalid or malformed'' False,
     entry ''OJS-7003'' ''MiddlewareError''
       '''' 500
       ''An error occurred in the middleware chain'' True,
     entry ''OJS-7004'' ''MiddlewareTimeout''
       '''' 504
       ''A middleware handler exceeded its allowed execution time'' True]"

definition ALL_ERROR_CODES :: "error_code_entry list" where
  "ALL_ERROR_CODES = catalog_1xxx @ catalog_2xxx @ catalog_3xxx @ catalog_4xxx
     @ catalog_5xxx @ catalog_6xxx @ catalog_7xxx"

text \<open>
  The two indices are dict comprehensions over the catalog: a later entry with the same key
  replaces an earlier one, so a lookup reads the reversed list.
\<close>

definition CANONICAL_INDEX :: "(string \<times> error_code_entry) list" where
  "CANONICAL_INDEX = rev (map (\<lambda>e. (ec_canonical e, e)) (filter (\<lambda>e. ec_canonical e \<noteq> []) ALL_ERROR_CODES))"

definition CODE_INDEX :: "(string \<times> error_code_entry) list" where
  "CODE_INDEX = rev (map (\<lambda>e. (ec_code e, e)) ALL_ERROR_CODES)"

definition lookup_by_canonical_code :: "string \<Rightarrow> error_code_entry option" where
  "lookup_by_canonical_code k = map_of CANONICAL_INDEX k"

definition lookup_by_code :: "string \<Rightarrow> error_code_entry option" where
  "lookup_by_code c = map_of CODE_INDEX c"

subsection \<open>Rate-limit headers\<close>

type_synonym headers = "(string \<times> string) list"

definition header_get :: "headers \<Rightarrow> string \<Rightarrow> string option" where
  "header_get hs name = map_option snd (find (\<lambda>(k, v). str_lower k = str_lower name) hs)"

text \<open>
  \<open>int(text)\<close>: surrounding white space, one sign, digits with single underscores between them.
\<close>

fun digits_us :: "string \<Rightarrow> bool" where
  "digits_us [] = False"
| "digits_us [c] = is_digit c"
| "digits_us (c # d # s) = (is_digit c \<and> (if d = CHR ''_'' then digits_us s else digits_us (d # s)))"

definition split_sign :: "string \<Rightarrow> int \<times> string" where
  "split_sign s = (case s of [] \<Rightarrow> (1, [])
     | c # t \<Rightarrow> if c = CHR ''-'' then (-1, t) else if c = CHR ''+'' then (1, t) else (1, s))"

definition digits_value :: "string \<Rightarrow> nat" where
  "digits_value s = nat_of_digits (filter is_digit s)"

definition int_of_string :: "string \<Rightarrow> int option" where
  "int_of_string s = (case split_sign (str_strip s) of (sg, t) \<Rightarrow>
     if digits_us t then Some (sg * int (digits_value t)) else None)"

text \<open>
  \<open>float(text)\<close>: the named values, or digits with an optional fraction and exponent.  A value of
  at least \<open>2^1024 - 2^970\<close> rounds to infinity.
\<close>

definition float_limit :: rat where
  "float_limit = 2 ^ 1024 - 2 ^ 970"

definition to_float :: "rat \<Rightarrow> pfloat" where
  "to_float r = (if float_limit \<le> r then PosInf else if r \<le> - float_limit then NegInf else Fin r)"

definition pow10 :: "int \<Rightarrow> rat" where
  "pow10 k = (if 0 \<le> k then 10 ^ nat k else 1 / 10 ^ nat (- k))"

definition float_mantissa :: "string \<Rightarrow> rat option" where
  "float_mantissa s = (case partition_chr CHR ''.'' s of (a, dot, b) \<Rightarrow>
     if (a = [] \<or> digits_us a) \<and> (b = [] \<or> digits_us b) \<and> (a \<noteq> [] \<or> b \<noteq> [])
     then Some (of_nat (digits_value a) + of_nat (digits_value b) / 10 ^ length (filter is_digit b))
     else None)"

definition float_of_string :: "string \<Rightarrow> pfloat option" where
  "float_of_string s = (case split_sign (str_lower (str_strip s)) of (sg, t) \<Rightarrow>
     if t = ''inf'' \<or> t = ''infinity'' then Some (if sg < 0 then NegInf else PosInf)
     else if t = ''nan'' then Some NaN
     else (case partition_chr CHR ''e'' t of (m, has_exp, x) \<Rightarrow>
       case float_mantissa m of None \<Rightarrow> None
       | Some r \<Rightarrow>
           if \<not> has_exp then Some (to_float (of_int sg * r))
           else (case split_sign x of (sx, y) \<Rightarrow>
             if digits_us y then Some (to_float (of_int sg * r * pow10 (sx * int (digits_value y))))
             else None)))"

definition utc_micros :: "pydatetime \<Rightarrow> int" where
  "utc_micros t = (case t of NaiveDT u \<Rightarrow> u | AwareDT u z \<Rightarrow> u)"

definition parse_int :: "string option \<Rightarrow> int option" where
  "parse_int v = (case v of None \<Rightarrow> None | Some s \<Rightarrow> int_of_string s)"

text \<open>A naive \<open>Retry-After\<close> date is read as UTC; \<open>now\<close> is an aware clock reading.\<close>

definition parse_retry_after ::
  "(string \<Rightarrow> pydatetime option) \<Rightarrow> pydatetime \<Rightarrow> string option \<Rightarrow> rat option" where
  "parse_retry_after http_date now v = (case v of None \<Rightarrow> None
     | Some s \<Rightarrow>
        (case float_of_string s of
           Some (Fin r) \<Rightarrow> Some (max 0 r)
         | Some _ \<Rightarrow> None
         | None \<Rightarrow>
             (case http_date s of None \<Rightarrow> None
              | Some t \<Rightarrow> Some (max 0 (of_int (utc_micros t - utc_micros now) / 1000000)))))"

definition parse_rate_limit_headers ::
  "(string \<Rightarrow> pydatetime option) \<Rightarrow> pydatetime \<Rightarrow> headers \<Rightarrow> rate_limit_info option" where
  "parse_rate_limit_headers http_date now hs =
     (if hs = [] then None
      else let ra = parse_retry_after http_date now (header_get hs ''Retry-After'');
               lim = parse_int (header_get hs ''X-RateLimit-Limit'');
               rem = parse_int (header_get hs ''X-RateLimit-Remaining'');
               res = parse_int (header_get hs ''X-RateLimit-Reset'')
           in if lim = None \<and> rem = None \<and> res = None \<and> ra = None then None
              else Some \<lparr>rl_limit = lim, rl_remaining = rem, rl_reset = res, rl_retry_after = ra\<rparr>)"

subsection \<open>The response mapper\<close>

definition LEGACY_ALIASES :: "(string \<times> string) list" where
  "LEGACY_ALIASES = [(''duplicate'', ''DUPLICATE_JOB''), (''not_found'', ''NOT_FOUND''),
     (''queue_paused'', ''QUEUE_PAUSED''), (''rate_limited'', ''RATE_LIMITED'')]"

definition alias_or_upper :: "string \<Rightarrow> string" where
  "alias_or_upper code = (case map_of LEGACY_ALIASES (str_lower code) of Some k \<Rightarrow> k | None \<Rightarrow> str_upper code)"

definition catalog_entry :: "string \<Rightarrow> error_code_entry option" where
  "catalog_entry code = (case lookup_by_canonical_code (alias_or_upper code) of
     Some e \<Rightarrow> Some e | None \<Rightarrow> lookup_by_code (str_upper code))"

definition string_or :: "pyval option \<Rightarrow> string \<Rightarrow> string" where
  "string_or v dflt = (case v of Some (PStr s) \<Rightarrow> if s = [] then dflt else s | _ \<Rightarrow> dflt)"

text \<open>The body is decoded JSON, so the keys of a details object are strings already.\<close>

definition details_of :: "pyval option \<Rightarrow> pydict" where
  "details_of v = (case v of None \<Rightarrow> [] | Some PNone \<Rightarrow> [] | Some (PDict d) \<Rightarrow> d
     | Some w \<Rightarrow> [(PStr ''raw_details'', w)])"

definition error_payload :: "pydict \<Rightarrow> pydict \<times> pydict" where
  "error_payload body = (case dget body ''error'' of
     Some (PDict d) \<Rightarrow> (d, [])
   | None \<Rightarrow> ([], []) | Some PNone \<Rightarrow> ([], [])
   | Some w \<Rightarrow> ([], [(PStr ''raw_error'', w)]))"

definition map_error_response ::
  "(string \<Rightarrow> pydatetime option) \<Rightarrow> pydatetime \<Rightarrow> int \<Rightarrow> pydict \<Rightarrow> headers \<Rightarrow> exn" where
  "map_error_response http_date now status body hs =
     (let (err, malformed) = error_payload body;
          code = string_or (dget err ''code'') ''unknown'';
          ent = catalog_entry code;
          default_message = (case ent of Some e \<Rightarrow> ec_message e | None \<Rightarrow> ''Unknown error'');
          retryable = (case dget err ''retryable'' of
              Some (PBool b) \<Rightarrow> b
            | _ \<Rightarrow> (case ent of Some e \<Rightarrow> ec_retryable e | None \<Rightarrow> False));
          detail = \<lparr>ed_code = code,
                    ed_message = string_or (dget err ''message'') default_message,
                    ed_retryable = retryable,
                    ed_details = foldl (\<lambda>d (k, v). AList.update k v d) (details_of (dget err ''details'')) malformed,
                    ed_request_id = (case dget err ''request_id'' of Some (PStr r) \<Rightarrow> Some r | _ \<Rightarrow> None)\<rparr>;
          canonical = (case ent of None \<Rightarrow> alias_or_upper code | Some e \<Rightarrow> ec_canonical e)
      in if canonical = ''DUPLICATE_JOB'' then APIErr DuplicateJob status detail
         else if canonical = ''NOT_FOUND'' then APIErr JobNotFound status detail
         else if canonical = ''QUEUE_PAUSED'' then APIErr QueuePaused status detail
         else if canonical = ''RATE_LIMITED'' \<or> status = 429 then
           (let rl = parse_rate_limit_headers http_date now hs
            in APIErr (RateLimited (case rl of None \<Rightarrow> None | Some i \<Rightarrow> rl_retry_after i) rl) status detail)
         else APIErr PlainAPI status detail)"

subsection \<open>Facts about the catalog and the mapper\<close>

text \<open>A lookup in an index built from distinct keys finds exactly the entry with that key.\<close>

lemma map_of_index:
  assumes "distinct (map key es)"
  shows "map_of (rev (map (\<lambda>e. (key e, e)) es)) k = Some e \<longleftrightarrow> e \<in> set es \<and> key e = k"
proof -
  have "map fst (rev (map (\<lambda>e. (key e, e)) es)) = rev (map key es)"
    by (simp add: rev_map comp_def)
  then have "distinct (map fst (rev (map (\<lambda>e. (key e, e)) es)))"
    using assms by simp
  then show ?thesis by (auto simp: map_of_eq_Some_iff)
qed

lemmas catalog_defs = ALL_ERROR_CODES_def catalog_1xxx_def catalog_2xxx_def catalog_3xxx_def
  catalog_4xxx_def catalog_5xxx_def catalog_6xxx_def catalog_7xxx_def entry_def

lemma catalog_codes_distinct: "distinct (map ec_code ALL_ERROR_CODES)"
  by code_simp

lemma catalog_canonical_distinct:
  "distinct (map ec_canonical (filter (\<lambda>e. ec_canonical e \<noteq> []) ALL_ERROR_CODES))"
  by code_simp

lemma lookup_by_code_iff:
  "lookup_by_code c = Some e \<longleftrightarrow> e \<in> set ALL_ERROR_CODES \<and> ec_code e = c"
  unfolding lookup_by_code_def CODE_INDEX_def
  by (rule map_of_index[OF catalog_codes_distinct])

lemma lookup_by_canonical_code_iff:
  "lookup_by_canonical_code k = Some e \<longleftrightarrow>
     e \<in> set ALL_ERROR_CODES \<and> ec_canonical e = k \<and> k \<noteq> []"
  unfolding lookup_by_canonical_code_def CANONICAL_INDEX_def
    map_of_index[OF catalog_canonical_distinct]
  by auto

lemma map_error_response_api:
  "\<exists>c d. map_error_response http_date now status body hs = APIErr c status d"
  by (simp add: map_error_response_def Let_def split: prod.splits)

text \<open>Every entry is found under its numeric code and, when it has one, under its wire code.\<close>

lemma catalog_code_shape:
  "list_all (\<lambda>e. take 4 (ec_code e) = ''OJS-'' \<and> take 4 (ec_canonical e) \<noteq> ''OJS-'') ALL_ERROR_CODES"
  by code_simp

lemma catalog_code_case: "list_all (\<lambda>e. alias_or_upper (ec_code e) = ec_code e \<and> str_upper (ec_code e) = ec_code e) ALL_ERROR_CODES"
  by code_simp

lemma catalog_canonical_case: "list_all (\<lambda>e. alias_or_upper (ec_canonical e) = ec_canonical e) ALL_ERROR_CODES"
  by code_simp

lemma catalog_entry_code:
  assumes "e \<in> set ALL_ERROR_CODES"
  shows "catalog_entry (ec_code e) = Some e"
proof -
  have "alias_or_upper (ec_code e) = ec_code e" "str_upper (ec_code e) = ec_code e"
    using assms catalog_code_case by (auto simp: list_all_iff)
  moreover have "lookup_by_canonical_code (ec_code e) = None"
  proof (rule ccontr)
    assume "lookup_by_canonical_code (ec_code e) \<noteq> None"
    then obtain x where "x \<in> set ALL_ERROR_CODES" "ec_canonical x = ec_code e"
      by (auto simp: lookup_by_canonical_code_iff)
    moreover have "\<forall>y \<in> set ALL_ERROR_CODES. take 4 (ec_code y) = ''OJS-'' \<and> take 4 (ec_canonical y) \<noteq> ''OJS-''"
      using catalog_code_shape unfolding list_all_iff .
    ultimately show False using assms by metis
  qed
  moreover have "lookup_by_code (ec_code e) = Some e" using assms by (simp add: lookup_by_code_iff)
  ultimately show ?thesis by (simp add: catalog_entry_def)
qed

lemma catalog_entry_canonical:
  assumes "e \<in> set ALL_ERROR_CODES" "ec_canonical e \<noteq> []"
  shows "catalog_entry (ec_canonical e) = Some e"
proof -
  have "alias_or_upper (ec_canonical e) = ec_canonical e"
    using assms(1) catalog_canonical_case by (auto simp: list_all_iff)
  moreover have "lookup_by_canonical_code (ec_canonical e) = Some e"
    using assms by (simp add: lookup_by_canonical_code_iff)
  ultimately show ?thesis by (simp add: catalog_entry_def)
qed

text \<open>The class an entry's errors are mapped to.\<close>

definition entry_class ::
  "(string \<Rightarrow> pydatetime option) \<Rightarrow> pydatetime \<Rightarrow> headers \<Rightarrow> int \<Rightarrow> error_code_entry \<Rightarrow> api_class" where
  "entry_class http_date now hs status e =
     (if ec_canonical e = ''DUPLICATE_JOB'' then DuplicateJob
      else if ec_canonical e = ''NOT_FOUND'' then JobNotFound
      else if ec_canonical e = ''QUEUE_PAUSED'' then QueuePaused
      else if ec_canonical e = ''RATE_LIMITED'' \<or> status = 429 then
        RateLimited (case parse_rate_limit_headers http_date now hs of None \<Rightarrow> None | Some i \<Rightarrow> rl_retry_after i)
          (parse_rate_limit_headers http_date now hs)
      else PlainAPI)"

text \<open>
  C36. The error mapper is driven by the catalog: an error whose code is the numeric code or the wire
  code of a catalog entry becomes the exception class of that entry (or the rate-limit error on
  status 429), with the entry's message when the response has none, and it is retryable as the
  response says, or as the entry says when the response does not say.
\<close>

theorem map_error_response_catalog:
  assumes "e \<in> set ALL_ERROR_CODES" and "c = ec_code e \<or> c = ec_canonical e \<and> c \<noteq> []"
    and "dget body ''error'' = Some (PDict err)" and "dget err ''code'' = Some (PStr c)"
  shows "\<exists>d. map_error_response http_date now status body hs
        = APIErr (entry_class http_date now hs status e) status d
      \<and> ed_code d = c \<and> ed_message d = string_or (dget err ''message'') (ec_message e)
      \<and> ed_retryable d = (case dget err ''retryable'' of Some (PBool b) \<Rightarrow> b | _ \<Rightarrow> ec_retryable e)"
proof -
  have "ec_code e \<noteq> []" using assms(1) catalog_code_shape by (fastforce simp: list_all_iff)
  then have c: "catalog_entry c = Some e" "c \<noteq> []"
    using assms(1,2) catalog_entry_code catalog_entry_canonical by auto
  have "string_or (dget err ''code'') ''unknown'' = c" using assms(4) c(2) by (simp add: string_or_def)
  then show ?thesis
    using assms(3) c by (simp add: map_error_response_def error_payload_def entry_class_def Let_def
        cong: option.case_cong pyval.case_cong)
qed

theorem map_error_response_catalog_witness:
  "\<exists>d. map_error_response (\<lambda>_. None) (NaiveDT 0) 409
      [(PStr ''error'', PDict [(PStr ''code'', PStr ''DUPLICATE_JOB'')])] [] = APIErr DuplicateJob 409 d \<and> \<not> ed_retryable d"
proof -
  have "list_ex (\<lambda>e. ec_canonical e = ''DUPLICATE_JOB'' \<and> \<not> ec_retryable e) ALL_ERROR_CODES" by code_simp
  then obtain e where e: "e \<in> set ALL_ERROR_CODES" "ec_canonical e = ''DUPLICATE_JOB''" "\<not> ec_retryable e"
    by (auto simp: list_ex_iff)
  show ?thesis
    using map_error_response_catalog[of e "''DUPLICATE_JOB''" "[(PStr ''error'', PDict [(PStr ''code'', PStr ''DUPLICATE_JOB'')])]"
        "[(PStr ''code'', PStr ''DUPLICATE_JOB'')]" "\<lambda>_. None" "NaiveDT 0" 409 "[]"] e
    by (auto simp: entry_class_def)
qed

end
