(* ===== verification/Effects.thy ===== *)
theory Effects
  imports Errors
begin

section \<open>Effectful computations\<close>

text \<open>
  An awaited call that may raise and that acts on a world \<open>'w\<close> is a function from the world to its
  outcome and the world after it.  \<open>bindIO\<close> is sequencing and \<open>catchIO\<close> an \<open>except\<close> clause; both
  thread the world through, whether the outcome is a value or an exception.
\<close>

type_synonym ('w, 'a) io = "'w \<Rightarrow> (exn + 'a) \<times> 'w"

definition retIO :: "'a \<Rightarrow> ('w, 'a) io" where
  "retIO v = (\<lambda>w. (Inr v, w))"

definition raiseIO :: "exn \<Rightarrow> ('w, 'a) io" where
  "raiseIO e = (\<lambda>w. (Inl e, w))"

definition bindIO :: "('w, 'a) io \<Rightarrow> ('a \<Rightarrow> ('w, 'b) io) \<Rightarrow> ('w, 'b) io" where
  "bindIO m f = (\<lambda>w. case m w of (Inl e, w') \<Rightarrow> (Inl e, w') | (Inr v, w') \<Rightarrow> f v w')"

text \<open>\<open>try: m except C as e: h(e)\<close>, where \<open>C\<close> is the class of exceptions the clause names.\<close>

definition catchIO :: "('w, 'a) io \<Rightarrow> (exn \<Rightarrow> bool) \<Rightarrow> (exn \<Rightarrow> ('w, 'a) io) \<Rightarrow> ('w, 'a) io" where
  "catchIO m C h = (\<lambda>w. case m w of (Inl e, w') \<Rightarrow> if C e then h e w' else (Inl e, w')
     | (Inr v, w') \<Rightarrow> (Inr v, w'))"

definition liftIO :: "exn + 'a \<Rightarrow> ('w, 'a) io" where
  "liftIO r = (\<lambda>w. (r, w))"

text \<open>A comprehension whose element expression is awaited: it stops at the first exception.\<close>

fun mapIO :: "('a \<Rightarrow> ('w, 'b) io) \<Rightarrow> 'a list \<Rightarrow> ('w, 'b list) io" where
  "mapIO f [] = retIO []"
| "mapIO f (x # xs) = bindIO (f x) (\<lambda>y. bindIO (mapIO f xs) (\<lambda>ys. retIO (y # ys)))"

named_theorems io_simps \<open>evaluation of effectful computations\<close>

lemma io_basic [io_simps]:
  "retIO v w = (Inr v, w)" "raiseIO e w = (Inl e, w)" "liftIO r w = (r, w)"
  by (simp_all add: retIO_def raiseIO_def liftIO_def)

lemma bindIO_ok [io_simps]: "m w = (Inr v, w') \<Longrightarrow> bindIO m f w = f v w'"
  by (simp add: bindIO_def)

lemma bindIO_err [io_simps]: "m w = (Inl e, w') \<Longrightarrow> bindIO m f w = (Inl e, w')"
  by (simp add: bindIO_def)

lemma catchIO_ok [io_simps]: "m w = (Inr v, w') \<Longrightarrow> catchIO m C h w = (Inr v, w')"
  by (simp add: catchIO_def)

lemma catchIO_err [io_simps]:
  "m w = (Inl e, w') \<Longrightarrow> catchIO m C h w = (if C e then h e w' else (Inl e, w'))"
  by (simp add: catchIO_def)

end
