(* ===== verification/Lease.thy ===== *)
theory Lease
  imports Effects
begin

section \<open>Execution leases and local retries\<close>

text \<open>
  \<open>src/ojs/worker/execution_retry.py\<close> and the retry middleware.  A lease is a deadline on a monotonic
  clock that heartbeats may push back.  \<open>sleep_for_retry\<close> is a loop woken by its own sleep, by
  an extension or by the cancellation of its task: the wake-ups it meets are the list \<open>wake\<close>, a sleep ends
  some time after the time it was asked for, and running out of wake-ups means the call is still waiting
  (\<open>None\<close>).
  \<open>execution_retry_run\<close> is the attempt loop around a handler.
\<close>

subsection \<open>The lease\<close>

record lease =
  ls_visibility :: rat
  ls_deadline :: rat

definition new_lease :: "int \<Rightarrow> rat \<Rightarrow> exn + lease" where
  "new_lease visibility_timeout_ms now =
     (if visibility_timeout_ms < 1 then Inl (ValueErr ''visibility_timeout_ms must be at least 1'')
      else Inr \<lparr>ls_visibility = of_int visibility_timeout_ms / 1000,
                ls_deadline = now + of_int visibility_timeout_ms / 1000\<rparr>)"

definition lease_remaining :: "lease \<Rightarrow> rat \<Rightarrow> rat" where
  "lease_remaining l now = max 0 (ls_deadline l - now)"

definition lease_extend :: "int option \<Rightarrow> rat \<Rightarrow> lease \<Rightarrow> lease" where
  "lease_extend ms now l =
     (let duration = (case ms of None \<Rightarrow> ls_visibility l | Some m \<Rightarrow> of_int m / 1000)
      in l\<lparr>ls_deadline := max (ls_deadline l) (now + duration)\<rparr>)"

text \<open>
  A wake-up of the waiting call: an extension some time after the wait began, the end of the sleep, late
  by some time, or a cancellation some time after the wait began, which is raised again once the two
  tasks of the wait are cancelled.
\<close>

datatype wake = Extended rat "int option" | Slept rat | Cancelled_at rat

fun sleep_loop :: "rat \<Rightarrow> wake list \<Rightarrow> rat \<Rightarrow> lease \<Rightarrow> ((exn + unit) \<times> rat \<times> lease) option" where
  "sleep_loop target wake now l =
     (if target - now \<le> 0 then Some (Inr (), now, l)
      else if lease_remaining l now \<le> 0 then Some (Inl LeaseBudgetExceededErr, now, l)
      else (case wake of [] \<Rightarrow> None
        | Extended dt ms # rest \<Rightarrow> sleep_loop target rest (now + dt) (lease_extend ms (now + dt) l)
        | Slept late # rest \<Rightarrow>
            (let now' = now + min (target - now) (lease_remaining l now) + late in
             if now' < target \<and> lease_remaining l now' \<le> 0
             then Some (Inl LeaseBudgetExceededErr, now', l)
             else sleep_loop target rest now' l)
        | Cancelled_at dt # _ \<Rightarrow> Some (Inl CancelledErr, now + dt, l)))"

declare sleep_loop.simps [simp del]

definition sleep_for_retry :: "rat \<Rightarrow> wake list \<Rightarrow> rat \<Rightarrow> lease \<Rightarrow> ((exn + unit) \<times> rat \<times> lease) option" where
  "sleep_for_retry delay wake now l =
     (if delay < 0 then Some (Inl (ValueErr ''retry delay cannot be negative''), now, l)
      else sleep_loop (now + delay) wake now l)"

subsection \<open>Local retries\<close>

record execution_retry =
  er_max_retries :: int
  er_base_delay :: rat
  er_max_delay :: rat
  er_jitter :: bool

definition default_execution_retry :: execution_retry where
  "default_execution_retry =
     \<lparr>er_max_retries = 3, er_base_delay = 1 / 10, er_max_delay = 30, er_jitter = True\<rparr>"

definition execution_retry_init :: "execution_retry \<Rightarrow> exn + execution_retry" where
  "execution_retry_init r =
     (if er_max_retries r < 0 then Inl (ValueErr ''max_retries cannot be negative'')
      else if er_base_delay r < 0 then Inl (ValueErr ''base_delay cannot be negative'')
      else if er_max_delay r < 0 then Inl (ValueErr ''max_delay cannot be negative'')
      else Inr r)"

text \<open>\<open>2 ** attempt\<close> is an integer; multiplying a float by it overflows beyond the float range.\<close>

definition retry_delay :: "execution_retry \<Rightarrow> nat \<Rightarrow> rat \<Rightarrow> exn + rat" where
  "retry_delay r attempt u =
     (if float_limit \<le> (2::rat) ^ attempt then Inl OverflowErr
      else let capped = min (er_base_delay r * 2 ^ attempt) (er_max_delay r) in
        if \<not> er_jitter r then Inr capped else Inr (capped * (1 / 2 + u * (1 / 2))))"

fun retry_attempts :: "execution_retry \<Rightarrow> (nat \<Rightarrow> rat) \<Rightarrow> (rat \<Rightarrow> ('w, unit) io) \<Rightarrow> ('w, 'a) io
    \<Rightarrow> nat \<Rightarrow> nat \<Rightarrow> ('w, 'a) io" where
  "retry_attempts r rnd slp nx attempt 0 w = (Inl (RuntimeErr ''execution retry loop ended unexpectedly''), w)"
| "retry_attempts r rnd slp nx attempt (Suc n) w = (case nx w of
     (Inr v, w1) \<Rightarrow> (Inr v, w1)
   | (Inl e, w1) \<Rightarrow>
       if \<not> is_exception e \<or> er_max_retries r \<le> int attempt then (Inl e, w1)
       else (case retry_delay r attempt (rnd attempt) of
         Inl e2 \<Rightarrow> (Inl e2, w1)
       | Inr d \<Rightarrow> (case slp d w1 of
           (Inl e3, w2) \<Rightarrow> (Inl e3, w2)
         | (Inr _, w2) \<Rightarrow> retry_attempts r rnd slp nx (Suc attempt) n w2)))"

definition execution_retry_run :: "execution_retry \<Rightarrow> (nat \<Rightarrow> rat) \<Rightarrow> (rat \<Rightarrow> ('w, unit) io)
    \<Rightarrow> ('w, 'a) io \<Rightarrow> ('w, 'a) io" where
  "execution_retry_run r rnd slp nx = retry_attempts r rnd slp nx 0 (nat (er_max_retries r + 1))"

subsection \<open>Properties of the lease\<close>

lemma lease_remaining_le_0: "lease_remaining l now \<le> 0 \<longleftrightarrow> ls_deadline l \<le> now"
  by (auto simp: lease_remaining_def)

lemma lease_extend_deadline: "ls_deadline l \<le> ls_deadline (lease_extend ms now l)"
  by (simp add: lease_extend_def Let_def)

fun wake_ok :: "wake \<Rightarrow> bool" where
  "wake_ok (Extended dt _) = (0 \<le> dt)"
| "wake_ok (Slept late) = (0 \<le> late)"
| "wake_ok (Cancelled_at dt) = (0 \<le> dt)"

text \<open>A wake-up after which the wait cannot be the same: its sleep is over or its task is cancelled.\<close>

fun ends_wait :: "wake \<Rightarrow> bool" where
  "ends_wait (Extended _ _) = False"
| "ends_wait (Slept _) = True"
| "ends_wait (Cancelled_at _) = True"

text \<open>What a call that has returned says of the time, of the lease and of the wake-ups it met.\<close>

definition sleep_ended :: "rat \<Rightarrow> wake list \<Rightarrow> exn + unit \<Rightarrow> rat \<Rightarrow> lease \<Rightarrow> bool" where
  "sleep_ended target wake r now l \<longleftrightarrow>
     r = Inr () \<and> target \<le> now
     \<or> r = Inl LeaseBudgetExceededErr \<and> now < target \<and> ls_deadline l \<le> now
     \<or> r = Inl CancelledErr \<and> (\<exists>dt. Cancelled_at dt \<in> set wake)"

lemma sleep_ended_cons: "sleep_ended target wake r now l \<Longrightarrow> sleep_ended target (a # wake) r now l"
  by (auto simp: sleep_ended_def)

lemma sleep_loop_alive:
  assumes "now < target" "now < ls_deadline l"
  shows "sleep_loop target [] now l = None"
    "sleep_loop target (Extended dt ms # rest) now l
       = sleep_loop target rest (now + dt) (lease_extend ms (now + dt) l)"
    "sleep_loop target (Slept late # rest) now l =
       (if now + min (target - now) (lease_remaining l now) + late < target
          \<and> lease_remaining l (now + min (target - now) (lease_remaining l now) + late) \<le> 0
        then Some (Inl LeaseBudgetExceededErr, now + min (target - now) (lease_remaining l now) + late, l)
        else sleep_loop target rest (now + min (target - now) (lease_remaining l now) + late) l)"
    "sleep_loop target (Cancelled_at dt # rest) now l = Some (Inl CancelledErr, now + dt, l)"
  using assms by (subst sleep_loop.simps, simp add: lease_remaining_le_0 Let_def)+

lemma sleep_loop_outcome:
  assumes "sleep_loop target wake now l = Some (r, now', l')" and "list_all wake_ok wake"
  shows "now \<le> now' \<and> ls_deadline l \<le> ls_deadline l' \<and> sleep_ended target wake r now' l'"
  using assms
proof (induction target wake now l rule: sleep_loop.induct)
  case (1 target wake now l)
  show ?case
  proof (cases "target - now \<le> 0 \<or> lease_remaining l now \<le> 0")
    case True
    then show ?thesis using "1.prems"(1)
      by (subst (asm) sleep_loop.simps) (auto simp: lease_remaining_le_0 sleep_ended_def split: if_splits)
  next
    case False
    then have alive: "now < target" "now < ls_deadline l" by (simp_all add: lease_remaining_le_0)
    show ?thesis
    proof (cases wake)
      case Nil
      then show ?thesis using "1.prems"(1) False by (subst (asm) sleep_loop.simps) simp
    next
      case (Cons a rest)
      show ?thesis
      proof (cases a)
        case (Extended dt ms)
        let ?l = "lease_extend ms (now + dt) l"
        have "sleep_loop target rest (now + dt) ?l = Some (r, now', l')"
          using "1.prems"(1) False Cons Extended by (subst (asm) sleep_loop.simps) simp
        then have "now + dt \<le> now' \<and> ls_deadline ?l \<le> ls_deadline l' \<and> sleep_ended target rest r now' l'"
          using "1.IH"(1) "1.prems"(2) False Cons Extended by simp
        then show ?thesis using "1.prems"(2) Cons Extended lease_extend_deadline[of l ms "now + dt"]
          by (auto intro: sleep_ended_cons)
      next
        case (Slept late)
        define now1 where "now1 = now + min (target - now) (lease_remaining l now) + late"
        have later: "now \<le> now1" using alive "1.prems"(2) Cons Slept by (simp add: now1_def lease_remaining_def)
        have unf: "(if now1 < target \<and> lease_remaining l now1 \<le> 0
             then Some (Inl LeaseBudgetExceededErr, now1, l) else sleep_loop target rest now1 l) = Some (r, now', l')"
          using "1.prems"(1) unfolding Cons Slept sleep_loop_alive[OF alive] now1_def .
        show ?thesis
        proof (cases "now1 < target \<and> lease_remaining l now1 \<le> 0")
          case True
          then show ?thesis using unf later by (auto simp: lease_remaining_le_0 sleep_ended_def)
        next
          case go: False
          then have "sleep_loop target rest now1 l = Some (r, now', l')" using unf by (simp only: if_False)
          then have "now1 \<le> now' \<and> ls_deadline l \<le> ls_deadline l' \<and> sleep_ended target rest r now' l'"
            using "1.IH"(2)[OF _ _ Cons Slept now1_def] False go "1.prems"(2) Cons by simp
          then show ?thesis using later Cons by (auto intro: sleep_ended_cons)
        qed
      next
        case (Cancelled_at dt)
        then show ?thesis using "1.prems" alive Cons sleep_loop_alive(4)[OF alive]
          by (auto simp: sleep_ended_def)
      qed
    qed
  qed
qed

lemma sleep_loop_wakes:
  assumes "list_ex ends_wait wake" and "list_all wake_ok wake"
  shows "sleep_loop target wake now l \<noteq> None"
  using assms
proof (induction wake arbitrary: now l)
  case (Cons a rest)
  show ?case
  proof (cases "now < target \<and> now < ls_deadline l")
    case False
    then show ?thesis by (subst sleep_loop.simps) (auto simp: lease_remaining_le_0)
  next
    case True
    then have alive: "now < target" "now < ls_deadline l" by simp_all
    show ?thesis
    proof (cases a)
      case (Extended dt ms)
      then show ?thesis using Cons sleep_loop_alive(2)[OF alive] by simp
    next
      case (Slept late)
      define now1 where "now1 = now + min (target - now) (lease_remaining l now) + late"
      have "0 \<le> late" using Cons.prems Slept by simp
      then have over: "target \<le> now1 \<or> ls_deadline l \<le> now1"
        using alive by (auto simp: now1_def lease_remaining_def min_def)
      have "sleep_loop target rest now1 l \<noteq> None" if "\<not> (now1 < target \<and> lease_remaining l now1 \<le> 0)"
      proof -
        have "target \<le> now1" using that over by (auto simp: lease_remaining_le_0)
        then show ?thesis by (subst sleep_loop.simps) simp
      qed
      then show ?thesis unfolding Slept sleep_loop_alive(3)[OF alive] now1_def[symmetric] by auto
    next
      case (Cancelled_at dt)
      then show ?thesis using sleep_loop_alive(4)[OF alive] by simp
    qed
  qed
qed simp

text \<open>
  C14. A retry sleep for a delay that is not negative always ends, and ends for one of three reasons.
  As soon as one of its sleeps is over or its task is cancelled (whatever heartbeats extend the lease
  before), \<open>sleep_for_retry\<close> has returned; it returns normally only when the whole delay has passed, it
  raises \<open>LeaseBudgetExceededError\<close> only when the delay has not passed and the deadline, extensions
  included, has, and it raises \<open>CancelledError\<close> only when its task was cancelled.  No time is
  given back, and the deadline never moves to an earlier time.
\<close>

theorem sleep_for_retry_spec:
  assumes "0 \<le> delay" and "list_all wake_ok wake" and "list_ex ends_wait wake"
  shows "\<exists>r now' l'. sleep_for_retry delay wake now l = Some (r, now', l')
    \<and> now \<le> now' \<and> ls_deadline l \<le> ls_deadline l'
    \<and> (r = Inr () \<and> now + delay \<le> now'
       \<or> r = Inl LeaseBudgetExceededErr \<and> now' < now + delay \<and> ls_deadline l' \<le> now'
       \<or> r = Inl CancelledErr \<and> (\<exists>dt. Cancelled_at dt \<in> set wake))"
proof -
  have "sleep_for_retry delay wake now l = sleep_loop (now + delay) wake now l"
    using assms(1) by (simp add: sleep_for_retry_def)
  moreover obtain r now' l' where "sleep_loop (now + delay) wake now l = Some (r, now', l')"
    using sleep_loop_wakes[OF assms(3,2)] by (metis option.exhaust prod_cases3)
  ultimately show ?thesis using sleep_loop_outcome[OF _ assms(2)] by (auto simp: sleep_ended_def)
qed

theorem sleep_for_retry_spec_witness:
  "\<exists>r now' l'. sleep_for_retry 2 [Extended 1 (Some 3000), Slept 0] 0 \<lparr>ls_visibility = 1, ls_deadline = 1\<rparr> = Some (r, now', l')
    \<and> 0 \<le> now' \<and> 1 \<le> ls_deadline l'
    \<and> (r = Inr () \<and> 2 \<le> now' \<or> r = Inl LeaseBudgetExceededErr \<and> now' < 2 \<and> ls_deadline l' \<le> now')"
  using sleep_for_retry_spec[of 2 "[Extended 1 (Some 3000), Slept 0]" 0 "\<lparr>ls_visibility = 1, ls_deadline = 1\<rparr>"]
  by auto

subsection \<open>Properties of local retries\<close>

lemma retry_delay_bounds:
  assumes "retry_delay r attempt u = Inr d" "0 \<le> u" "u \<le> 1" "0 \<le> er_base_delay r" "0 \<le> er_max_delay r"
  shows "0 \<le> d \<and> d \<le> er_max_delay r \<and> d \<le> er_base_delay r * 2 ^ attempt"
proof -
  define c where "c = min (er_base_delay r * 2 ^ attempt) (er_max_delay r)"
  have c: "0 \<le> c" using assms by (simp add: c_def)
  have "c * (1 / 2 + u * (1 / 2)) \<le> c * 1" using c assms(3) by (intro mult_left_mono) simp_all
  moreover have "0 \<le> c * (1 / 2 + u * (1 / 2))" using c assms(2) by simp
  moreover have "d = c \<or> d = c * (1 / 2 + u * (1 / 2))"
    using assms(1) by (auto simp: retry_delay_def c_def Let_def split: if_splits)
  ultimately have "0 \<le> d \<and> d \<le> c" using c by auto
  then show ?thesis by (auto simp: c_def)
qed

text \<open>
  A handler given by its outcomes (the \<open>n\<close>-th call ends with \<open>f n\<close>) and a sleep given by its own (the
  \<open>n\<close>-th sleep, asked for \<open>d\<close> seconds, ends with \<open>g n d\<close>: it may raise \<open>LeaseBudgetExceededError\<close>, be
  cancelled or fail in any other way), in a world that counts the calls and records the sleeps.
\<close>

record retry_world =
  rw_calls :: nat
  rw_sleeps :: "rat list"

definition scripted_handler :: "(nat \<Rightarrow> exn + 'a) \<Rightarrow> (retry_world, 'a) io" where
  "scripted_handler f = (\<lambda>w. (f (rw_calls w), w\<lparr>rw_calls := rw_calls w + 1\<rparr>))"

definition scripted_sleep :: "(nat \<Rightarrow> rat \<Rightarrow> exn + unit) \<Rightarrow> rat \<Rightarrow> (retry_world, unit) io" where
  "scripted_sleep g d = (\<lambda>w. (g (length (rw_sleeps w)) d, w\<lparr>rw_sleeps := rw_sleeps w @ [d]\<rparr>))"

definition retryable_failure :: "exn + 'a \<Rightarrow> bool" where
  "retryable_failure x = (case x of Inl e \<Rightarrow> is_exception e | Inr _ \<Rightarrow> False)"

text \<open>The number of calls: the first call that is not a retryable failure, or all of them.\<close>

fun calls_needed :: "(nat \<Rightarrow> bool) \<Rightarrow> nat \<Rightarrow> nat \<Rightarrow> nat" where
  "calls_needed fails k 0 = k"
| "calls_needed fails k (Suc n) = (if fails k then calls_needed fails (Suc k) n else k)"

lemma calls_needed_bounds: "k \<le> calls_needed fails k n \<and> calls_needed fails k n \<le> k + n"
  by (induction fails k n rule: calls_needed.induct) auto

text \<open>How the pause after call \<open>i\<close> ends: with the error of its delay, or with what the sleep does.\<close>

definition retry_pause :: "execution_retry \<Rightarrow> (nat \<Rightarrow> rat) \<Rightarrow> (nat \<Rightarrow> rat \<Rightarrow> exn + unit) \<Rightarrow> nat \<Rightarrow> exn + unit" where
  "retry_pause r rnd g i = (case retry_delay r i (rnd i) of Inl e \<Rightarrow> Inl e | Inr d \<Rightarrow> g i d)"

definition retried :: "execution_retry \<Rightarrow> (nat \<Rightarrow> rat) \<Rightarrow> (nat \<Rightarrow> rat \<Rightarrow> exn + unit) \<Rightarrow> (nat \<Rightarrow> exn + 'a) \<Rightarrow> nat \<Rightarrow> bool" where
  "retried r rnd g f i \<longleftrightarrow> retryable_failure (f i) \<and> retry_pause r rnd g i = Inr ()"

definition asked_sleeps :: "execution_retry \<Rightarrow> (nat \<Rightarrow> rat) \<Rightarrow> nat list \<Rightarrow> rat list" where
  "asked_sleeps r rnd is = concat (map (\<lambda>i. case retry_delay r i (rnd i) of Inl _ \<Rightarrow> [] | Inr d \<Rightarrow> [d]) is)"

lemma asked_sleeps_simps [simp]:
  "asked_sleeps r rnd [] = []"
  "asked_sleeps r rnd (i # is) = (case retry_delay r i (rnd i) of Inl _ \<Rightarrow> [] | Inr d \<Rightarrow> [d]) @ asked_sleeps r rnd is"
  by (simp_all add: asked_sleeps_def)

lemma retry_attempts_scripted:
  assumes "a + n = nat (er_max_retries r)" and "0 \<le> er_max_retries r"
    and "rw_calls w = a" and "length (rw_sleeps w) = a"
  shows "\<exists>k w'. a \<le> k \<and> k \<le> a + n \<and> list_all (retried r rnd g f) [a..<k]
    \<and> (k = a + n \<or> \<not> retried r rnd g f k)
    \<and> retry_attempts r rnd (scripted_sleep g) (scripted_handler f) a (Suc n) w
      = (if k < a + n \<and> retryable_failure (f k) then (case retry_pause r rnd g k of Inl e \<Rightarrow> Inl e | Inr _ \<Rightarrow> f k) else f k, w')
    \<and> rw_calls w' = k + 1
    \<and> rw_sleeps w' = rw_sleeps w @ asked_sleeps r rnd
        (if k < a + n \<and> retryable_failure (f k) then [a..<k] @ [k] else [a..<k])"
  using assms
proof (induction n arbitrary: a w)
  case 0
  then show ?case
    by (intro exI[of _ a]) (auto simp: scripted_handler_def split: sum.splits)
next
  case (Suc n)
  have more: "\<not> er_max_retries r \<le> int a" using Suc.prems by linarith
  show ?case
  proof (cases "retried r rnd g f a")
    case False
    then show ?thesis using Suc.prems more
      by (intro exI[of _ a]) (auto simp: scripted_handler_def scripted_sleep_def retried_def retryable_failure_def
        retry_pause_def split: sum.splits)
  next
    case True
    then obtain e d where e: "f a = Inl e" "is_exception e" and d: "retry_delay r a (rnd a) = Inr d" "g a d = Inr ()"
      by (auto simp: retried_def retryable_failure_def retry_pause_def split: sum.splits)
    define w1 where "w1 = w\<lparr>rw_calls := rw_calls w + 1, rw_sleeps := rw_sleeps w @ [d]\<rparr>"
    have step: "retry_attempts r rnd (scripted_sleep g) (scripted_handler f) a (Suc (Suc n)) w
        = retry_attempts r rnd (scripted_sleep g) (scripted_handler f) (Suc a) (Suc n) w1"
      unfolding retry_attempts.simps(2)[of _ _ _ _ a "Suc n"]
      using e d more Suc.prems by (simp add: scripted_handler_def scripted_sleep_def w1_def del: retry_attempts.simps)
    have w1: "Suc a + n = nat (er_max_retries r)" "rw_calls w1 = Suc a" "length (rw_sleeps w1) = Suc a"
      using Suc.prems by (simp_all add: w1_def)
    from Suc.IH[OF w1(1) Suc.prems(2) w1(2,3)] obtain k w' where
      k: "Suc a \<le> k" "k \<le> Suc a + n" "list_all (retried r rnd g f) [Suc a..<k]" "k = Suc a + n \<or> \<not> retried r rnd g f k"
      and w': "retry_attempts r rnd (scripted_sleep g) (scripted_handler f) (Suc a) (Suc n) w1
        = (if k < Suc a + n \<and> retryable_failure (f k) then (case retry_pause r rnd g k of Inl e \<Rightarrow> Inl e | Inr _ \<Rightarrow> f k) else f k, w')"
      "rw_calls w' = k + 1"
      "rw_sleeps w' = rw_sleeps w1 @ asked_sleeps r rnd
        (if k < Suc a + n \<and> retryable_failure (f k) then [Suc a..<k] @ [k] else [Suc a..<k])"
      by blast
    have up: "[a..<k] = a # [Suc a..<k]" using k(1) by (intro upt_conv_Cons) simp
    show ?thesis unfolding step
      using k w' True d by (intro exI[of _ k] exI[of _ w']) (auto simp: up w1_def)
  qed
qed

text \<open>
  C13. Local retries, for every policy that the constructor accepts, every handler and every sleep.  The
  calls are numbered from 0, and the last one is the first call \<open>k\<close> that is not retried: it succeeds, is
  cancelled or is call \<open>max_retries\<close>, or it fails and the pause after it does not end normally.  The
  handler is called \<open>k + 1\<close> times, at most \<open>max_retries + 1\<close>.  If the last call failed before call
  \<open>max_retries\<close>, what is raised is the error of the pause: \<open>OverflowError\<close> of the delay, or what
  \<open>sleep_before_retry\<close> raised (\<open>LeaseBudgetExceededError\<close> when the lease is used up); otherwise it is the
  outcome of the last call.  Every failed call but the one that uses up the retries asks for one sleep,
  for its own delay, unless the delay overflows; the error after the loop is never raised.
\<close>

theorem execution_retry_spec:
  fixes f :: "nat \<Rightarrow> exn + 'a"
  assumes "execution_retry_init r = Inr r"
  shows "\<exists>k. k \<le> nat (er_max_retries r) \<and> list_all (retried r rnd g f) [0..<k]
    \<and> (k = nat (er_max_retries r) \<or> \<not> retried r rnd g f k)
    \<and> execution_retry_run r rnd (scripted_sleep g) (scripted_handler f) \<lparr>rw_calls = 0, rw_sleeps = []\<rparr>
      = (if k < nat (er_max_retries r) \<and> retryable_failure (f k)
         then ((case retry_pause r rnd g k of Inl e \<Rightarrow> Inl e | Inr _ \<Rightarrow> f k),
               \<lparr>rw_calls = k + 1, rw_sleeps = asked_sleeps r rnd ([0..<k] @ [k])\<rparr>)
         else (f k, \<lparr>rw_calls = k + 1, rw_sleeps = asked_sleeps r rnd [0..<k]\<rparr>))"
proof -
  let ?w = "\<lparr>rw_calls = 0, rw_sleeps = []\<rparr>"
  have nonneg: "0 \<le> er_max_retries r" using assms by (auto simp: execution_retry_init_def split: if_splits)
  then have N: "nat (er_max_retries r + 1) = Suc (nat (er_max_retries r))" by simp
  have "0 + nat (er_max_retries r) = nat (er_max_retries r)" "rw_calls ?w = 0" "length (rw_sleeps ?w) = 0" by simp_all
  from retry_attempts_scripted[OF this(1) nonneg this(2,3), of rnd g f]
  obtain k w' where k: "k \<le> nat (er_max_retries r)" "list_all (retried r rnd g f) [0..<k]"
      "k = nat (er_max_retries r) \<or> \<not> retried r rnd g f k"
    and run: "retry_attempts r rnd (scripted_sleep g) (scripted_handler f) 0 (Suc (nat (er_max_retries r))) ?w
      = (if k < nat (er_max_retries r) \<and> retryable_failure (f k)
         then case retry_pause r rnd g k of Inl e \<Rightarrow> Inl e | Inr _ \<Rightarrow> f k else f k, w')"
    and calls: "rw_calls w' = k + 1" and sleeps: "rw_sleeps w' = asked_sleeps r rnd
      (if k < nat (er_max_retries r) \<and> retryable_failure (f k) then [0..<k] @ [k] else [0..<k])"
    unfolding add_0 append_Nil retry_world.simps by blast
  have w': "w' = \<lparr>rw_calls = k + 1, rw_sleeps = asked_sleeps r rnd
      (if k < nat (er_max_retries r) \<and> retryable_failure (f k) then [0..<k] @ [k] else [0..<k])\<rparr>"
    using calls sleeps by (intro retry_world.equality) simp_all
  show ?thesis unfolding execution_retry_run_def N using k run w'
    by (intro exI[of _ k] conjI) (simp_all del: retry_attempts.simps)
qed

text \<open>A lease that lasts for one sleep only: the second pause raises and ends the loop.\<close>

theorem execution_retry_spec_witness:
  "execution_retry_run default_execution_retry (\<lambda>_. 0)
     (scripted_sleep (\<lambda>n d. if n < 1 then Inr () else Inl LeaseBudgetExceededErr))
     (scripted_handler (\<lambda>n. Inl TimeoutErr :: exn + nat)) \<lparr>rw_calls = 0, rw_sleeps = []\<rparr>
   = (Inl LeaseBudgetExceededErr, \<lparr>rw_calls = 2, rw_sleeps = [1 / 20, 1 / 10]\<rparr>)"
proof -
  let ?r = default_execution_retry and ?g = "\<lambda>n d. if n < (1::nat) then Inr () else Inl LeaseBudgetExceededErr"
  let ?f = "\<lambda>n::nat. Inl TimeoutErr :: exn + nat"
  have d: "retry_delay ?r 0 0 = Inr (1 / 20)" "retry_delay ?r (Suc 0) 0 = Inr (1 / 10)"
    by (simp_all add: retry_delay_def default_execution_retry_def float_limit_def)
  have kept: "retried ?r (\<lambda>_. 0) ?g ?f 0" and stop: "\<not> retried ?r (\<lambda>_. 0) ?g ?f 1"
    by (simp_all add: retried_def retry_pause_def retryable_failure_def d)
  obtain k where k: "k \<le> 3" "list_all (retried ?r (\<lambda>_. 0) ?g ?f) [0..<k]" "k = 3 \<or> \<not> retried ?r (\<lambda>_. 0) ?g ?f k"
    and run: "execution_retry_run ?r (\<lambda>_. 0) (scripted_sleep ?g) (scripted_handler ?f) \<lparr>rw_calls = 0, rw_sleeps = []\<rparr>
      = (if k < 3 \<and> retryable_failure (?f k)
         then ((case retry_pause ?r (\<lambda>_. 0) ?g k of Inl e \<Rightarrow> Inl e | Inr _ \<Rightarrow> ?f k),
               \<lparr>rw_calls = k + 1, rw_sleeps = asked_sleeps ?r (\<lambda>_. 0) ([0..<k] @ [k])\<rparr>)
         else (?f k, \<lparr>rw_calls = k + 1, rw_sleeps = asked_sleeps ?r (\<lambda>_. 0) [0..<k]\<rparr>))"
    using execution_retry_spec[of ?r "\<lambda>_. 0" ?g ?f]
    by (auto simp: default_execution_retry_def execution_retry_init_def)
  have "\<not> 1 < k" using k(2) stop by (auto simp: list_all_iff)
  moreover have "k \<noteq> 0" using k(3) kept by (metis zero_neq_numeral)
  ultimately have "k = 1" by simp
  then show ?thesis using run by (simp add: retry_pause_def retryable_failure_def d)
qed

end
