(* ===== verification/Admission.thy ===== *)
theory Admission
  imports Lease
begin

section \<open>Lease admission and the execution registry\<close>

text \<open>
  \<open>src/ojs/worker/lease_admission.py\<close>, \<open>execution_registry.py\<close> and \<open>run_state.py\<close>.  Permits are the
  keys of a dict, in insertion order; the bounded semaphore is its counter, and acquiring one that is
  0 blocks (\<open>None\<close>).  The draws of \<open>uuid4\<close> are an argument, and that they are new is a hypothesis of
  the lemmas.  The locale \<open>permit_pool\<close> is what the registry relies on; the registry's lemmas are
  proved inside it and then read off for the admission of the code.
\<close>

subsection \<open>Admission\<close>

record admission =
  la_capacity :: nat
  la_semaphore :: nat
  la_permits :: "string list"

definition new_admission :: "int \<Rightarrow> exn + admission" where
  "new_admission capacity = (if capacity < 1 then Inl (ValueErr ''capacity must be at least 1'')
     else Inr \<lparr>la_capacity = nat capacity, la_semaphore = nat capacity, la_permits = []\<rparr>)"

definition la_available :: "admission \<Rightarrow> int" where
  "la_available a = int (la_capacity a) - int (length (la_permits a))"

definition la_active :: "admission \<Rightarrow> nat" where
  "la_active a = length (la_permits a)"

definition semaphore_acquire :: "admission \<Rightarrow> admission option" where
  "semaphore_acquire a = (if la_semaphore a = 0 then None
     else Some (a\<lparr>la_semaphore := la_semaphore a - 1\<rparr>))"

definition semaphore_release :: "admission \<Rightarrow> exn + admission" where
  "semaphore_release a = (if la_capacity a \<le> la_semaphore a
     then Inl (ValueErr ''BoundedSemaphore released too many times'')
     else Inr (a\<lparr>la_semaphore := la_semaphore a + 1\<rparr>))"

definition add_permit :: "string \<Rightarrow> admission \<Rightarrow> admission" where
  "add_permit t a = a\<lparr>la_permits := (if t \<in> set (la_permits a) then la_permits a else la_permits a @ [t])\<rparr>"

text \<open>One iteration per draw: as many draws as there was capacity when the loop began.\<close>

fun reserve_loop :: "string list \<Rightarrow> admission \<Rightarrow> admission option" where
  "reserve_loop [] a = Some a"
| "reserve_loop (t # ts) a = (case semaphore_acquire a of None \<Rightarrow> None
     | Some a' \<Rightarrow> reserve_loop ts (add_permit t a'))"

definition reserve_available :: "(nat \<Rightarrow> string) \<Rightarrow> admission \<Rightarrow> (string list \<times> admission) option" where
  "reserve_available uuid4 a = (let ts = map uuid4 [0..<nat (la_available a)] in
     map_option (Pair ts) (reserve_loop ts a))"

definition la_release :: "string \<Rightarrow> admission \<Rightarrow> exn + bool \<times> admission" where
  "la_release t a = (if t \<notin> set (la_permits a) then Inr (False, a)
     else bindR (semaphore_release (a\<lparr>la_permits := removeAll t (la_permits a)\<rparr>)) (\<lambda>a'. Inr (True, a')))"

text \<open>The state between operations: every permit holds one unit of the semaphore.\<close>

definition admission_ok :: "admission \<Rightarrow> bool" where
  "admission_ok a \<longleftrightarrow> distinct (la_permits a) \<and> length (la_permits a) + la_semaphore a = la_capacity a"

lemma admission_ok_new: "new_admission c = Inr a \<Longrightarrow> admission_ok a"
  by (auto simp: new_admission_def admission_ok_def split: if_splits)

lemma reserve_loop_ok:
  assumes "admission_ok a" "distinct ts" "set ts \<inter> set (la_permits a) = {}" "length ts \<le> la_semaphore a"
  shows "reserve_loop ts a = Some (a\<lparr>la_permits := la_permits a @ ts,
           la_semaphore := la_semaphore a - length ts\<rparr>)"
  using assms
proof (induction ts arbitrary: a)
  case Nil
  then show ?case by simp
next
  case (Cons t ts)
  then have "reserve_loop ts (add_permit t (a\<lparr>la_semaphore := la_semaphore a - 1\<rparr>))
      = Some (a\<lparr>la_permits := (la_permits a @ [t]) @ ts, la_semaphore := la_semaphore a - 1 - length ts\<rparr>)"
    by (subst Cons.IH) (auto simp: add_permit_def admission_ok_def)
  then show ?case using Cons.prems by (simp add: semaphore_acquire_def)
qed

definition fresh_draws :: "(nat \<Rightarrow> string) \<Rightarrow> admission \<Rightarrow> bool" where
  "fresh_draws uuid4 a \<longleftrightarrow> distinct (map uuid4 [0..<nat (la_available a)])
     \<and> set (map uuid4 [0..<nat (la_available a)]) \<inter> set (la_permits a) = {}"

lemma reserve_available_ok:
  assumes "admission_ok a" "fresh_draws uuid4 a"
  obtains ts where "reserve_available uuid4 a = Some (ts, a\<lparr>la_permits := la_permits a @ ts, la_semaphore := 0\<rparr>)"
    "length ts = nat (la_available a)" "distinct ts" "set ts \<inter> set (la_permits a) = {}"
proof -
  let ?ts = "map uuid4 [0..<nat (la_available a)]"
  have "length ?ts = la_semaphore a" using assms(1) unfolding admission_ok_def la_available_def by simp linarith
  then have "reserve_available uuid4 a = Some (?ts, a\<lparr>la_permits := la_permits a @ ?ts, la_semaphore := 0\<rparr>)"
    using reserve_loop_ok[of a ?ts] assms by (simp add: reserve_available_def fresh_draws_def Let_def)
  then show ?thesis using that assms(2) by (simp add: fresh_draws_def)
qed

lemma la_release_held:
  "admission_ok a \<Longrightarrow> t \<in> set (la_permits a) \<Longrightarrow>
     la_release t a = Inr (True, a\<lparr>la_permits := remove1 t (la_permits a), la_semaphore := la_semaphore a + 1\<rparr>)"
  by (cases "la_permits a") (auto simp: la_release_def semaphore_release_def admission_ok_def
      distinct_remove1_removeAll)

lemma admission_ok_release:
  "admission_ok a \<Longrightarrow> t \<in> set (la_permits a) \<Longrightarrow>
     admission_ok (a\<lparr>la_permits := remove1 t (la_permits a), la_semaphore := la_semaphore a + 1\<rparr>)"
  using length_pos_if_in_set[of t "la_permits a"]
  by (simp add: admission_ok_def length_remove1 del: length_greater_0_conv)

lemma admission_ok_reserved:
  "admission_ok a \<Longrightarrow> distinct ts \<Longrightarrow> set ts \<inter> set (la_permits a) = {} \<Longrightarrow> length ts = nat (la_available a) \<Longrightarrow>
     admission_ok (a\<lparr>la_permits := la_permits a @ ts, la_semaphore := 0\<rparr>)"
  by (auto simp: admission_ok_def la_available_def)

subsection \<open>The interface the registry uses\<close>

text \<open>Releasing several permits one after the other.\<close>

fun release_each :: "(string \<Rightarrow> 'p \<Rightarrow> exn + bool \<times> 'p) \<Rightarrow> string list \<Rightarrow> 'p \<Rightarrow> exn + 'p" where
  "release_each rel [] p = Inr p"
| "release_each rel (t # ts) p = bindR (rel t p) (\<lambda>(_, p'). release_each rel ts p')"

locale permit_pool =
  fixes held :: "'p \<Rightarrow> string list"
    and bound :: "'p \<Rightarrow> nat"
    and rel :: "string \<Rightarrow> 'p \<Rightarrow> exn + bool \<times> 'p"
    and ok :: "'p \<Rightarrow> bool"
  assumes held_bound: "ok p \<Longrightarrow> length (held p) \<le> bound p"
    and held_distinct: "ok p \<Longrightarrow> distinct (held p)"
    and rel_held: "ok p \<Longrightarrow> t \<in> set (held p) \<Longrightarrow>
      \<exists>p'. rel t p = Inr (True, p') \<and> ok p' \<and> held p' = remove1 t (held p) \<and> bound p' = bound p"
    and rel_free: "ok p \<Longrightarrow> t \<notin> set (held p) \<Longrightarrow> rel t p = Inr (False, p)"
begin

lemma rel_once:
  assumes "ok p" "t \<in> set (held p)"
  shows "\<exists>p'. rel t p = Inr (True, p') \<and> rel t p' = Inr (False, p')"
proof -
  obtain p' where p': "rel t p = Inr (True, p')" "ok p'" "held p' = remove1 t (held p)"
    using rel_held[OF assms] by blast
  then have "t \<notin> set (held p')" using held_distinct[OF assms(1)] by simp
  then show ?thesis using p' rel_free by blast
qed

lemma release_each_held:
  assumes "ok p" "distinct ts" "set ts \<subseteq> set (held p)"
  shows "\<exists>p'. release_each rel ts p = Inr p' \<and> ok p' \<and> bound p' = bound p
    \<and> held p' = filter (\<lambda>t. t \<notin> set ts) (held p)"
  using assms
proof (induction ts arbitrary: p)
  case Nil
  then show ?case by simp
next
  case (Cons t ts)
  then obtain p1 where p1: "rel t p = Inr (True, p1)" "ok p1" "held p1 = remove1 t (held p)" "bound p1 = bound p"
    using rel_held[of p t] by auto
  have r: "held p1 = filter (\<lambda>x. x \<noteq> t) (held p)"
    using p1(3) held_distinct[OF Cons.prems(1)] by (simp add: distinct_remove1_removeAll removeAll_filter_not_eq) (metis)
  have "set ts \<subseteq> set (held p1)" using Cons.prems r by auto
  then obtain p' where "release_each rel ts p1 = Inr p'" "ok p'" "bound p' = bound p1"
      "held p' = filter (\<lambda>x. x \<notin> set ts) (held p1)"
    using Cons.IH[OF p1(2)] Cons.prems(2) by auto
  moreover have "filter (\<lambda>x. x \<notin> set ts) (held p1) = filter (\<lambda>x. x \<notin> set (t # ts)) (held p)"
    unfolding r filter_filter by (rule filter_cong) auto
  ultimately show ?case using p1 by auto
qed

end

interpretation lease_pool: permit_pool la_permits la_capacity la_release admission_ok
proof unfold_locales
  fix p :: admission
  assume "admission_ok p"
  then show "length (la_permits p) \<le> la_capacity p" "distinct (la_permits p)" by (auto simp: admission_ok_def)
next
  fix p :: admission and t
  assume "admission_ok p" "t \<in> set (la_permits p)"
  then show "\<exists>p'. la_release t p = Inr (True, p') \<and> admission_ok p' \<and> la_permits p' = remove1 t (la_permits p)
      \<and> la_capacity p' = la_capacity p"
    using la_release_held[of p t] admission_ok_release[of p t] by simp
next
  fix p :: admission and t
  assume "t \<notin> set (la_permits p)"
  then show "la_release t p = Inr (False, p)" by (simp add: la_release_def)
qed

subsection \<open>The registry and the run state\<close>

record execution =
  ex_token :: string
  ex_job_id :: string
  ex_permit :: string
  ex_lease :: lease

record run_state =
  rs_shutdown :: bool
  rs_admission :: admission
  rs_executions :: "execution list"
  rs_empty :: bool

definition new_run_state :: "int \<Rightarrow> exn + run_state" where
  "new_run_state concurrency = bindR (new_admission concurrency) (\<lambda>a.
     Inr \<lparr>rs_shutdown = False, rs_admission = a, rs_executions = [], rs_empty = True\<rparr>)"

definition request_shutdown :: "run_state \<Rightarrow> run_state" where
  "request_shutdown rs = rs\<lparr>rs_shutdown := True\<rparr>"

definition rs_tokens :: "run_state \<Rightarrow> string list" where
  "rs_tokens rs = map ex_token (rs_executions rs)"

definition rg_register :: "string \<Rightarrow> string \<Rightarrow> lease \<Rightarrow> run_state \<Rightarrow> exn + run_state" where
  "rg_register job_id permit l rs =
     (if permit \<in> set (rs_tokens rs) then Inl (RuntimeErr (''duplicate execution token: '' @ permit))
      else Inr (rs\<lparr>rs_executions := rs_executions rs
             @ [\<lparr>ex_token = permit, ex_job_id = job_id, ex_permit = permit, ex_lease = l\<rparr>],
           rs_empty := False\<rparr>))"

definition rg_complete :: "string \<Rightarrow> run_state \<Rightarrow> exn + bool \<times> run_state" where
  "rg_complete token rs = (case find (\<lambda>e. ex_token e = token) (rs_executions rs) of
     None \<Rightarrow> Inr (False, rs)
   | Some e \<Rightarrow>
       let rs1 = rs\<lparr>rs_executions := filter (\<lambda>x. ex_token x \<noteq> token) (rs_executions rs)\<rparr> in
       bindR (la_release (ex_permit e) (rs_admission rs1)) (\<lambda>(_, a).
         let rs2 = rs1\<lparr>rs_admission := a\<rparr> in
         Inr (True, if rs_executions rs2 = [] then rs2\<lparr>rs_empty := True\<rparr> else rs2)))"

definition rg_active_job_ids :: "run_state \<Rightarrow> string list" where
  "rg_active_job_ids rs = map ex_job_id (rs_executions rs)"

definition rg_extend_leases :: "int \<Rightarrow> string list option \<Rightarrow> rat \<Rightarrow> run_state \<Rightarrow> run_state" where
  "rg_extend_leases ms ids now rs = rs\<lparr>rs_executions := map (\<lambda>e.
     if (case ids of None \<Rightarrow> True | Some js \<Rightarrow> ex_job_id e \<in> set js)
     then e\<lparr>ex_lease := lease_extend (Some ms) now (ex_lease e)\<rparr> else e) (rs_executions rs)\<rparr>"

text \<open>
  The state of a run between operations: executions own distinct permits of the admission, and the
  \<open>empty\<close> event is set exactly when there are none.
\<close>

definition run_ok :: "run_state \<Rightarrow> bool" where
  "run_ok rs \<longleftrightarrow> admission_ok (rs_admission rs) \<and> distinct (rs_tokens rs)
     \<and> (\<forall>e \<in> set (rs_executions rs). ex_permit e = ex_token e)
     \<and> set (rs_tokens rs) \<subseteq> set (la_permits (rs_admission rs))
     \<and> (rs_empty rs \<longleftrightarrow> rs_executions rs = [])"

lemma run_ok_new: "new_run_state c = Inr rs \<Longrightarrow> run_ok rs"
  by (auto simp: new_run_state_def bindR_eq_Inr_iff run_ok_def rs_tokens_def admission_ok_new)

lemma run_ok_shutdown [simp]: "run_ok (request_shutdown rs) \<longleftrightarrow> run_ok rs"
  by (simp add: run_ok_def request_shutdown_def rs_tokens_def)

lemma rg_register_ok:
  assumes "run_ok rs" "p \<in> set (la_permits (rs_admission rs))" "p \<notin> set (rs_tokens rs)"
  shows "\<exists>rs'. rg_register j p l rs = Inr rs' \<and> run_ok rs' \<and> rs_tokens rs' = rs_tokens rs @ [p]
    \<and> rs_admission rs' = rs_admission rs \<and> rs_shutdown rs' = rs_shutdown rs"
  using assms by (auto simp: rg_register_def run_ok_def rs_tokens_def)

lemma rg_complete_held:
  assumes rs: "run_ok rs" and t: "t \<in> set (rs_tokens rs)"
  shows "\<exists>rs'. rg_complete t rs = Inr (True, rs') \<and> run_ok rs' \<and> rs_tokens rs' = filter (\<lambda>x. x \<noteq> t) (rs_tokens rs)
    \<and> la_permits (rs_admission rs') = remove1 t (la_permits (rs_admission rs))
    \<and> la_capacity (rs_admission rs') = la_capacity (rs_admission rs) \<and> rs_shutdown rs' = rs_shutdown rs"
proof -
  obtain e where e: "find (\<lambda>e. ex_token e = t) (rs_executions rs) = Some e"
    using t by (cases "find (\<lambda>e. ex_token e = t) (rs_executions rs)") (auto simp: rs_tokens_def find_None_iff)
  then have "ex_token e = t" "e \<in> set (rs_executions rs)" by (auto simp: find_Some_iff)
  then have p: "ex_permit e = t" "t \<in> set (la_permits (rs_admission rs))"
    using rs t by (auto simp: run_ok_def)
  obtain a where a: "la_release t (rs_admission rs) = Inr (True, a)" "admission_ok a"
      "la_permits a = remove1 t (la_permits (rs_admission rs))" "la_capacity a = la_capacity (rs_admission rs)"
    using lease_pool.rel_held[OF _ p(2)] rs by (auto simp: run_ok_def)
  have tokens: "rs_tokens (rs\<lparr>rs_executions := filter (\<lambda>x. ex_token x \<noteq> t) (rs_executions rs)\<rparr>)
      = filter (\<lambda>x. x \<noteq> t) (rs_tokens rs)"
    by (simp add: rs_tokens_def filter_map comp_def)
  have "set (filter (\<lambda>x. x \<noteq> t) (rs_tokens rs)) \<subseteq> set (la_permits a)"
    using rs a(3) by (auto simp: run_ok_def admission_ok_def)
  then show ?thesis using rs e p a tokens
    by (auto simp: rg_complete_def Let_def run_ok_def rs_tokens_def)
qed

lemma rg_complete_absent: "t \<notin> set (rs_tokens rs) \<Longrightarrow> rg_complete t rs = Inr (False, rs)"
  using find_None_iff[of "\<lambda>e. ex_token e = t" "rs_executions rs"]
  by (auto simp: rg_complete_def rs_tokens_def split: option.splits)

lemma rg_extend_keeps [simp]:
  "rs_tokens (rg_extend_leases ms ids now rs) = rs_tokens rs"
  "rs_admission (rg_extend_leases ms ids now rs) = rs_admission rs"
  "rs_shutdown (rg_extend_leases ms ids now rs) = rs_shutdown rs"
  "rg_active_job_ids (rg_extend_leases ms ids now rs) = rg_active_job_ids rs"
  by (simp_all add: rg_extend_leases_def rs_tokens_def rg_active_job_ids_def comp_def if_distrib cong: if_cong)

lemma run_ok_extend: "run_ok rs \<Longrightarrow> run_ok (rg_extend_leases ms ids now rs)"
  unfolding run_ok_def rg_extend_keeps by (auto simp: rg_extend_leases_def)

end
