(* ===== verification/Regex.thy ===== *)
theory Regex
  imports Pyval
begin

section \<open>Regular expressions\<close>

text \<open>
  The name and duration patterns of the SDK are regular expressions.  \<open>lang r\<close> is the set of
  strings \<open>re.fullmatch\<close> accepts; \<open>fullmatch\<close> decides it by derivatives, and
  \<open>fullmatch_lang\<close> states that the two agree.  A character class is a predicate.
\<close>

datatype rexp =
    Empty
  | Eps
  | Cls "char \<Rightarrow> bool"
  | Alt rexp rexp
  | Seq rexp rexp
  | Rep rexp

definition conc :: "string set \<Rightarrow> string set \<Rightarrow> string set" where
  "conc A B = {u @ v | u v. u \<in> A \<and> v \<in> B}"

inductive_set kstar :: "string set \<Rightarrow> string set" for A :: "string set" where
  kstar_Nil: "[] \<in> kstar A"
| kstar_app: "u \<in> A \<Longrightarrow> v \<in> kstar A \<Longrightarrow> u @ v \<in> kstar A"

fun lang :: "rexp \<Rightarrow> string set" where
  "lang Empty = {}"
| "lang Eps = {[]}"
| "lang (Cls p) = {[c] | c. p c}"
| "lang (Alt r s) = lang r \<union> lang s"
| "lang (Seq r s) = conc (lang r) (lang s)"
| "lang (Rep r) = kstar (lang r)"

fun nullable :: "rexp \<Rightarrow> bool" where
  "nullable Empty = False"
| "nullable Eps = True"
| "nullable (Cls p) = False"
| "nullable (Alt r s) = (nullable r \<or> nullable s)"
| "nullable (Seq r s) = (nullable r \<and> nullable s)"
| "nullable (Rep r) = True"

fun deriv :: "char \<Rightarrow> rexp \<Rightarrow> rexp" where
  "deriv c Empty = Empty"
| "deriv c Eps = Empty"
| "deriv c (Cls p) = (if p c then Eps else Empty)"
| "deriv c (Alt r s) = Alt (deriv c r) (deriv c s)"
| "deriv c (Seq r s) = (if nullable r then Alt (Seq (deriv c r) s) (deriv c s) else Seq (deriv c r) s)"
| "deriv c (Rep r) = Seq (deriv c r) (Rep r)"

fun fullmatch :: "rexp \<Rightarrow> string \<Rightarrow> bool" where
  "fullmatch r [] = nullable r"
| "fullmatch r (c # s) = fullmatch (deriv c r) s"

text \<open>One or more, and at most one, as in \<open>r+\<close> and \<open>r?\<close>.\<close>

definition Plus1 :: "rexp \<Rightarrow> rexp" where
  "Plus1 r = Seq r (Rep r)"

definition Opt :: "rexp \<Rightarrow> rexp" where
  "Opt r = Alt r Eps"

definition Chr :: "char \<Rightarrow> rexp" where
  "Chr c = Cls (\<lambda>d. d = c)"

lemma concI [intro]: "u \<in> A \<Longrightarrow> v \<in> B \<Longrightarrow> u @ v \<in> conc A B"
  by (auto simp: conc_def)

lemma concE [elim]: "w \<in> conc A B \<Longrightarrow> (\<And>u v. w = u @ v \<Longrightarrow> u \<in> A \<Longrightarrow> v \<in> B \<Longrightarrow> thesis) \<Longrightarrow> thesis"
  by (auto simp: conc_def)

lemma nullable_lang: "nullable r \<longleftrightarrow> [] \<in> lang r"
  by (induction r) (auto simp: conc_def intro: kstar_Nil)

lemma kstar_Cons:
  assumes "c # w \<in> kstar A"
  shows "\<exists>u v. c # u \<in> A \<and> v \<in> kstar A \<and> w = u @ v"
proof -
  have "x = c # w \<Longrightarrow> \<exists>u v. c # u \<in> A \<and> v \<in> kstar A \<and> w = u @ v" if "x \<in> kstar A" for x
    using that
  proof (induction rule: kstar.induct)
    case kstar_Nil
    then show ?case by simp
  next
    case (kstar_app u v)
    then show ?case by (cases u) auto
  qed
  with assms show ?thesis by blast
qed

lemma conc_Cons:
  "c # w \<in> conc A B \<longleftrightarrow> ([] \<in> A \<and> c # w \<in> B) \<or> (\<exists>u v. c # u \<in> A \<and> v \<in> B \<and> w = u @ v)"
proof
  assume "c # w \<in> conc A B"
  then obtain u v where "c # w = u @ v" "u \<in> A" "v \<in> B" by blast
  then show "([] \<in> A \<and> c # w \<in> B) \<or> (\<exists>u v. c # u \<in> A \<and> v \<in> B \<and> w = u @ v)"
    by (cases u) auto
next
  assume "([] \<in> A \<and> c # w \<in> B) \<or> (\<exists>u v. c # u \<in> A \<and> v \<in> B \<and> w = u @ v)"
  then show "c # w \<in> conc A B"
    using concI[of "[]" A "c # w" B] concI[of "c # u" A v B for u v] by auto
qed

lemma deriv_lang: "w \<in> lang (deriv c r) \<longleftrightarrow> c # w \<in> lang r"
proof (induction r arbitrary: w)
  case (Seq r s)
  then show ?case
    by (auto simp: conc_Cons nullable_lang) (auto simp: conc_def)
next
  case (Rep r)
  show ?case
  proof
    assume "w \<in> lang (deriv c (Rep r))"
    then obtain u v where w: "w = u @ v" and u: "c # u \<in> lang r" and v: "v \<in> kstar (lang r)"
      using Rep.IH by (auto simp: conc_def)
    from kstar_app[OF u v] show "c # w \<in> lang (Rep r)" by (simp add: w)
  next
    assume "c # w \<in> lang (Rep r)"
    then obtain u v where "c # u \<in> lang r" "v \<in> kstar (lang r)" "w = u @ v"
      using kstar_Cons by fastforce
    then show "w \<in> lang (deriv c (Rep r))" using Rep.IH by auto
  qed
qed auto

lemma fullmatch_lang: "fullmatch r s \<longleftrightarrow> s \<in> lang r"
  by (induction s arbitrary: r) (simp_all add: nullable_lang deriv_lang)

lemma kstar_single: "u \<in> A \<Longrightarrow> u \<in> kstar A"
  using kstar_app[of u A "[]"] by (simp add: kstar_Nil)

lemma kstar_append: "u \<in> kstar A \<Longrightarrow> v \<in> kstar A \<Longrightarrow> u @ v \<in> kstar A"
  by (induction rule: kstar.induct) (auto intro: kstar_app)

lemma lang_Rep_Cls: "s \<in> lang (Rep (Cls p)) \<longleftrightarrow> (\<forall>c \<in> set s. p c)"
proof
  assume "s \<in> lang (Rep (Cls p))"
  then have "s \<in> kstar {[c] | c. p c}" by simp
  then show "\<forall>c \<in> set s. p c" by (induction rule: kstar.induct) auto
next
  show "\<forall>c \<in> set s. p c \<Longrightarrow> s \<in> lang (Rep (Cls p))"
  proof (induction s)
    case Nil
    then show ?case by (simp add: kstar_Nil)
  next
    case (Cons a s)
    then show ?case using kstar_app[of "[a]" "{[c] | c. p c}" s] by simp
  qed
qed

lemma lang_Plus1_Cls: "s \<in> lang (Plus1 (Cls p)) \<longleftrightarrow> s \<noteq> [] \<and> (\<forall>c \<in> set s. p c)"
proof -
  have "s \<in> lang (Plus1 (Cls p)) \<longleftrightarrow> (\<exists>c v. s = c # v \<and> p c \<and> v \<in> lang (Rep (Cls p)))"
    by (cases s) (simp_all add: Plus1_def conc_Cons, auto simp: conc_def)
  then show ?thesis unfolding lang_Rep_Cls by (cases s) auto
qed

lemma lang_Seq_Cls: "w \<in> lang (Seq (Cls p) r) \<longleftrightarrow> (\<exists>c s. w = c # s \<and> p c \<and> s \<in> lang r)"
  using concI[of "[c]" "{[c] | c. p c}" s "lang r" for c s] by (fastforce simp: conc_def)

end
