(* ===== verification/Wire.thy ===== *)
theory Wire
  imports Errors
begin

section \<open>Path-aware decoding of wire objects\<close>

text \<open>
  \<open>src/ojs/wire_validation.py\<close> and \<open>src/ojs/_utils.py\<close>.  A \<open>decoder\<close> is one JSON object with
  the path it was found at; every accessor returns the decoded field or the
  \<open>OJSValidationError\<close> whose message names the path, the type expected and the type found.
  \<open>datetime.fromisoformat\<close> is the parameter \<open>isop\<close>.  The locale \<open>wire_codec\<close> is the contract of
  a dataclass with \<open>to_dict\<close> and \<open>from_dict\<close>.
\<close>

record decoder =
  dec_data :: pydict
  dec_path :: string

definition invalid :: "string \<Rightarrow> string \<Rightarrow> pyval \<Rightarrow> exn" where
  "invalid path expected v = ValidationErr
     (''invalid wire value at '' @ path @ '': expected '' @ expected @ '', got '' @ type_name v)"

definition required_err :: "string \<Rightarrow> exn" where
  "required_err path = ValidationErr (''invalid wire value at '' @ path @ '': field is required'')"

definition wire_object :: "pyval \<Rightarrow> string \<Rightarrow> exn + decoder" where
  "wire_object v path = (case v of
     PDict d \<Rightarrow> if str_keys d then Inr \<lparr>dec_data = d, dec_path = path\<rparr>
       else Inl (ValidationErr (''invalid wire value at '' @ path @ '': object keys must be strings''))
   | _ \<Rightarrow> Inl (invalid path ''object'' v))"

definition field_path :: "decoder \<Rightarrow> string \<Rightarrow> string" where
  "field_path d f = dec_path d @ ''.'' @ f"

definition wire_value :: "decoder \<Rightarrow> string \<Rightarrow> pyval \<Rightarrow> pyval" where
  "wire_value d f dflt = dget_default (dec_data d) f dflt"

definition required_string :: "decoder \<Rightarrow> string \<Rightarrow> exn + string" where
  "required_string d f = (case dget (dec_data d) f of
     None \<Rightarrow> Inl (required_err (field_path d f))
   | Some v \<Rightarrow> (case as_str v of Some s \<Rightarrow> Inr s | None \<Rightarrow> Inl (invalid (field_path d f) ''string'' v)))"

definition wire_string :: "decoder \<Rightarrow> string \<Rightarrow> string option \<Rightarrow> exn + string option" where
  "wire_string d f dflt = (case dget_default (dec_data d) f (opt_str dflt) of
     PNone \<Rightarrow> Inr None
   | PStr s \<Rightarrow> Inr (Some s)
   | v \<Rightarrow> Inl (invalid (field_path d f) ''string'' v))"

definition wire_integer :: "decoder \<Rightarrow> string \<Rightarrow> int option \<Rightarrow> exn + int option" where
  "wire_integer d f dflt =
     (case dget_default (dec_data d) f (case dflt of None \<Rightarrow> PNone | Some i \<Rightarrow> PInt i) of
     PNone \<Rightarrow> Inr None
   | PInt i \<Rightarrow> Inr (Some i)
   | v \<Rightarrow> Inl (invalid (field_path d f) ''integer'' v))"

text \<open>\<open>float(value)\<close> of an integer beyond the float range raises \<open>OverflowError\<close>.\<close>

definition float_of_int :: "int \<Rightarrow> exn + pfloat" where
  "float_of_int i = (if float_limit \<le> \<bar>of_int i\<bar> then Inl OverflowErr else Inr (Fin (of_int i)))"

definition wire_number :: "decoder \<Rightarrow> string \<Rightarrow> pfloat \<Rightarrow> exn + pfloat" where
  "wire_number d f dflt = (case dget_default (dec_data d) f (PFloat dflt) of
     PFloat x \<Rightarrow> Inr x
   | PInt i \<Rightarrow> float_of_int i
   | v \<Rightarrow> Inl (invalid (field_path d f) ''number'' v))"

definition wire_array :: "decoder \<Rightarrow> string \<Rightarrow> pyval list \<Rightarrow> exn + pyval list" where
  "wire_array d f dflt = (case dget_default (dec_data d) f (PList dflt) of
     PList xs \<Rightarrow> Inr xs
   | v \<Rightarrow> Inl (invalid (field_path d f) ''array'' v))"

definition indexed_path :: "string \<Rightarrow> nat \<Rightarrow> string" where
  "indexed_path p i = p @ ''['' @ string_of_nat i @ '']''"

definition string_array :: "decoder \<Rightarrow> string \<Rightarrow> string list \<Rightarrow> exn + string list" where
  "string_array d f dflt = bindR (wire_array d f (map PStr dflt)) (\<lambda>vs.
     mapR (\<lambda>(i, v). case as_str v of Some s \<Rightarrow> Inr s
            | None \<Rightarrow> Inl (invalid (indexed_path (field_path d f) i) ''string'' v)) (enumerated vs))"

definition wire_mapping :: "decoder \<Rightarrow> string \<Rightarrow> pydict \<Rightarrow> exn + pydict" where
  "wire_mapping d f dflt =
     bindR (wire_object (dget_default (dec_data d) f (PDict dflt)) (field_path d f)) (\<lambda>e. Inr (dec_data e))"

definition optional_mapping :: "decoder \<Rightarrow> string \<Rightarrow> exn + pydict option" where
  "optional_mapping d f = (case dget_default (dec_data d) f PNone of
     PNone \<Rightarrow> Inr None
   | v \<Rightarrow> bindR (wire_object v (field_path d f)) (\<lambda>e. Inr (Some (dec_data e))))"

definition wire_child :: "decoder \<Rightarrow> string \<Rightarrow> exn + decoder" where
  "wire_child d f = wire_object (dget_default (dec_data d) f PNone) (field_path d f)"

text \<open>\<open>_utils.parse_datetime\<close>: a final \<open>Z\<close> is read as \<open>+00:00\<close>.\<close>

definition normalize_iso :: "string \<Rightarrow> string" where
  "normalize_iso s = (if s \<noteq> [] \<and> last s = CHR ''Z'' then butlast s @ ''+00:00'' else s)"

definition parse_datetime ::
  "(string \<Rightarrow> pydatetime option) \<Rightarrow> string \<Rightarrow> string \<Rightarrow> exn + pydatetime" where
  "parse_datetime isop s path = (case isop (normalize_iso s) of Some t \<Rightarrow> Inr t
     | None \<Rightarrow> Inl (ValidationErr (''invalid wire value at '' @ path @ '': malformed ISO 8601 timestamp '' @ repr_str s)))"

definition wire_datetime ::
  "(string \<Rightarrow> pydatetime option) \<Rightarrow> decoder \<Rightarrow> string \<Rightarrow> bool \<Rightarrow> exn + pydatetime option" where
  "wire_datetime isop d f req = (case dget (dec_data d) f of
     None \<Rightarrow> if req then Inl (required_err (field_path d f)) else Inr None
   | Some PNone \<Rightarrow> if req then Inl (invalid (field_path d f) ''ISO 8601 timestamp'' PNone) else Inr None
   | Some (PDatetime t) \<Rightarrow> Inr (Some t)
   | Some (PStr s) \<Rightarrow> bindR (parse_datetime isop s (field_path d f)) (\<lambda>t. Inr (Some t))
   | Some v \<Rightarrow> Inl (invalid (field_path d f) ''ISO 8601 timestamp'' v))"

subsection \<open>What the accessors accept\<close>

lemmas wire_defs = required_string_def wire_string_def wire_integer_def wire_number_def
  wire_array_def string_array_def wire_mapping_def optional_mapping_def wire_object_def

lemma required_string_Inr: "required_string d f = Inr s \<longleftrightarrow> dget (dec_data d) f = Some (PStr s)"
  by (auto simp: required_string_def split: option.splits)

lemma wire_object_Inr:
  "wire_object v p = Inr d \<longleftrightarrow> (\<exists>xs. v = PDict xs \<and> str_keys xs \<and> d = \<lparr>dec_data = xs, dec_path = p\<rparr>)"
  by (cases v) (auto simp: wire_object_def)

lemma wire_array_Inr:
  "wire_array d f dflt = Inr xs \<longleftrightarrow> dget_default (dec_data d) f (PList dflt) = PList xs"
  by (auto simp: wire_array_def split: pyval.splits)

lemma as_str_or_Inl_Inr [simp]:
  "(case as_str v of Some s \<Rightarrow> Inr s | None \<Rightarrow> Inl e) = Inr t \<longleftrightarrow> v = PStr t"
  by (cases v) auto

lemma string_array_Inr:
  "string_array d f dflt = Inr ss \<longleftrightarrow> dget_default (dec_data d) f (PList (map PStr dflt)) = pstrs ss"
proof -
  have "mapR (\<lambda>(i, v). case as_str v of Some s \<Rightarrow> Inr s
            | None \<Rightarrow> Inl (invalid (indexed_path (field_path d f) i) ''string'' v)) (enumerated vs) = Inr ss
        \<longleftrightarrow> vs = map PStr ss" for vs
    by (auto simp: mapR_Inr_iff list_all2_conv_all_nth list_eq_iff_nth_eq[of vs])
  then show ?thesis
    by (auto simp: string_array_def bindR_eq_Inr_iff wire_array_Inr pstrs_def)
qed

subsection \<open>How the accessors fail\<close>

text \<open>
  A decoder is \<open>validated\<close> when the only exception it can raise is \<open>OJSValidationError\<close>.  The rules
  below follow the structure of a decoder, so a whole \<open>from_dict\<close> is covered by applying them.
\<close>

named_theorems validated_intros \<open>rules for decoders that only raise OJSValidationError\<close>

definition validated :: "exn + 'a \<Rightarrow> bool" where
  "validated r \<longleftrightarrow> (case r of Inl (ValidationErr _) \<Rightarrow> True | Inl _ \<Rightarrow> False | Inr _ \<Rightarrow> True)"

lemma validated_iff: "validated r \<longleftrightarrow> (\<forall>e. r = Inl e \<longrightarrow> (\<exists>m. e = ValidationErr m))"
  by (auto simp: validated_def split: sum.splits exn.splits)

lemma validated_Inr [simp, validated_intros]: "validated (Inr x)"
  by (simp add: validated_def)

lemma validated_Inl [simp]: "validated (Inl e) \<longleftrightarrow> (\<exists>m. e = ValidationErr m)"
  by (auto simp: validated_iff)

lemma invalid_validation [simp]:
  "\<exists>m. invalid p t v = ValidationErr m" "\<exists>m. required_err p = ValidationErr m"
  by (simp_all add: invalid_def required_err_def)

lemma validated_invalid [validated_intros]:
  "validated (Inl (invalid p t v))" "validated (Inl (required_err p))"
  by simp_all

lemma validated_bindR [validated_intros]:
  "validated m \<Longrightarrow> (\<And>x. m = Inr x \<Longrightarrow> validated (f x)) \<Longrightarrow> validated (bindR m f)"
  by (cases m) auto

lemma validated_mapR [validated_intros]:
  "(\<And>x. x \<in> set xs \<Longrightarrow> validated (f x)) \<Longrightarrow> validated (mapR f xs)"
  by (induction xs) (auto intro!: validated_intros)

lemma validated_object [validated_intros]: "validated (wire_object v p)"
  by (simp add: wire_object_def split: pyval.splits)

lemma validated_required_string [validated_intros]: "validated (required_string d f)"
  by (simp add: required_string_def split: option.splits)

lemma validated_string [validated_intros]: "validated (wire_string d f x)"
  by (simp add: wire_string_def split: pyval.splits)

lemma validated_integer [validated_intros]: "validated (wire_integer d f i)"
  by (simp add: wire_integer_def split: pyval.splits)

lemma validated_array [validated_intros]: "validated (wire_array d f xs)"
  by (simp add: wire_array_def split: pyval.splits)

lemma validated_string_array [validated_intros]: "validated (string_array d f xs)"
  unfolding string_array_def
  by (intro validated_intros) (auto split: option.splits prod.splits)

lemma validated_mapping [validated_intros]: "validated (wire_mapping d f m)"
  unfolding wire_mapping_def by (intro validated_intros)

lemma validated_optional_mapping [validated_intros]: "validated (optional_mapping d f)"
  by (auto simp: optional_mapping_def intro!: validated_intros split: pyval.splits)

lemma validated_child [validated_intros]: "validated (wire_child d f)"
  unfolding wire_child_def by (intro validated_intros)

lemma validated_parse_datetime [validated_intros]: "validated (parse_datetime isop s p)"
  by (simp add: parse_datetime_def split: option.splits)

lemma validated_datetime [validated_intros]: "validated (wire_datetime isop d f r)"
  by (auto simp: wire_datetime_def intro!: validated_intros split: option.splits pyval.splits)

subsection \<open>The codec contract\<close>

text \<open>
  A dataclass with \<open>to_dict\<close> (\<open>enc\<close>) and \<open>from_dict\<close> (\<open>decd\<close>) that gives back what was encoded, for
  the values in \<open>ok\<close>.
\<close>

locale wire_codec =
  fixes enc :: "'a \<Rightarrow> pyval"
    and decd :: "pyval \<Rightarrow> exn + 'a"
    and ok :: "'a \<Rightarrow> bool"
  assumes decd_enc: "ok a \<Longrightarrow> decd (enc a) = Inr a"
begin

lemma enc_inj: "ok a \<Longrightarrow> ok b \<Longrightarrow> enc a = enc b \<Longrightarrow> a = b"
  by (metis decd_enc sum.inject(2))

lemma decd_list: "list_all ok xs \<Longrightarrow> mapR decd (map enc xs) = Inr xs"
  by (induction xs) (simp_all add: decd_enc)

end

end
