(* ===== verification/Retry.thy ===== *)
theory Retry
  imports Regex Wire
begin

section \<open>Durations and the server-side retry policy\<close>

text \<open>
  \<open>src/ojs/retry.py\<close>.  \<open>parse_iso8601_duration\<close> follows the pattern group by group;
  \<open>parse_iso8601_accepts\<close> says it accepts what \<open>re.match\<close> accepts.  A float is an exact rational
  here: rounding is not modelled, and of the float range only what raises is (a power beyond it), and a duration of more than 308
  digits is outside the model.
  A \<open>RetryPolicy\<close> keeps the untyped values \<open>from_dict\<close> puts into it.
\<close>

subsection \<open>Parsing\<close>

definition opt_unit :: "char \<Rightarrow> string \<Rightarrow> string option \<times> string" where
  "opt_unit u s = (let ds = takeWhile is_digit s; r = dropWhile is_digit s in
     if ds \<noteq> [] \<and> r \<noteq> [] \<and> hd r = u then (Some ds, tl r) else (None, s))"

text \<open>\<open>(\d+(?:\.\d+)?)S\<close>: the whole and the fractional digits.\<close>

definition opt_seconds :: "string \<Rightarrow> (string \<times> string) option \<times> string" where
  "opt_seconds s = (let ds = takeWhile is_digit s; r = dropWhile is_digit s in
     if ds = [] \<or> r = [] then (None, s)
     else if hd r = CHR ''S'' then (Some (ds, []), tl r)
     else if hd r = CHR ''.'' then
       (case opt_unit CHR ''S'' (tl r) of (Some fs, t) \<Rightarrow> (Some (ds, fs), t) | (None, _) \<Rightarrow> (None, s))
     else (None, s))"

definition digits_or_0 :: "string option \<Rightarrow> nat" where
  "digits_or_0 x = (case x of None \<Rightarrow> 0 | Some ds \<Rightarrow> nat_of_digits ds)"

definition decimal_value :: "(string \<times> string) option \<Rightarrow> rat" where
  "decimal_value x = (case x of None \<Rightarrow> 0
     | Some (ds, fs) \<Rightarrow> of_nat (nat_of_digits ds) + of_nat (nat_of_digits fs) / 10 ^ length fs)"

text \<open>The four groups of a match, and what follows the last one.\<close>

definition iso_groups ::
  "string \<Rightarrow> ((string option \<times> string option \<times> string option \<times> (string \<times> string) option) \<times> string) option" where
  "iso_groups s = (case s of [] \<Rightarrow> None
     | c # s1 \<Rightarrow> if c \<noteq> CHR ''P'' then None else
         (case opt_unit CHR ''D'' s1 of (d, s2) \<Rightarrow>
            if s2 \<noteq> [] \<and> hd s2 = CHR ''T'' then
              (case opt_unit CHR ''H'' (tl s2) of (h, s3) \<Rightarrow>
               case opt_unit CHR ''M'' s3 of (m, s4) \<Rightarrow>
               case opt_seconds s4 of (x, s5) \<Rightarrow> Some ((d, h, m, x), s5))
            else Some ((d, None, None, None), s2)))"

definition duration_value ::
  "string option \<times> string option \<times> string option \<times> (string \<times> string) option \<Rightarrow> rat" where
  "duration_value g = (case g of (d, h, m, x) \<Rightarrow>
     of_nat (digits_or_0 d) * 86400 + of_nat (digits_or_0 h) * 3600 + of_nat (digits_or_0 m) * 60
       + decimal_value x)"

text \<open>\<open>pattern.match\<close> with a final \<open>$\<close>: the end of the text, or a newline that ends it.\<close>

definition parse_iso8601_duration :: "string \<Rightarrow> exn + rat" where
  "parse_iso8601_duration s = (case iso_groups s of
     Some (g, rest) \<Rightarrow> if rest = [] \<or> rest = [CHR 0x0A] then Inr (duration_value g)
        else Inl (ValueErr (''Invalid ISO 8601 duration: '' @ repr_str s))
   | None \<Rightarrow> Inl (ValueErr (''Invalid ISO 8601 duration: '' @ repr_str s)))"

definition Digits :: rexp where
  "Digits = Plus1 (Cls is_digit)"

definition Unit :: "char \<Rightarrow> rexp" where
  "Unit u = Opt (Seq Digits (Chr u))"

definition Seconds :: rexp where
  "Seconds = Opt (Seq Digits (Seq (Opt (Seq (Chr CHR ''.'') Digits)) (Chr CHR ''S'')))"

definition ISO_DURATION :: rexp where
  "ISO_DURATION = Seq (Chr CHR ''P'') (Seq (Unit CHR ''D'')
     (Opt (Seq (Chr CHR ''T'') (Seq (Unit CHR ''H'') (Seq (Unit CHR ''M'') Seconds)))))"

subsection \<open>Printing\<close>

text \<open>\<open>format(x, '.3f')\<close> of a non-negative number: the nearest thousandth, ties to even.\<close>

definition round_half_even :: "rat \<Rightarrow> int" where
  "round_half_even x = (let f = \<lfloor>x\<rfloor>; r = x - of_int f in
     if r < 1 / 2 then f else if 1 / 2 < r then f + 1 else if even f then f else f + 1)"

definition pad3 :: "nat \<Rightarrow> string" where
  "pad3 n = [digit_char (n div 100 mod 10), digit_char (n div 10 mod 10), digit_char (n mod 10)]"

definition fixed3 :: "rat \<Rightarrow> string" where
  "fixed3 x = (let n = nat (round_half_even (x * 1000)) in
     string_of_nat (n div 1000) @ ''.'' @ pad3 (n mod 1000))"

text \<open>
  The argument is a float, here the rational it denotes.  Below 2 to the 53rd a double's remainders
  after whole hours and minutes are doubles again, so the text is the one the source prints; above
  that the source rounds its remainders and the definition does not describe it.
\<close>

definition seconds_to_iso8601 :: "rat \<Rightarrow> string" where
  "seconds_to_iso8601 seconds =
     (if seconds \<le> 0 then ''PT0S''
      else let hours = nat \<lfloor>seconds / 3600\<rfloor>;
               rem1 = seconds - of_nat hours * 3600;
               minutes = nat \<lfloor>rem1 / 60\<rfloor>;
               rem2 = rem1 - of_nat minutes * 60;
               p_h = (if hours \<noteq> 0 then string_of_nat hours @ ''H'' else []);
               p_m = (if minutes \<noteq> 0 then string_of_nat minutes @ ''M'' else []);
               p_s = (if 0 < rem2 \<or> (hours = 0 \<and> minutes = 0)
                      then (if rem2 = of_int \<lfloor>rem2\<rfloor> then string_of_nat (nat \<lfloor>rem2\<rfloor>) @ ''S''
                            else fixed3 rem2 @ ''S'')
                      else [])
           in ''PT'' @ p_h @ p_m @ p_s)"

subsection \<open>The policy\<close>

record retry_policy =
  rp_max_attempts :: pyval
  rp_initial_interval :: pyval
  rp_backoff_coefficient :: pyval
  rp_max_interval :: pyval
  rp_jitter :: pyval
  rp_non_retryable_errors :: pyval

definition default_retry_policy :: retry_policy where
  "default_retry_policy = \<lparr>rp_max_attempts = PInt 3, rp_initial_interval = PStr ''PT1S'',
     rp_backoff_coefficient = PFloat (Fin 2), rp_max_interval = PStr ''PT5M'',
     rp_jitter = PBool True, rp_non_retryable_errors = PList []\<rparr>"

definition duration_arg :: "pyval \<Rightarrow> exn + rat" where
  "duration_arg v = (case v of PStr s \<Rightarrow> parse_iso8601_duration s
     | _ \<Rightarrow> Inl (TypeErr ''expected string or bytes-like object''))"

text \<open>
  \<open>base ** n\<close> for a number and an integer: a zero base with a negative exponent raises, and so
  does a result the float range does not hold.
\<close>

definition py_pow :: "rat \<Rightarrow> int \<Rightarrow> exn + rat" where
  "py_pow b n = (if n < 0 then
       (if b = 0 then Inl ZeroDivErr
        else let r = 1 / b ^ nat (- n) in if float_limit \<le> \<bar>r\<bar> then Inl OverflowErr else Inr r)
     else let r = b ^ nat n in if float_limit \<le> \<bar>r\<bar> then Inl OverflowErr else Inr r)"

definition coefficient_arg :: "pyval \<Rightarrow> exn + rat" where
  "coefficient_arg v = (case v of PInt i \<Rightarrow> Inr (of_int i) | PBool b \<Rightarrow> Inr (if b then 1 else 0)
     | PFloat (Fin r) \<Rightarrow> Inr r | _ \<Rightarrow> Inl (TypeErr ''unsupported operand type(s)''))"

text \<open>\<open>u\<close> is what \<open>random.uniform(0.5, 1.5)\<close> returns.\<close>

definition delay_for_attempt :: "retry_policy \<Rightarrow> int \<Rightarrow> rat \<Rightarrow> exn + rat" where
  "delay_for_attempt p attempt u =
     bindR (duration_arg (rp_initial_interval p)) (\<lambda>initial.
     bindR (duration_arg (rp_max_interval p)) (\<lambda>max_delay.
     bindR (coefficient_arg (rp_backoff_coefficient p)) (\<lambda>coef.
     bindR (py_pow coef (attempt - 1)) (\<lambda>factor.
       let delay = min (initial * factor) max_delay in
       if truthy (rp_jitter p) then Inr (min (delay * u) max_delay) else Inr delay))))"

definition retry_to_dict :: "retry_policy \<Rightarrow> pyval" where
  "retry_to_dict p = PDict ([(PStr ''max_attempts'', rp_max_attempts p),
      (PStr ''initial_interval'', rp_initial_interval p),
      (PStr ''backoff_coefficient'', rp_backoff_coefficient p),
      (PStr ''max_interval'', rp_max_interval p),
      (PStr ''jitter'', rp_jitter p)]
    @ opt_entry (truthy (rp_non_retryable_errors p)) ''non_retryable_errors'' (rp_non_retryable_errors p))"

definition retry_from_dict :: "pydict \<Rightarrow> retry_policy" where
  "retry_from_dict d = \<lparr>rp_max_attempts = dget_default d ''max_attempts'' (PInt 3),
     rp_initial_interval = dget_default d ''initial_interval'' (PStr ''PT1S''),
     rp_backoff_coefficient = dget_default d ''backoff_coefficient'' (PFloat (Fin 2)),
     rp_max_interval = dget_default d ''max_interval'' (PStr ''PT5M''),
     rp_jitter = dget_default d ''jitter'' (PBool True),
     rp_non_retryable_errors = dget_default d ''non_retryable_errors'' (PList [])\<rparr>"

definition retry_decode :: "pyval \<Rightarrow> exn + retry_policy" where
  "retry_decode v = (case v of PDict d \<Rightarrow> Inr (retry_from_dict d)
     | _ \<Rightarrow> Inl (UserErr ''AttributeError'' ''get''))"

definition retry_wf :: "retry_policy \<Rightarrow> bool" where
  "retry_wf p \<longleftrightarrow> (\<exists>xs. rp_non_retryable_errors p = PList xs)"

subsection \<open>The pattern\<close>

lemma lang_Chr [simp]: "w \<in> lang (Chr c) \<longleftrightarrow> w = [c]"
  by (auto simp: Chr_def)

lemma lang_Opt [simp]: "w \<in> lang (Opt r) \<longleftrightarrow> w = [] \<or> w \<in> lang r"
  by (auto simp: Opt_def)

lemma lang_Digits [simp]: "w \<in> lang Digits \<longleftrightarrow> w \<noteq> [] \<and> (\<forall>c \<in> set w. is_digit c)"
  unfolding Digits_def by (rule lang_Plus1_Cls)

lemma not_digit_letters [simp]:
  "\<not> is_digit CHR ''D''" "\<not> is_digit CHR ''H''" "\<not> is_digit CHR ''M''" "\<not> is_digit CHR ''S''"
  "\<not> is_digit CHR ''T''" "\<not> is_digit CHR ''.''" "\<not> is_digit CHR 0x0A"
  by (simp_all add: is_digit_def)

lemma digits_split:
  assumes "\<forall>c \<in> set ds. is_digit c" "r = [] \<or> \<not> is_digit (hd r)"
  shows "takeWhile is_digit (ds @ r) = ds" "dropWhile is_digit (ds @ r) = r"
proof -
  have "takeWhile is_digit r = []" "dropWhile is_digit r = r"
    using assms(2) by (cases r; simp)+
  then show "takeWhile is_digit (ds @ r) = ds" "dropWhile is_digit (ds @ r) = r"
    using assms(1) by (simp_all add: takeWhile_append2 dropWhile_append2)
qed

lemma opt_unit_hit:
  "ds \<noteq> [] \<Longrightarrow> \<forall>c \<in> set ds. is_digit c \<Longrightarrow> \<not> is_digit u \<Longrightarrow> opt_unit u (ds @ u # r) = (Some ds, r)"
  by (simp add: opt_unit_def digits_split Let_def)

lemma opt_unit_miss:
  "\<forall>c \<in> set ds. is_digit c \<Longrightarrow> r = [] \<or> (\<not> is_digit (hd r) \<and> hd r \<noteq> u)
     \<Longrightarrow> opt_unit u (ds @ r) = (None, ds @ r)"
  using digits_split[of ds r] by (auto simp only: opt_unit_def Let_def if_False simp_thms)

lemma opt_unit_cases:
  obtains (hit) ds where "opt_unit u s = (Some ds, tl (dropWhile is_digit s))" "s = ds @ u # tl (dropWhile is_digit s)"
      "ds \<noteq> []" "\<forall>c \<in> set ds. is_digit c"
  | (miss) "opt_unit u s = (None, s)"
proof (cases "takeWhile is_digit s \<noteq> [] \<and> dropWhile is_digit s \<noteq> [] \<and> hd (dropWhile is_digit s) = u")
  case True
  then have "s = takeWhile is_digit s @ u # tl (dropWhile is_digit s)"
    by (metis list.collapse takeWhile_dropWhile_id)
  with True hit show ?thesis by (auto simp: opt_unit_def Let_def dest: set_takeWhileD)
next
  case False
  with miss show ?thesis by (auto simp: opt_unit_def Let_def)
qed

text \<open>
  An optional unit is read greedily; that loses no match when no word of what follows starts with
  the same unit.
\<close>

lemma opt_unit_lang:
  assumes u: "\<not> is_digit u" and K: "\<And>w. w \<in> lang K \<Longrightarrow> fst (opt_unit u w) = None"
  shows "s \<in> lang (Seq (Unit u) K) \<longleftrightarrow> snd (opt_unit u s) \<in> lang K"
proof
  assume "s \<in> lang (Seq (Unit u) K)"
  then obtain v w where s: "s = v @ w" and v: "v \<in> lang (Unit u)" and w: "w \<in> lang K" by auto
  show "snd (opt_unit u s) \<in> lang K"
  proof (cases "v = []")
    case True
    then have "opt_unit u s = (None, s)" using K[OF w] s
      by (cases rule: opt_unit_cases[of u w]) auto
    then show ?thesis using s w True by simp
  next
    case False
    then obtain ds where "v = ds @ [u]" "ds \<noteq> []" "\<forall>c \<in> set ds. is_digit c"
      using v by (auto simp: Unit_def)
    then show ?thesis using opt_unit_hit[of ds u w] u s w by simp
  qed
next
  assume a: "snd (opt_unit u s) \<in> lang K"
  show "s \<in> lang (Seq (Unit u) K)"
  proof (cases rule: opt_unit_cases[of u s])
    case (hit ds)
    then have "ds @ [u] \<in> lang (Unit u)" by (auto simp: Unit_def)
    then have "(ds @ [u]) @ tl (dropWhile is_digit s) \<in> lang (Seq (Unit u) K)"
      using a hit(1) by (auto simp del: append_assoc)
    then show ?thesis using hit(2) by simp
  next
    case miss
    then have "[] @ s \<in> conc (lang (Unit u)) (lang K)" using a by (intro concI) (auto simp: Unit_def)
    then show ?thesis by simp
  qed
qed

lemma seconds_words:
  "w \<in> lang Seconds \<longleftrightarrow> w = [] \<or>
     (\<exists>ds fs. ds \<noteq> [] \<and> (\<forall>c \<in> set ds. is_digit c) \<and> (\<forall>c \<in> set fs. is_digit c) \<and>
        (w = ds @ ''S'' \<or> (fs \<noteq> [] \<and> w = ds @ CHR ''.'' # fs @ ''S'')))"
  by (auto simp: Seconds_def conc_def) fastforce+

lemma opt_seconds_lang: "w \<in> lang Seconds \<longleftrightarrow> snd (opt_seconds w) = []"
proof
  assume "w \<in> lang Seconds"
  then show "snd (opt_seconds w) = []"
    unfolding seconds_words
    by (auto simp: opt_seconds_def digits_split Let_def opt_unit_hit[where r = "[]", simplified])
next
  assume a: "snd (opt_seconds w) = []"
  let ?ds = "takeWhile is_digit w" and ?r = "dropWhile is_digit w"
  have w: "w = ?ds @ ?r" by simp
  have dig: "\<forall>c \<in> set ?ds. is_digit c" by (auto dest: set_takeWhileD)
  show "w \<in> lang Seconds"
  proof (cases "w = [] \<or> ?ds = [] \<or> ?r = []")
    case True
    then show ?thesis using a by (auto simp: opt_seconds_def seconds_words Let_def)
  next
    case False
    then obtain c r where r: "?r = c # r" by (cases ?r) auto
    show ?thesis
    proof (cases "c = CHR ''S''")
      case True
      then have "w = ?ds @ ''S''" using a False r w by (simp add: opt_seconds_def Let_def)
      then show ?thesis using dig False unfolding seconds_words by blast
    next
      case notS: False
      then have "c = CHR ''.''" and u: "snd (opt_unit CHR ''S'' r) = []" "fst (opt_unit CHR ''S'' r) \<noteq> None"
        using a False r by (auto simp: opt_seconds_def Let_def split: if_splits prod.splits option.splits)
      then obtain fs where "r = fs @ ''S''" "fs \<noteq> []" "\<forall>c \<in> set fs. is_digit c"
        by (cases rule: opt_unit_cases[of "CHR ''S''" r]) auto
      then have "w = ?ds @ CHR ''.'' # fs @ ''S''" using \<open>c = CHR ''.''\<close> r w by simp
      then show ?thesis using dig False \<open>fs \<noteq> []\<close> \<open>\<forall>c \<in> set fs. is_digit c\<close> unfolding seconds_words by blast
    qed
  qed
qed


lemma opt_unit_nondigit: "w = [] \<or> \<not> is_digit (hd w) \<Longrightarrow> opt_unit u w = (None, w)"
  by (cases w) (auto simp: opt_unit_def Let_def)

lemma seconds_no_minutes:
  assumes "w \<in> lang Seconds" and "u \<noteq> CHR ''S''" and "u \<noteq> CHR ''.''"
  shows "fst (opt_unit u w) = None"
  using assms opt_unit_nondigit[of "[]"] opt_unit_miss[of _ "''S''" u] opt_unit_miss[of _ "CHR ''.'' # _" u]
  unfolding seconds_words by force

lemma minutes_no_hours:
  assumes "w \<in> lang (Seq (Unit CHR ''M'') Seconds)"
  shows "fst (opt_unit CHR ''H'' w) = None"
proof -
  from assms obtain v x where w: "w = v @ x" "v \<in> lang (Unit CHR ''M'')" and x: "x \<in> lang Seconds" by auto
  show ?thesis
  proof (cases "v = []")
    case True
    then show ?thesis using seconds_no_minutes[OF x, of "CHR ''H''"] w by simp
  next
    case False
    then obtain ds where "v = ds @ ''M''" "\<forall>c \<in> set ds. is_digit c" using w by (auto simp: Unit_def)
    then show ?thesis using opt_unit_miss[of ds "CHR ''M'' # x" "CHR ''H''"] w by simp
  qed
qed

definition Time_part :: rexp where
  "Time_part = Opt (Seq (Chr CHR ''T'') (Seq (Unit CHR ''H'') (Seq (Unit CHR ''M'') Seconds)))"

lemma Time_part_words:
  "w \<in> lang Time_part \<longleftrightarrow> w = [] \<or>
     (w \<noteq> [] \<and> hd w = CHR ''T'' \<and>
      snd (opt_seconds (snd (opt_unit CHR ''M'' (snd (opt_unit CHR ''H'' (tl w)))))) = [])"
proof -
  have "w \<in> lang Time_part \<longleftrightarrow> w = [] \<or>
     (w \<noteq> [] \<and> hd w = CHR ''T'' \<and> tl w \<in> lang (Seq (Unit CHR ''H'') (Seq (Unit CHR ''M'') Seconds)))"
    by (cases w) (simp_all add: Time_part_def conc_Cons conc_def)
  also have "\<dots> \<longleftrightarrow> w = [] \<or>
     (w \<noteq> [] \<and> hd w = CHR ''T'' \<and> snd (opt_unit CHR ''H'' (tl w)) \<in> lang (Seq (Unit CHR ''M'') Seconds))"
    using opt_unit_lang[OF not_digit_letters(2) minutes_no_hours] by blast
  also have "\<dots> \<longleftrightarrow> w = [] \<or>
     (w \<noteq> [] \<and> hd w = CHR ''T'' \<and>
      snd (opt_seconds (snd (opt_unit CHR ''M'' (snd (opt_unit CHR ''H'' (tl w)))))) = [])"
    using opt_unit_lang[OF not_digit_letters(3), of Seconds] seconds_no_minutes[of _ "CHR ''M''"]
      opt_seconds_lang by auto
  finally show ?thesis .
qed

lemma iso_groups_lang: "(\<exists>g. iso_groups s = Some (g, [])) \<longleftrightarrow> s \<in> lang ISO_DURATION"
proof (cases s)
  case Nil
  then show ?thesis by (auto simp: iso_groups_def ISO_DURATION_def conc_def)
next
  case (Cons c r)
  have T: "fst (opt_unit CHR ''D'' w) = None" if "w \<in> lang Time_part" for w
    using that opt_unit_nondigit[of w "CHR ''D''"] unfolding Time_part_words by auto
  have "s \<in> lang ISO_DURATION \<longleftrightarrow> c = CHR ''P'' \<and> r \<in> lang (Seq (Unit CHR ''D'') Time_part)"
    unfolding ISO_DURATION_def Time_part_def[symmetric] Cons by (simp add: conc_Cons conc_def)
  also have "\<dots> \<longleftrightarrow> c = CHR ''P'' \<and> snd (opt_unit CHR ''D'' r) \<in> lang Time_part"
    by (simp add: opt_unit_lang T del: lang.simps)
  also have "\<dots> \<longleftrightarrow> (\<exists>g. iso_groups s = Some (g, []))"
    unfolding Time_part_words Cons by (auto simp: iso_groups_def split: prod.splits)
  finally show ?thesis by simp
qed

text \<open>What is left after the groups is a suffix of the text, and a final newline stays in it.\<close>

lemma opt_unit_suffix: "\<exists>pre. s = pre @ snd (opt_unit u s)"
proof (cases rule: opt_unit_cases[of u s])
  case (hit ds)
  then have "s = (ds @ [u]) @ snd (opt_unit u s)" by simp
  then show ?thesis by blast
qed simp

lemma opt_seconds_rest:
  "snd (opt_seconds s) = s \<or> (dropWhile is_digit s \<noteq> [] \<and>
     (snd (opt_seconds s) = tl (dropWhile is_digit s) \<or>
      snd (opt_seconds s) = snd (opt_unit CHR ''S'' (tl (dropWhile is_digit s)))))"
proof (cases "opt_unit CHR ''S'' (tl (dropWhile is_digit s))")
  case (Pair a b)
  show ?thesis unfolding opt_seconds_def Let_def Pair
    by (cases a) (simp_all del: dropWhile_eq_Nil_conv)
qed

lemma opt_seconds_suffix: "\<exists>pre. s = pre @ snd (opt_seconds s)"
proof -
  let ?r = "dropWhile is_digit s"
  show ?thesis
  proof (cases "snd (opt_seconds s) = s")
    case False
    then have nonempty: "?r \<noteq> []" using opt_seconds_rest by blast
    then have s: "s = (takeWhile is_digit s @ [hd ?r]) @ tl ?r" by simp
    obtain pre where "tl ?r = pre @ snd (opt_unit CHR ''S'' (tl ?r))" using opt_unit_suffix by blast
    then have "\<exists>q. tl ?r = q @ snd (opt_seconds s)"
      using opt_seconds_rest[of s] False by (metis append_Nil)
    then show ?thesis using s by (metis append_assoc)
  qed simp
qed

lemma iso_groups_suffix:
  assumes "iso_groups s = Some (g, rest)"
  shows "\<exists>pre. s = pre @ rest"
proof -
  obtain r where s: "s = CHR ''P'' # r"
    using assms by (auto simp: iso_groups_def split: list.splits if_splits)
  obtain p1 where p1: "r = p1 @ snd (opt_unit CHR ''D'' r)" using opt_unit_suffix by blast
  let ?t = "snd (opt_unit CHR ''D'' r)"
  let ?h = "snd (opt_unit CHR ''H'' (tl ?t))"
  let ?m = "snd (opt_unit CHR ''M'' ?h)"
  consider "rest = ?t" | "?t \<noteq> []" "rest = snd (opt_seconds ?m)"
    using assms s by (auto simp: iso_groups_def split: prod.splits if_splits)
  then show ?thesis
  proof cases
    case 1
    then show ?thesis using s p1 by (metis append_Cons)
  next
    case 2
    obtain p2 where "tl ?t = p2 @ ?h" using opt_unit_suffix by blast
    moreover obtain p3 where "?h = p3 @ ?m" using opt_unit_suffix by blast
    moreover obtain p4 where "?m = p4 @ rest" using opt_seconds_suffix 2(2) by metis
    ultimately have "tl ?t = (p2 @ p3 @ p4) @ rest" by simp
    then have "r = (p1 @ hd ?t # p2 @ p3 @ p4) @ rest"
      using p1 2(1) by (metis append.assoc append_Cons list.collapse)
    then show ?thesis using s by (metis append_Cons)
  qed
qed

lemma takeWhile_snoc_stop: "\<not> P n \<Longrightarrow> takeWhile P (s @ [n]) = takeWhile P s"
  by (induction s) auto

lemma dropWhile_snoc_stop: "\<not> P n \<Longrightarrow> dropWhile P (s @ [n]) = dropWhile P s @ [n]"
  by (induction s) auto

lemma opt_unit_snoc:
  assumes "\<not> is_digit n" "n \<noteq> u"
  shows "opt_unit u (s @ [n]) = (fst (opt_unit u s), snd (opt_unit u s) @ [n])"
  using assms
  by (cases "dropWhile is_digit s")
    (auto simp: opt_unit_def takeWhile_snoc_stop dropWhile_snoc_stop Let_def)

lemma opt_seconds_snoc:
  assumes "\<not> is_digit n" "n \<noteq> CHR ''S''" "n \<noteq> CHR ''.''"
  shows "opt_seconds (s @ [n]) = (fst (opt_seconds s), snd (opt_seconds s) @ [n])"
  using assms
  by (cases "dropWhile is_digit s")
    (auto simp: opt_seconds_def takeWhile_snoc_stop dropWhile_snoc_stop opt_unit_snoc Let_def
       split: prod.splits option.splits)

lemma iso_groups_newline:
  "iso_groups (s @ [CHR 0x0A]) = map_option (\<lambda>(g, r). (g, r @ [CHR 0x0A])) (iso_groups s)"
proof (cases s)
  case Nil
  then show ?thesis by (simp add: iso_groups_def)
next
  case (Cons c r)
  let ?t = "snd (opt_unit CHR ''D'' r)"
  show ?thesis
  proof (cases "?t = []")
    case True
    then show ?thesis using Cons
      by (auto simp: iso_groups_def opt_unit_snoc split: prod.splits)
  next
    case False
    then have "tl (?t @ [CHR 0x0A]) = tl ?t @ [CHR 0x0A]" "hd (?t @ [CHR 0x0A]) = hd ?t" by simp_all
    then show ?thesis using Cons False
      by (auto simp: iso_groups_def opt_unit_snoc opt_seconds_snoc split: prod.splits)
  qed
qed

lemma parse_Inr_iff:
  "(\<exists>x. parse_iso8601_duration s = Inr x) \<longleftrightarrow>
     (\<exists>g rest. iso_groups s = Some (g, rest) \<and> (rest = [] \<or> rest = [CHR 0x0A]))"
  by (auto simp: parse_iso8601_duration_def split: option.splits)

lemma parse_iso8601_lang: "(\<exists>x. parse_iso8601_duration s = Inr x) \<longleftrightarrow>
    s \<in> lang ISO_DURATION \<or> (\<exists>w \<in> lang ISO_DURATION. s = w @ [CHR 0x0A])"
proof
  assume "\<exists>x. parse_iso8601_duration s = Inr x"
  then obtain g rest where g: "iso_groups s = Some (g, rest)" and rest: "rest = [] \<or> rest = [CHR 0x0A]"
    unfolding parse_Inr_iff by blast
  show "s \<in> lang ISO_DURATION \<or> (\<exists>w \<in> lang ISO_DURATION. s = w @ [CHR 0x0A])"
  proof (cases "rest = []")
    case True
    then show ?thesis using g iso_groups_lang by blast
  next
    case False
    then obtain w where s: "s = w @ [CHR 0x0A]" using iso_groups_suffix[OF g] rest by blast
    then have "\<exists>g. iso_groups w = Some (g, [])" using g False rest by (auto simp: iso_groups_newline)
    then show ?thesis using s iso_groups_lang by blast
  qed
next
  assume "s \<in> lang ISO_DURATION \<or> (\<exists>w \<in> lang ISO_DURATION. s = w @ [CHR 0x0A])"
  then show "\<exists>x. parse_iso8601_duration s = Inr x"
  proof
    assume "s \<in> lang ISO_DURATION"
    then show ?thesis unfolding parse_Inr_iff iso_groups_lang[symmetric] by blast
  next
    assume "\<exists>w \<in> lang ISO_DURATION. s = w @ [CHR 0x0A]"
    then obtain w where w: "s = w @ [CHR 0x0A]" "w \<in> lang ISO_DURATION" by (rule bexE)
    from w(2) obtain g where "iso_groups w = Some (g, [])" unfolding iso_groups_lang[symmetric] ..
    with w(1) have "iso_groups s = Some (g, [CHR 0x0A])" by (simp only: iso_groups_newline option.map prod.case append_Nil)
    then show ?thesis unfolding parse_Inr_iff by blast
  qed
qed

subsection \<open>Printing and reading back\<close>

lemma string_of_nat_0: "string_of_nat 0 = ''0''"
  by code_simp

lemma nat_of_digits_pad3: "n < 1000 \<Longrightarrow> nat_of_digits (pad3 n) = n"
proof -
  assume n: "n < 1000"
  have "nat_of_digits (pad3 n) = (n div 100 mod 10) * 100 + (n div 10 mod 10) * 10 + n mod 10"
    by (simp add: pad3_def nat_of_digits_def del: digit_char.simps)
  also have "n div 100 = n div 10 div 10" by (simp flip: div_mult2_eq)
  also have "n div 10 div 10 mod 10 = n div 10 div 10" using n by (simp flip: div_mult2_eq add: less_mult_imp_div_less)
  also have "n div 10 div 10 * 100 + n div 10 mod 10 * 10 = 10 * (n div 10)"
    using div_mult_mod_eq[of "n div 10" 10] by linarith
  finally show ?thesis by simp
qed

lemma pad3_digits: "\<forall>c \<in> set (pad3 n). is_digit c"
  by (simp add: pad3_def del: digit_char.simps)

lemma pad3_shape [simp]: "length (pad3 n) = 3" "pad3 n \<noteq> []"
  by (simp_all add: pad3_def)

lemma opt_unit_print [simp]: "\<not> is_digit u \<Longrightarrow> opt_unit u (string_of_nat n @ u # r) = (Some (string_of_nat n), r)"
  by (rule opt_unit_hit) (simp_all add: string_of_nat_digits)

lemma opt_unit_print_miss [simp]:
  "\<not> is_digit c \<Longrightarrow> c \<noteq> u \<Longrightarrow> opt_unit u (string_of_nat n @ c # r) = (None, string_of_nat n @ c # r)"
  by (rule opt_unit_miss) (simp_all add: string_of_nat_digits)

lemma opt_unit_empty [simp]: "opt_unit u [] = (None, [])"
  by (simp add: opt_unit_def)

lemma opt_unit_T [simp]: "opt_unit u (CHR ''T'' # r) = (None, CHR ''T'' # r)"
  by (rule opt_unit_nondigit) simp

lemma opt_seconds_print [simp]:
  "opt_seconds [] = (None, [])"
  "opt_seconds (string_of_nat n @ ''S'') = (Some (string_of_nat n, []), [])"
  "opt_seconds (string_of_nat n @ CHR ''.'' # pad3 k @ ''S'') = (Some (string_of_nat n, pad3 k), [])"
  using digits_split[OF string_of_nat_digits, of "''S''"] digits_split[OF string_of_nat_digits, of "CHR ''.'' # pad3 k @ ''S''"]
    opt_unit_hit[OF pad3_shape(2) pad3_digits, of "CHR ''S''" k "[]"]
  by (simp_all add: opt_seconds_def Let_def)

text \<open>The three printed parts, read by the pattern.\<close>

definition print_part :: "nat \<Rightarrow> char \<Rightarrow> string" where
  "print_part n u = (if n \<noteq> 0 then string_of_nat n @ [u] else [])"

datatype printed_seconds = NoSeconds | WholeSeconds nat | MilliSeconds nat

fun print_seconds :: "printed_seconds \<Rightarrow> string" where
  "print_seconds NoSeconds = []"
| "print_seconds (WholeSeconds n) = string_of_nat n @ ''S''"
| "print_seconds (MilliSeconds n) = (string_of_nat (n div 1000) @ CHR ''.'' # pad3 (n mod 1000)) @ ''S''"

fun seconds_value :: "printed_seconds \<Rightarrow> rat" where
  "seconds_value NoSeconds = 0"
| "seconds_value (WholeSeconds n) = of_nat n"
| "seconds_value (MilliSeconds n) = of_nat n / 1000"

lemma print_seconds_no_unit:
  "u = CHR ''H'' \<or> u = CHR ''M'' \<Longrightarrow> opt_unit u (print_seconds x) = (None, print_seconds x)"
  by (cases x) auto

lemma opt_seconds_print_seconds:
  "\<exists>g. opt_seconds (print_seconds x) = (g, []) \<and> decimal_value g = seconds_value x"
proof (cases x)
  case (MilliSeconds n)
  have "(of_nat n :: rat) = of_nat (1000 * (n div 1000) + n mod 1000)" by simp
  also have "\<dots> = 1000 * of_nat (n div 1000) + of_nat (n mod 1000)" by (simp only: of_nat_add of_nat_mult of_nat_numeral)
  finally show ?thesis using MilliSeconds
    by (simp add: decimal_value_def nat_of_digits_pad3 field_simps)
next
  case (WholeSeconds n)
  then show ?thesis by (simp add: decimal_value_def) (simp add: nat_of_digits_def)
qed (simp add: decimal_value_def)

lemma parse_printed:
  "parse_iso8601_duration (''PT'' @ print_part h CHR ''H'' @ print_part m CHR ''M'' @ print_seconds x)
     = Inr (of_nat h * 3600 + of_nat m * 60 + seconds_value x)"
proof -
  obtain g where g: "opt_seconds (print_seconds x) = (g, [])" "decimal_value g = seconds_value x"
    using opt_seconds_print_seconds by blast
  have M: "opt_unit CHR ''M'' (print_part m CHR ''M'' @ print_seconds x)
      = (if m = 0 then None else Some (string_of_nat m), print_seconds x)"
    using print_seconds_no_unit[of "CHR ''M''"] by (simp add: print_part_def)
  have H: "opt_unit CHR ''H'' (print_part h CHR ''H'' @ print_part m CHR ''M'' @ print_seconds x)
      = (if h = 0 then None else Some (string_of_nat h), print_part m CHR ''M'' @ print_seconds x)"
    using print_seconds_no_unit[of "CHR ''H''"] by (simp add: print_part_def)
  show ?thesis
    by (simp add: parse_iso8601_duration_def iso_groups_def H M g duration_value_def digits_or_0_def)
qed

lemma round_half_even_near: "\<bar>of_int (round_half_even x) - x\<bar> \<le> 1 / 2"
proof -
  have "of_int \<lfloor>x\<rfloor> \<le> x" "x < of_int \<lfloor>x\<rfloor> + 1" by linarith+
  then show ?thesis by (auto simp: round_half_even_def Let_def abs_le_iff)
qed

lemma round_half_even_nonneg: "0 \<le> x \<Longrightarrow> 0 \<le> round_half_even x"
  using floor_mono[of 0 x] by (auto simp: round_half_even_def Let_def)

text \<open>How \<open>_seconds_to_iso8601\<close> splits a positive number of seconds.\<close>

lemma seconds_print_form:
  assumes x: "0 < x"
  shows "\<exists>h m s. seconds_to_iso8601 x = ''PT'' @ print_part h CHR ''H'' @ print_part m CHR ''M'' @ print_seconds s
     \<and> \<bar>of_nat h * 3600 + of_nat m * 60 + seconds_value s - x\<bar> \<le> 1 / 2000
     \<and> (x = of_int \<lfloor>x\<rfloor> \<longrightarrow> of_nat h * 3600 + of_nat m * 60 + seconds_value s = x)"
proof -
  define h where "h = nat \<lfloor>x / 3600\<rfloor>"
  define r1 where "r1 = x - of_nat h * 3600"
  define m where "m = nat \<lfloor>r1 / 60\<rfloor>"
  define r2 where "r2 = r1 - of_nat m * 60"
  define k where "k = nat (round_half_even (r2 * 1000))"
  define s where "s = (if 0 < r2 \<or> (h = 0 \<and> m = 0)
     then (if r2 = of_int \<lfloor>r2\<rfloor> then WholeSeconds (nat \<lfloor>r2\<rfloor>) else MilliSeconds k) else NoSeconds)"
  have "(of_nat h :: rat) = of_int \<lfloor>x / 3600\<rfloor>" using x by (simp add: h_def)
  then have r1: "0 \<le> r1" unfolding r1_def using of_int_floor_le[of "x / 3600"] by (simp add: field_simps)
  have "(of_nat m :: rat) = of_int \<lfloor>r1 / 60\<rfloor>" using r1 by (simp add: m_def)
  then have r2: "0 \<le> r2" unfolding r2_def using of_int_floor_le[of "r1 / 60"] by (simp add: field_simps)
  have sum: "of_nat h * 3600 + of_nat m * 60 + r2 = x" by (simp add: r1_def r2_def)
  have print: "seconds_to_iso8601 x = ''PT'' @ print_part h CHR ''H'' @ print_part m CHR ''M'' @ print_seconds s"
    using x unfolding seconds_to_iso8601_def Let_def h_def[symmetric] r1_def[symmetric] m_def[symmetric]
      r2_def[symmetric]
    by (simp add: print_part_def s_def fixed3_def k_def Let_def)
  have "0 \<le> round_half_even (r2 * 1000)" using r2 by (intro round_half_even_nonneg) simp
  then have "\<bar>of_nat k - r2 * 1000\<bar> \<le> 1 / 2" using round_half_even_near[of "r2 * 1000"] by (simp add: k_def)
  then have "\<bar>(of_nat k - r2 * 1000) / 1000\<bar> \<le> 1 / 2 / 1000" unfolding abs_divide by simp
  then have k: "\<bar>of_nat k / 1000 - r2\<bar> \<le> 1 / 2000" by (simp add: diff_divide_distrib)
  have whole: "(of_nat (nat \<lfloor>r2\<rfloor>) :: rat) = r2" if "r2 = of_int \<lfloor>r2\<rfloor>"
    using r2 that by (metis floor_of_nat of_int_of_nat_eq of_nat_nat zero_le_floor)
  have near: "\<bar>seconds_value s - r2\<bar> \<le> 1 / 2000"
    using r2 k whole by (auto simp: s_def)
  have int: "r2 = of_int \<lfloor>r2\<rfloor>" if "x = of_int \<lfloor>x\<rfloor>"
  proof -
    have "r2 = of_int (\<lfloor>x\<rfloor> - int h * 3600 - int m * 60)" using that sum by simp
    then show ?thesis by (metis floor_of_int)
  qed
  have "seconds_value s = r2" if "x = of_int \<lfloor>x\<rfloor>"
    using r2 int[OF that] whole by (auto simp: s_def)
  then show ?thesis using print near sum
    by (intro exI[of _ h] exI[of _ m] exI[of _ s]) auto
qed

lemma printed_duration_near:
  "\<exists>y. parse_iso8601_duration (seconds_to_iso8601 x) = Inr y
     \<and> \<bar>y - max x 0\<bar> \<le> 1 / 2000 \<and> (x \<in> \<int> \<longrightarrow> y = max x 0)"
proof (cases "0 < x")
  case True
  then show ?thesis using seconds_print_form[OF True] parse_printed
    by (metis Ints_cases floor_of_int max.absorb1 order_less_imp_le)
next
  case False
  have "parse_iso8601_duration ''PT0S'' = Inr 0"
    using parse_printed[of 0 0 "WholeSeconds 0"]
    by (simp add: print_part_def string_of_nat_0)
  then show ?thesis using False by (simp add: seconds_to_iso8601_def max_def)
qed

text \<open>
  C34. Durations survive printing, in the range where the arithmetic of floats is that of rationals: what
  \<open>_seconds_to_iso8601\<close> prints for a whole number of seconds up to 2 to the 53rd is read back by
  \<open>_parse_iso8601_duration\<close> as the same number (as 0 for a negative one), and what it prints for a
  fractional number up to 2 to the 40th is text for a number within half a millisecond of it.  (In these
  ranges every subtraction of the source is exact on doubles.  For a fractional number the reader rounds
  the number of the text to a double, which moves it by less than another quarter of a millisecond.
  Beyond the ranges nothing is claimed: the source loses exactness there, and for 3.4e19 it prints
  negative minutes, which it does not read back.)
\<close>

theorem duration_roundtrip:
  assumes "x \<in> \<int> \<and> x \<le> 2 ^ 53 \<or> x \<le> 2 ^ 40"
  shows "\<exists>y. parse_iso8601_duration (seconds_to_iso8601 x) = Inr y
     \<and> \<bar>y - max x 0\<bar> \<le> 1 / 2000 \<and> (x \<in> \<int> \<longrightarrow> y = max x 0)"
  by (rule printed_duration_near)

theorem duration_roundtrip_witness:
  "(\<exists>y. parse_iso8601_duration (seconds_to_iso8601 5400) = Inr y \<and> y = 5400)
   \<and> (\<exists>y. parse_iso8601_duration (seconds_to_iso8601 (5 / 4)) = Inr y \<and> \<bar>y - 5 / 4\<bar> \<le> 1 / 2000)"
  using duration_roundtrip[of 5400] duration_roundtrip[of "5 / 4"] by auto

text \<open>
  \<open>_parse_iso8601_duration\<close> accepts exactly the words of the pattern and those words followed by
  one newline (\<open>re.match\<close> with a final \<open>$\<close>); on anything else it raises \<open>ValueError\<close> with the text
  it was given.
\<close>

theorem parse_iso8601_accepts:
  "(parse_iso8601_duration s \<noteq> Inl (ValueErr (''Invalid ISO 8601 duration: '' @ repr_str s))) \<longleftrightarrow>
     s \<in> lang ISO_DURATION \<or> (\<exists>w \<in> lang ISO_DURATION. s = w @ [CHR 0x0A])"
proof -
  have "(parse_iso8601_duration s \<noteq> Inl (ValueErr (''Invalid ISO 8601 duration: '' @ repr_str s)))
     \<longleftrightarrow> (\<exists>x. parse_iso8601_duration s = Inr x)"
    by (auto simp: parse_iso8601_duration_def split: option.splits)
  then show ?thesis by (simp only: parse_iso8601_lang)
qed

theorem parse_iso8601_accepts_witness:
  "(parse_iso8601_duration ''PT1S'' \<noteq> Inl (ValueErr (''Invalid ISO 8601 duration: '' @ repr_str ''PT1S''))) \<longleftrightarrow>
     ''PT1S'' \<in> lang ISO_DURATION \<or> (\<exists>w \<in> lang ISO_DURATION. ''PT1S'' = w @ [CHR 0x0A])"
  by (rule parse_iso8601_accepts)

subsection \<open>Delays\<close>

lemma duration_value_nonneg: "0 \<le> duration_value g"
  by (cases g) (auto simp: duration_value_def decimal_value_def split: option.splits)

lemma parse_nonneg: "parse_iso8601_duration s = Inr x \<Longrightarrow> 0 \<le> x"
  by (auto simp: parse_iso8601_duration_def duration_value_nonneg split: option.splits if_splits)

lemma duration_arg_nonneg: "duration_arg v = Inr x \<Longrightarrow> 0 \<le> x"
  by (cases v) (auto simp: duration_arg_def parse_nonneg)

lemma py_pow_nat:
  "0 \<le> n \<Longrightarrow> py_pow b n = (if float_limit \<le> \<bar>b ^ nat n\<bar> then Inl OverflowErr else Inr (b ^ nat n))"
  by (simp add: py_pow_def Let_def)

text \<open>
  C35. A retry delay: for the first retry or a later one, with parsable durations and a
  non-negative coefficient whose power the float range holds, \<open>delay_for_attempt\<close> returns; the
  delay lies between 0 and \<open>max_interval\<close>; without jitter it is the capped exponential, with jitter
  it is within a factor of a half of it below and one and a half above.
\<close>

theorem delay_for_attempt_bounds:
  assumes i: "duration_arg (rp_initial_interval p) = Inr i"
    and m: "duration_arg (rp_max_interval p) = Inr m"
    and c: "coefficient_arg (rp_backoff_coefficient p) = Inr c" "0 \<le> c"
    and a: "1 \<le> attempt" "c ^ nat (attempt - 1) < float_limit"
    and u: "1 / 2 \<le> u" "u \<le> 3 / 2"
  shows "\<exists>d. delay_for_attempt p attempt u = Inr d \<and> 0 \<le> d \<and> d \<le> m
     \<and> (let base = min (i * c ^ nat (attempt - 1)) m in
          (if truthy (rp_jitter p) then base / 2 \<le> d \<and> d \<le> base * (3 / 2) else d = base))"
proof -
  define b where "b = min (i * c ^ nat (attempt - 1)) m"
  have nonneg: "0 \<le> i" "0 \<le> m" using i m by (simp_all add: duration_arg_nonneg)
  then have b: "0 \<le> b" "b \<le> m" using c by (simp_all add: b_def)
  have pow: "py_pow c (attempt - 1) = Inr (c ^ nat (attempt - 1))"
    using a c by (simp add: py_pow_nat)
  have ub: "b * (1 / 2) \<le> b * u" "b * u \<le> b * (3 / 2)" "0 \<le> b * u"
    using b(1) u by (intro mult_left_mono mult_nonneg_nonneg; simp)+
  have "delay_for_attempt p attempt u = Inr (if truthy (rp_jitter p) then min (b * u) m else b)"
    using i m c(1) pow by (simp add: delay_for_attempt_def b_def Let_def)
  moreover have "b / 2 \<le> min (b * u) m \<and> min (b * u) m \<le> b * (3 / 2) \<and> 0 \<le> min (b * u) m"
    using b ub nonneg by (auto simp: min_def)
  ultimately show ?thesis using b by (auto simp: Let_def b_def[symmetric])
qed

theorem delay_for_attempt_bounds_witness:
  "\<exists>d. delay_for_attempt default_retry_policy 2 1 = Inr d \<and> 0 \<le> d \<and> d \<le> 300"
proof -
  have s: "parse_iso8601_duration ''PT1S'' = Inr 1" "parse_iso8601_duration ''PT5M'' = Inr 300"
    by code_simp+
  have "(2::rat) ^ nat (2 - 1) < float_limit" by (simp add: float_limit_def)
  then show ?thesis
    using delay_for_attempt_bounds[of default_retry_policy 1 300 2 2 1] s
    by (auto simp: default_retry_policy_def duration_arg_def coefficient_arg_def Let_def)
qed

text \<open>
  The documented cap does not hold for late attempts: with the default policy every attempt from
  1025 on raises \<open>OverflowError\<close>, because the power is computed before it is capped.
\<close>

theorem delay_overflow: "1025 \<le> attempt \<Longrightarrow> delay_for_attempt default_retry_policy attempt u = Inl OverflowErr"
proof -
  assume a: "1025 \<le> attempt"
  have "(2::rat) ^ 1024 \<le> 2 ^ nat (attempt - 1)" using a by (intro power_increasing) simp_all
  moreover have "(float_limit::rat) \<le> 2 ^ 1024" by (simp add: float_limit_def)
  ultimately have "float_limit \<le> (2::rat) ^ nat (attempt - 1)" by linarith
  moreover have "parse_iso8601_duration ''PT1S'' = Inr 1" "parse_iso8601_duration ''PT5M'' = Inr 300"
    by code_simp+
  ultimately show ?thesis using a
    by (simp add: delay_for_attempt_def default_retry_policy_def duration_arg_def coefficient_arg_def py_pow_nat)
qed

theorem delay_overflow_witness: "delay_for_attempt default_retry_policy 2000 1 = Inl OverflowErr"
  by (rule delay_overflow) simp

subsection \<open>The wire form\<close>

interpretation retry_codec: wire_codec retry_to_dict retry_decode retry_wf
  by unfold_locales
    (auto simp: retry_to_dict_def retry_decode_def retry_from_dict_def retry_wf_def dget_default_def dget_append)

end
