(* ===== verification/Jobs.thy ===== *)
theory Jobs
  imports Retry
begin

section \<open>Jobs, job requests and uniqueness policies\<close>

text \<open>
  \<open>src/ojs/job.py\<close>: the state names, the uniqueness policy and its wire form, \<open>Job.from_dict\<close>,
  \<open>JobRequest.to_dict\<close> and the part of the handler's context the SDK's own code reads and writes.
  An optional field is an option; a policy read from the wire keeps what
  \<open>RetryPolicy.from_dict\<close> gives.
\<close>

subsection \<open>States\<close>

datatype job_state = Scheduled | Available | Pending | Active | Completed | Retryable | Cancelled | Discarded

fun state_value :: "job_state \<Rightarrow> string" where
  "state_value Scheduled = ''scheduled''"
| "state_value Available = ''available''"
| "state_value Pending = ''pending''"
| "state_value Active = ''active''"
| "state_value Completed = ''completed''"
| "state_value Retryable = ''retryable''"
| "state_value Cancelled = ''cancelled''"
| "state_value Discarded = ''discarded''"

definition all_states :: "job_state list" where
  "all_states = [Scheduled, Available, Pending, Active, Completed, Retryable, Cancelled, Discarded]"

text \<open>\<open>JobState(value)\<close>: the member with that value, \<open>ValueError\<close> (here \<open>None\<close>) when there is none.\<close>

definition parse_state :: "string \<Rightarrow> job_state option" where
  "parse_state s = find (\<lambda>st. state_value st = s) all_states"

definition is_terminal :: "job_state \<Rightarrow> bool" where
  "is_terminal s \<longleftrightarrow> s \<in> {Completed, Cancelled, Discarded}"

lemma state_value_inj [simp]: "state_value a = state_value b \<longleftrightarrow> a = b"
  by (cases a; cases b) simp_all

lemma all_states_complete [simp]: "s \<in> set all_states"
  by (cases s) (simp_all add: all_states_def)

lemma parse_state_iff: "parse_state t = Some s \<longleftrightarrow> t = state_value s"
proof
  assume "parse_state t = Some s"
  then show "t = state_value s" by (auto simp: parse_state_def find_Some_iff)
next
  assume "t = state_value s"
  then show "parse_state t = Some s" by (cases s) (simp_all add: parse_state_def all_states_def)
qed

lemma parse_state_value [simp]: "parse_state (state_value s) = Some s"
  by (simp add: parse_state_iff)

subsection \<open>Uniqueness policies\<close>

record unique_policy =
  up_keys :: "string list"
  up_args_keys :: "string list option"
  up_meta_keys :: "string list option"
  up_period :: "string option"
  up_states :: "string list"
  up_on_conflict :: string

definition unique_default_keys :: "string list" where
  "unique_default_keys = [''type'', ''queue'', ''args'']"

definition unique_default_states :: "string list" where
  "unique_default_states = [''available'', ''active'', ''scheduled'']"

text \<open>\<open>x or default\<close> for an optional string and for an optional integer.\<close>

definition or_str :: "string option \<Rightarrow> string \<Rightarrow> string" where
  "or_str x dflt = (case x of None \<Rightarrow> dflt | Some s \<Rightarrow> if s = [] then dflt else s)"

definition or_zero :: "int option \<Rightarrow> int" where
  "or_zero x = (case x of None \<Rightarrow> 0 | Some i \<Rightarrow> i)"

definition unique_to_dict :: "unique_policy \<Rightarrow> pyval" where
  "unique_to_dict u = PDict ([(PStr ''on_conflict'', PStr (up_on_conflict u))]
     @ opt_entry (up_keys u \<noteq> []) ''key'' (pstrs (up_keys u))
     @ opt_entry (or_str (up_period u) [] \<noteq> []) ''period'' (opt_str (up_period u))
     @ opt_entry (up_states u \<noteq> []) ''states'' (pstrs (up_states u))
     @ opt_entry (up_args_keys u \<noteq> None) ''args_keys'' (pstrs (the (up_args_keys u)))
     @ opt_entry (up_meta_keys u \<noteq> None) ''meta_keys'' (pstrs (the (up_meta_keys u))))"

definition optional_string_array :: "decoder \<Rightarrow> string \<Rightarrow> exn + string list option" where
  "optional_string_array d f = (if wire_value d f PNone \<noteq> PNone
     then bindR (string_array d f []) (\<lambda>xs. Inr (Some xs)) else Inr None)"

definition unique_from_decoder :: "decoder \<Rightarrow> exn + unique_policy" where
  "unique_from_decoder d =
     bindR (string_array d ''key'' unique_default_keys) (\<lambda>keys.
     bindR (optional_string_array d ''args_keys'') (\<lambda>args_keys.
     bindR (optional_string_array d ''meta_keys'') (\<lambda>meta_keys.
     bindR (wire_string d ''period'' None) (\<lambda>period.
     bindR (string_array d ''states'' unique_default_states) (\<lambda>states.
     bindR (wire_string d ''on_conflict'' (Some ''reject'')) (\<lambda>conflict.
       Inr \<lparr>up_keys = keys, up_args_keys = args_keys, up_meta_keys = meta_keys, up_period = period,
            up_states = states, up_on_conflict = or_str conflict ''reject''\<rparr>))))))"

definition unique_from_dict :: "pyval \<Rightarrow> exn + unique_policy" where
  "unique_from_dict v = bindR (wire_object v ''unique'') unique_from_decoder"

text \<open>The policies the wire form keeps: what it drops must be what decoding puts back.\<close>

definition unique_wf :: "unique_policy \<Rightarrow> bool" where
  "unique_wf u \<longleftrightarrow> up_keys u \<noteq> [] \<and> up_states u \<noteq> [] \<and> up_period u \<noteq> Some [] \<and> up_on_conflict u \<noteq> []"

subsection \<open>Jobs\<close>

record job =
  j_id :: string
  j_type :: string
  j_state :: job_state
  j_args :: "pyval list"
  j_queue :: string
  j_meta :: pydict
  j_priority :: int
  j_attempt :: int
  j_max_attempts :: int
  j_timeout_ms :: "int option"
  j_tags :: "string list"
  j_retry :: "retry_policy option"
  j_unique :: "unique_policy option"
  j_created_at :: "pydatetime option"
  j_enqueued_at :: "pydatetime option"
  j_started_at :: "pydatetime option"
  j_completed_at :: "pydatetime option"
  j_scheduled_at :: "pydatetime option"
  j_expires_at :: "pydatetime option"
  j_result :: pyval
  j_errors :: "pydict list"

definition job_state_field :: "decoder \<Rightarrow> exn + job_state" where
  "job_state_field d = bindR (wire_string d ''state'' (Some ''available'')) (\<lambda>x.
     let s = or_str x ''available'' in
     case parse_state s of Some st \<Rightarrow> Inr st
     | None \<Rightarrow> Inl (ValidationErr
         (''invalid wire value at job.state: unknown job state '' @ repr_str s)))"

definition job_errors_field :: "decoder \<Rightarrow> exn + pydict list" where
  "job_errors_field d = bindR (wire_array d ''errors'' []) (\<lambda>raw.
     mapR (\<lambda>(i, e). bindR (wire_object e (indexed_path ''job.errors'' i)) (\<lambda>o'. Inr (dec_data o')))
       (enumerated raw))"

text \<open>
  \<open>Job.from_dict\<close>, in evaluation order.  The \<open>except (TypeError, ValueError)\<close> around
  \<open>RetryPolicy.from_dict\<close> has nothing to catch: that function only reads keys of a dict.
\<close>

definition job_from_dict :: "(string \<Rightarrow> pydatetime option) \<Rightarrow> pyval \<Rightarrow> exn + job" where
  "job_from_dict isop v =
     bindR (wire_object v ''job'') (\<lambda>d.
     bindR (optional_mapping d ''retry'') (\<lambda>rd.
     bindR (optional_mapping d ''unique'') (\<lambda>ud.
     bindR (case ud of Some (x # xs) \<Rightarrow> bindR (wire_object (PDict (x # xs)) ''job.unique'')
               (\<lambda>e. bindR (unique_from_decoder e) (\<lambda>u. Inr (Some u)))
             | _ \<Rightarrow> Inr None) (\<lambda>unique.
     bindR (job_state_field d) (\<lambda>state.
     bindR (job_errors_field d) (\<lambda>errors.
     bindR (required_string d ''id'') (\<lambda>id.
     bindR (required_string d ''type'') (\<lambda>type.
     bindR (wire_array d ''args'' []) (\<lambda>args.
     bindR (wire_string d ''queue'' (Some ''default'')) (\<lambda>queue.
     bindR (wire_mapping d ''meta'' []) (\<lambda>meta.
     bindR (wire_integer d ''priority'' (Some 0)) (\<lambda>priority.
     bindR (wire_integer d ''attempt'' (Some 0)) (\<lambda>attempt.
     bindR (wire_integer d ''max_attempts'' (Some 3)) (\<lambda>max_attempts.
     bindR (wire_integer d ''timeout_ms'' None) (\<lambda>timeout_ms.
     bindR (string_array d ''tags'' []) (\<lambda>tags.
     bindR (wire_datetime isop d ''created_at'' False) (\<lambda>created.
     bindR (wire_datetime isop d ''enqueued_at'' False) (\<lambda>enqueued.
     bindR (wire_datetime isop d ''started_at'' False) (\<lambda>started.
     bindR (wire_datetime isop d ''completed_at'' False) (\<lambda>completed.
     bindR (wire_datetime isop d ''scheduled_at'' False) (\<lambda>scheduled.
     bindR (wire_datetime isop d ''expires_at'' False) (\<lambda>expires.
       Inr \<lparr>j_id = id, j_type = type, j_state = state, j_args = args, j_queue = or_str queue ''default'',
            j_meta = meta, j_priority = or_zero priority, j_attempt = or_zero attempt,
            j_max_attempts = or_zero max_attempts, j_timeout_ms = timeout_ms, j_tags = tags,
            j_retry = (case rd of Some (x # xs) \<Rightarrow> Some (retry_from_dict (x # xs)) | _ \<Rightarrow> None),
            j_unique = unique, j_created_at = created, j_enqueued_at = enqueued,
            j_started_at = started, j_completed_at = completed, j_scheduled_at = scheduled,
            j_expires_at = expires, j_result = wire_value d ''result'' PNone,
            j_errors = errors\<rparr>))))))))))))))))))))))"

subsection \<open>Requests\<close>

record job_request =
  jr_type :: string
  jr_args :: "pyval list"
  jr_queue :: string
  jr_meta :: "pydict option"
  jr_priority :: int
  jr_timeout_ms :: "int option"
  jr_delay_until :: "string option"
  jr_expires_at :: "string option"
  jr_retry :: "retry_policy option"
  jr_unique :: "unique_policy option"
  jr_tags :: "string list option"
  jr_schema :: "string option"

definition new_request :: "string \<Rightarrow> pyval list \<Rightarrow> job_request" where
  "new_request t a = \<lparr>jr_type = t, jr_args = a, jr_queue = ''default'', jr_meta = None, jr_priority = 0,
     jr_timeout_ms = None, jr_delay_until = None, jr_expires_at = None, jr_retry = None,
     jr_unique = None, jr_tags = None, jr_schema = None\<rparr>"

definition request_options :: "job_request \<Rightarrow> pydict" where
  "request_options r =
     opt_entry (jr_queue r \<noteq> ''default'') ''queue'' (PStr (jr_queue r))
     @ opt_entry (jr_priority r \<noteq> 0) ''priority'' (PInt (jr_priority r))
     @ opt_entry (jr_timeout_ms r \<noteq> None) ''timeout_ms'' (PInt (the (jr_timeout_ms r)))
     @ opt_entry (or_str (jr_delay_until r) [] \<noteq> []) ''delay_until'' (opt_str (jr_delay_until r))
     @ opt_entry (or_str (jr_expires_at r) [] \<noteq> []) ''expires_at'' (opt_str (jr_expires_at r))
     @ opt_entry (jr_retry r \<noteq> None) ''retry'' (retry_to_dict (the (jr_retry r)))
     @ opt_entry (jr_unique r \<noteq> None) ''unique'' (unique_to_dict (the (jr_unique r)))
     @ (case jr_tags r of None \<Rightarrow> [] | Some ts \<Rightarrow> opt_entry (ts \<noteq> []) ''tags'' (pstrs ts))"

definition request_to_dict :: "job_request \<Rightarrow> pydict" where
  "request_to_dict r =
     [(PStr ''type'', PStr (jr_type r)), (PStr ''args'', PList (jr_args r))]
     @ (case jr_meta r of None \<Rightarrow> [] | Some m \<Rightarrow> opt_entry (m \<noteq> []) ''meta'' (PDict m))
     @ opt_entry (or_str (jr_schema r) [] \<noteq> []) ''schema'' (opt_str (jr_schema r))
     @ opt_entry (request_options r \<noteq> []) ''options'' (PDict (request_options r))"

subsection \<open>The handler's context\<close>

text \<open>
  What handlers and middleware see.  The runtime hooks the worker binds (the lease clock, the
  retry sleep, the progress reporter) belong to the worker's model.
\<close>

record job_context =
  jc_job :: job
  jc_attempt :: int
  jc_parent_results :: "pyval list"
  jc_cancelled :: bool

definition new_context :: "job \<Rightarrow> int \<Rightarrow> pyval list \<Rightarrow> job_context" where
  "new_context j a ps = \<lparr>jc_job = j, jc_attempt = a, jc_parent_results = ps, jc_cancelled = False\<rparr>"

definition cancel_context :: "job_context \<Rightarrow> job_context" where
  "cancel_context c = c\<lparr>jc_cancelled := True\<rparr>"

subsection \<open>Reading the body of a request\<close>

lemma request_body:
  "dget_default (request_to_dict r) ''type'' x = PStr (jr_type r)"
  "dget_default (request_to_dict r) ''args'' x = PList (jr_args r)"
  "dget_default (request_to_dict r) ''schema'' PNone = (if or_str (jr_schema r) [] = [] then PNone else opt_str (jr_schema r))"
  "dget_default (request_to_dict r) ''options'' PNone = (if request_options r = [] then PNone else PDict (request_options r))"
  "dget (request_to_dict r) ''meta'' = (case jr_meta r of None \<Rightarrow> None | Some m \<Rightarrow> if m = [] then None else Some (PDict m))"
  "dget (request_to_dict r) ''queue'' = None" "dget (request_to_dict r) ''priority'' = None"
  "dget (request_to_dict r) ''tags'' = None"
  by (auto simp: request_to_dict_def dget_default_def dget_append split: option.splits)

lemma request_option_fields:
  "dget (request_options r) ''queue'' = (if jr_queue r = ''default'' then None else Some (PStr (jr_queue r)))"
  "dget (request_options r) ''priority'' = (if jr_priority r = 0 then None else Some (PInt (jr_priority r)))"
  "dget (request_options r) ''timeout_ms'' = map_option PInt (jr_timeout_ms r)"
  "dget (request_options r) ''delay_until'' = (if or_str (jr_delay_until r) [] = [] then None else map_option PStr (jr_delay_until r))"
  "dget (request_options r) ''expires_at'' = (if or_str (jr_expires_at r) [] = [] then None else map_option PStr (jr_expires_at r))"
  "dget (request_options r) ''retry'' = map_option retry_to_dict (jr_retry r)"
  "dget (request_options r) ''unique'' = map_option unique_to_dict (jr_unique r)"
  "dget (request_options r) ''tags'' = (case jr_tags r of None \<Rightarrow> None | Some ts \<Rightarrow> if ts = [] then None else Some (pstrs ts))"
  "dget (request_options r) ''visibility_timeout_ms'' = None"
  by (auto simp: request_options_def dget_append or_str_def opt_str_def split: option.splits)

subsection \<open>What decoding promises\<close>

lemma validated_optional_string_array [validated_intros]: "validated (optional_string_array d f)"
  by (auto simp: optional_string_array_def intro!: validated_intros)

lemma validated_unique [validated_intros]: "validated (unique_from_decoder d)"
  unfolding unique_from_decoder_def by (intro validated_intros)

lemma validated_job_state [validated_intros]: "validated (job_state_field d)"
  unfolding job_state_field_def Let_def by (intro validated_intros) (simp split: option.splits)

lemma validated_job_errors [validated_intros]: "validated (job_errors_field d)"
  unfolding job_errors_field_def
  by (intro validated_intros) (auto intro!: validated_intros split: prod.splits)

lemma validated_job: "validated (job_from_dict isop v)"
  unfolding job_from_dict_def
  by (intro validated_intros) (auto intro!: validated_intros split: option.splits list.splits)

lemma unique_decode_encoded:
  "unique_from_dict (unique_to_dict u) = Inr (u\<lparr>
     up_keys := (if up_keys u = [] then unique_default_keys else up_keys u),
     up_states := (if up_states u = [] then unique_default_states else up_states u),
     up_period := (if up_period u = Some [] then None else up_period u),
     up_on_conflict := (if up_on_conflict u = [] then ''reject'' else up_on_conflict u)\<rparr>)"
proof -
  obtain d where d: "unique_to_dict u = PDict d" "str_keys d"
    by (auto simp: unique_to_dict_def)
  let ?d = "\<lparr>dec_data = d, dec_path = ''unique''\<rparr>"
  have data: "dget d ''key'' = (if up_keys u = [] then None else Some (pstrs (up_keys u)))"
    "dget d ''states'' = (if up_states u = [] then None else Some (pstrs (up_states u)))"
    "dget d ''args_keys'' = map_option pstrs (up_args_keys u)"
    "dget d ''meta_keys'' = map_option pstrs (up_meta_keys u)"
    "dget d ''period'' = (if up_period u = Some [] then None else map_option PStr (up_period u))"
    "dget d ''on_conflict'' = Some (PStr (up_on_conflict u))"
    using d(1) by (auto simp: unique_to_dict_def dget_append or_str_def opt_str_def split: option.splits)
  have strs: "string_array ?d ''key'' unique_default_keys
      = Inr (if up_keys u = [] then unique_default_keys else up_keys u)"
    "string_array ?d ''states'' unique_default_states
      = Inr (if up_states u = [] then unique_default_states else up_states u)"
    "\<And>xs. up_args_keys u = Some xs \<Longrightarrow> string_array ?d ''args_keys'' [] = Inr xs"
    "\<And>xs. up_meta_keys u = Some xs \<Longrightarrow> string_array ?d ''meta_keys'' [] = Inr xs"
    using data by (auto simp: string_array_Inr dget_default_def pstrs_def)
  then have opts: "optional_string_array ?d ''args_keys'' = Inr (up_args_keys u)"
    "optional_string_array ?d ''meta_keys'' = Inr (up_meta_keys u)"
    using data by (cases "up_args_keys u"; cases "up_meta_keys u";
      auto simp: optional_string_array_def wire_value_def dget_default_def pstrs_def)+
  show ?thesis using d data strs(1,2) opts
    by (cases "up_period u")
      (auto simp: unique_from_dict_def unique_from_decoder_def wire_object_def wire_string_def
         dget_default_def or_str_def opt_str_def)
qed

interpretation unique_codec: wire_codec unique_to_dict unique_from_dict unique_wf
  by unfold_locales (auto simp: unique_decode_encoded unique_wf_def)

text \<open>
  Decoding an encoded uniqueness policy gives the policy back exactly when it is one the wire
  form keeps: an empty key list, an empty state list, an empty period or an empty conflict strategy
  is dropped by \<open>to_dict\<close> and comes back as the default.
\<close>

theorem unique_roundtrip_iff: "unique_from_dict (unique_to_dict u) = Inr u \<longleftrightarrow> unique_wf u"
proof (cases u)
  case (fields ks as ms p ss c)
  then show ?thesis
    by (auto simp: unique_decode_encoded unique_wf_def unique_default_keys_def unique_default_states_def)
qed

lemma job_from_dict_object:
  "job_from_dict isop v = Inr j \<Longrightarrow> \<exists>d. v = PDict d \<and> str_keys d"
  by (cases v) (auto simp: job_from_dict_def wire_object_def split: if_splits)

lemma job_from_dict_Inr:
  fixes d defines "w \<equiv> \<lparr>dec_data = d, dec_path = ''job''\<rparr>"
  assumes "job_from_dict isop (PDict d) = Inr j" "str_keys d"
  shows "required_string w ''id'' = Inr (j_id j) \<and> required_string w ''type'' = Inr (j_type j)
    \<and> wire_array w ''args'' [] = Inr (j_args j) \<and> job_state_field w = Inr (j_state j)
    \<and> job_errors_field w = Inr (j_errors j)
    \<and> map_sum id (\<lambda>q. or_str q ''default'') (wire_string w ''queue'' (Some ''default'')) = Inr (j_queue j)
    \<and> map_sum id or_zero (wire_integer w ''attempt'' (Some 0)) = Inr (j_attempt j)
    \<and> map_sum id or_zero (wire_integer w ''max_attempts'' (Some 3)) = Inr (j_max_attempts j)"
proof -
  have obj: "wire_object (PDict d) ''job'' = Inr w" using assms by (simp add: wire_object_def)
  show ?thesis using assms(2) unfolding job_from_dict_def obj bindR_simps bindR_eq_Inr_iff
    by (elim exE conjE) (simp only: sum.inject, hypsubst, simp)
qed

lemma job_state_field_Inr:
  "job_state_field w = Inr st \<Longrightarrow>
     dget_default (dec_data w) ''state'' (PStr ''available'') \<in> {PNone, PStr []} \<and> st = Available
     \<or> dget_default (dec_data w) ''state'' (PStr ''available'') = PStr (state_value st)"
proof -
  assume "job_state_field w = Inr st"
  then obtain x where x: "wire_string w ''state'' (Some ''available'') = Inr x"
    and st: "parse_state (or_str x ''available'') = Some st"
    by (auto simp: job_state_field_def bindR_eq_Inr_iff Let_def split: option.splits)
  have "dget_default (dec_data w) ''state'' (PStr ''available'') = opt_str x"
    using x by (auto simp: wire_string_def opt_str_def split: pyval.splits)
  moreover have "parse_state ''available'' = Some Available"
    using parse_state_value[of Available] by simp
  ultimately show ?thesis
    using st parse_state_iff[of "or_str x ''available''" st]
    by (cases x) (auto simp: opt_str_def or_str_def split: if_splits)
qed

lemma job_errors_field_length:
  "job_errors_field w = Inr es \<Longrightarrow>
     length es = (case dget (dec_data w) ''errors'' of Some (PList xs) \<Rightarrow> length xs | _ \<Rightarrow> 0)"
  by (auto simp: job_errors_field_def bindR_eq_Inr_iff wire_array_Inr dget_default_def
      dest!: mapR_length split: option.splits)

text \<open>
  \<open>Job.from_dict\<close> on any value: it either returns a job or raises \<open>OJSValidationError\<close> (whatever
  the wire holds, no other exception escapes), and a job it returns carries the id, type and
  arguments of the object as they stand, a state whose value is the one on the wire (\<open>available\<close>
  when absent or empty), and the documented defaults for the missing queue, attempt and maximum.
\<close>

theorem job_from_dict_spec:
  "(case job_from_dict isop v of
      Inl e \<Rightarrow> (\<exists>m. e = ValidationErr m)
    | Inr j \<Rightarrow> (\<exists>d. v = PDict d \<and> str_keys d
        \<and> dget d ''id'' = Some (PStr (j_id j)) \<and> dget d ''type'' = Some (PStr (j_type j))
        \<and> dget_default d ''args'' (PList []) = PList (j_args j)
        \<and> (dget_default d ''state'' (PStr ''available'') \<in> {PNone, PStr []} \<and> j_state j = Available
            \<or> dget_default d ''state'' (PStr ''available'') = PStr (state_value (j_state j)))
        \<and> (dget d ''queue'' = None \<longrightarrow> j_queue j = ''default'')
        \<and> (dget d ''attempt'' = None \<longrightarrow> j_attempt j = 0)
        \<and> (dget d ''max_attempts'' = None \<longrightarrow> j_max_attempts j = 3)
        \<and> length (j_errors j) = (case dget d ''errors'' of Some (PList es) \<Rightarrow> length es | _ \<Rightarrow> 0)))"
proof (cases "job_from_dict isop v")
  case (Inl e)
  then show ?thesis using validated_job[of isop v] by (simp add: validated_iff)
next
  case (Inr j)
  then obtain d where v: "v = PDict d" "str_keys d" using job_from_dict_object by blast
  let ?w = "\<lparr>dec_data = d, dec_path = ''job''\<rparr>"
  have f: "required_string ?w ''id'' = Inr (j_id j)" "required_string ?w ''type'' = Inr (j_type j)"
    "wire_array ?w ''args'' [] = Inr (j_args j)"
    and st: "job_state_field ?w = Inr (j_state j)" and es: "job_errors_field ?w = Inr (j_errors j)"
    and q: "map_sum id (\<lambda>q. or_str q ''default'') (wire_string ?w ''queue'' (Some ''default'')) = Inr (j_queue j)"
      "map_sum id or_zero (wire_integer ?w ''attempt'' (Some 0)) = Inr (j_attempt j)"
      "map_sum id or_zero (wire_integer ?w ''max_attempts'' (Some 3)) = Inr (j_max_attempts j)"
    using job_from_dict_Inr[of isop d j] Inr v by simp_all
  have defaults: "(dget d ''queue'' = None \<longrightarrow> j_queue j = ''default'')"
    "(dget d ''attempt'' = None \<longrightarrow> j_attempt j = 0)" "(dget d ''max_attempts'' = None \<longrightarrow> j_max_attempts j = 3)"
    using q by (auto simp: wire_string_def wire_integer_def or_str_def or_zero_def opt_str_def)
  show ?thesis
    using v f job_state_field_Inr[OF st] job_errors_field_length[OF es] defaults Inr
    by (simp add: required_string_Inr wire_array_Inr)
qed

definition sample_job :: pyval where
  "sample_job = PDict [(PStr ''id'', PStr ''j1''), (PStr ''type'', PStr ''email.send''),
     (PStr ''state'', PStr ''active''), (PStr ''args'', PList [PInt 7])]"

theorem job_from_dict_spec_witness:
  "\<exists>j. job_from_dict (\<lambda>_. None) sample_job = Inr j \<and> j_queue j = ''default'' \<and> j_max_attempts j = 3"
proof -
  have ok: "\<not> isl (job_from_dict (\<lambda>_. None) sample_job)" by code_simp
  then obtain j where j: "job_from_dict (\<lambda>_. None) sample_job = Inr j" by (cases "job_from_dict (\<lambda>_. None) sample_job") auto
  then show ?thesis
    using job_from_dict_spec[where isop = "\<lambda>_. None" and v = sample_job] by (auto simp: sample_job_def)
qed

end
