(* ===== verification/Queues_Events.thy ===== *)
theory Queues_Events
  imports Jobs
begin

section \<open>Queues, events and progress\<close>

text \<open>
  \<open>src/ojs/queue.py\<close>, \<open>src/ojs/events.py\<close> and \<open>src/ojs/progress.py\<close>: the envelopes of queues, queue
  statistics and events, and the checks a progress report passes before it reaches a transport
  (\<open>progress_body\<close> is the body given to \<open>transport.progress\<close>).
\<close>

record queue =
  q_name :: string
  q_status :: string
  q_created_at :: "pydatetime option"

definition queue_from_dict :: "(string \<Rightarrow> pydatetime option) \<Rightarrow> pyval \<Rightarrow> exn + queue" where
  "queue_from_dict isop v =
     bindR (wire_object v ''queue'') (\<lambda>d.
     bindR (required_string d ''name'') (\<lambda>name.
     bindR (wire_string d ''status'' (Some ''active'')) (\<lambda>status.
     bindR (wire_datetime isop d ''created_at'' False) (\<lambda>created.
       Inr \<lparr>q_name = name, q_status = or_str status ''active'', q_created_at = created\<rparr>))))"

record queue_stats =
  qs_queue :: string
  qs_status :: string
  qs_available :: int
  qs_active :: int
  qs_scheduled :: int
  qs_retryable :: int
  qs_discarded :: int
  qs_completed_last_hour :: int
  qs_failed_last_hour :: int
  qs_avg_duration_ms :: pfloat
  qs_avg_wait_ms :: pfloat
  qs_throughput_per_second :: pfloat
  qs_computed_at :: "pydatetime option"

definition stat_count :: "decoder \<Rightarrow> string \<Rightarrow> exn + int" where
  "stat_count d f = bindR (wire_integer d f (Some 0)) (\<lambda>i. Inr (or_zero i))"

definition queue_stats_from_dict :: "(string \<Rightarrow> pydatetime option) \<Rightarrow> pyval \<Rightarrow> exn + queue_stats" where
  "queue_stats_from_dict isop v =
     bindR (wire_object v ''queue_stats'') (\<lambda>d.
     bindR (wire_object (wire_value d ''stats'' (PDict [])) ''queue_stats.stats'') (\<lambda>s.
     bindR (required_string d ''queue'') (\<lambda>queue.
     bindR (wire_string d ''status'' (Some ''active'')) (\<lambda>status.
     bindR (stat_count s ''available'') (\<lambda>available.
     bindR (stat_count s ''active'') (\<lambda>active.
     bindR (stat_count s ''scheduled'') (\<lambda>scheduled.
     bindR (stat_count s ''retryable'') (\<lambda>retryable.
     bindR (stat_count s ''discarded'') (\<lambda>discarded.
     bindR (stat_count s ''completed_last_hour'') (\<lambda>completed.
     bindR (stat_count s ''failed_last_hour'') (\<lambda>failed.
     bindR (wire_number s ''avg_duration_ms'' (Fin 0)) (\<lambda>duration.
     bindR (wire_number s ''avg_wait_ms'' (Fin 0)) (\<lambda>wait.
     bindR (wire_number s ''throughput_per_second'' (Fin 0)) (\<lambda>throughput.
     bindR (wire_datetime isop d ''computed_at'' False) (\<lambda>computed.
       Inr \<lparr>qs_queue = queue, qs_status = or_str status ''active'', qs_available = available,
            qs_active = active, qs_scheduled = scheduled, qs_retryable = retryable,
            qs_discarded = discarded, qs_completed_last_hour = completed, qs_failed_last_hour = failed,
            qs_avg_duration_ms = duration, qs_avg_wait_ms = wait,
            qs_throughput_per_second = throughput, qs_computed_at = computed\<rparr>)))))))))))))))"

record event =
  ev_event :: string
  ev_timestamp :: pydatetime
  ev_data :: pydict

definition event_from_dict :: "(string \<Rightarrow> pydatetime option) \<Rightarrow> pyval \<Rightarrow> exn + event" where
  "event_from_dict isop v =
     bindR (wire_object v ''event'') (\<lambda>d.
     bindR (wire_datetime isop d ''timestamp'' True) (\<lambda>ts.
     case ts of None \<Rightarrow> Inl (ValidationErr ''invalid wire value at event.timestamp: field is required'')
     | Some t \<Rightarrow>
         bindR (required_string d ''event'') (\<lambda>name.
         bindR (wire_mapping d ''data'' []) (\<lambda>data.
           Inr \<lparr>ev_event = name, ev_timestamp = t, ev_data = data\<rparr>))))"

definition event_job_id :: "event \<Rightarrow> pyval" where
  "event_job_id e = dget_default (ev_data e) ''job_id'' PNone"

definition event_job_type :: "event \<Rightarrow> pyval" where
  "event_job_type e = (let t = dget_default (ev_data e) ''job_type'' PNone
     in if truthy t then t else dget_default (ev_data e) ''type'' PNone)"

definition event_queue :: "event \<Rightarrow> pyval" where
  "event_queue e = dget_default (ev_data e) ''queue'' PNone"

definition event_state_name :: "event \<Rightarrow> pyval" where
  "event_state_name e = dget_default (ev_data e) ''state'' PNone"

text \<open>The names of the standard events.\<close>

datatype event_type =
    Job_enqueued
  | Job_started
  | Job_completed
  | Job_failed
  | Job_retrying
  | Job_cancelled
  | Job_discarded
  | Job_heartbeat
  | Job_scheduled
  | Workflow_started
  | Workflow_completed
  | Workflow_failed
  | Cron_triggered
  | Cron_skipped
  | Worker_started
  | Worker_stopped
  | Worker_quiet

fun event_type_name :: "event_type \<Rightarrow> string" where
  "event_type_name Job_enqueued = ''job.enqueued''"
| "event_type_name Job_started = ''job.started''"
| "event_type_name Job_completed = ''job.completed''"
| "event_type_name Job_failed = ''job.failed''"
| "event_type_name Job_retrying = ''job.retrying''"
| "event_type_name Job_cancelled = ''job.cancelled''"
| "event_type_name Job_discarded = ''job.discarded''"
| "event_type_name Job_heartbeat = ''job.heartbeat''"
| "event_type_name Job_scheduled = ''job.scheduled''"
| "event_type_name Workflow_started = ''workflow.started''"
| "event_type_name Workflow_completed = ''workflow.completed''"
| "event_type_name Workflow_failed = ''workflow.failed''"
| "event_type_name Cron_triggered = ''cron.triggered''"
| "event_type_name Cron_skipped = ''cron.skipped''"
| "event_type_name Worker_started = ''worker.started''"
| "event_type_name Worker_stopped = ''worker.stopped''"
| "event_type_name Worker_quiet = ''worker.quiet''"

lemma event_type_name_inj: "event_type_name s = event_type_name t \<longleftrightarrow> s = t"
  by (cases s; cases t) simp_all

definition progress_body :: "string \<Rightarrow> int \<Rightarrow> string \<Rightarrow> pydict option \<Rightarrow> exn + pydict" where
  "progress_body job_id percentage message data =
     (if job_id = [] then Inl (ValueErr ''job_id is required for progress reporting'')
      else if percentage < 0 \<or> 100 < percentage
        then Inl (ValueErr (''percentage must be between 0 and 100, got '' @ string_of_int percentage))
      else Inr ([(PStr ''job_id'', PStr job_id), (PStr ''percentage'', PInt percentage)]
        @ opt_entry (message \<noteq> []) ''message'' (PStr message)
        @ opt_entry (data \<noteq> None) ''data'' (PDict (the data))))"

subsection \<open>Failures\<close>

lemma validated_queue: "validated (queue_from_dict isop v)"
  unfolding queue_from_dict_def by (intro validated_intros)

lemma validated_event: "validated (event_from_dict isop v)"
  unfolding event_from_dict_def
  by (intro validated_intros) (auto intro!: validated_intros split: option.splits)

lemma event_missing_timestamp_unreachable:
  "wire_datetime isop d f True \<noteq> Inr None"
  by (auto simp: wire_datetime_def bindR_eq_Inr_iff split: option.splits pyval.splits)

lemma wire_datetime_Some:
  "wire_datetime isop d f req = Inr (Some t) \<Longrightarrow> dget (dec_data d) f = Some (PDatetime t)
     \<or> (\<exists>s. dget (dec_data d) f = Some (PStr s) \<and> isop (normalize_iso s) = Some t)"
  by (auto simp: wire_datetime_def parse_datetime_def bindR_eq_Inr_iff split: option.splits pyval.splits if_splits)

text \<open>
  \<open>Event.from_dict\<close> never returns an event without a timestamp: an envelope whose timestamp is
  missing, null or not a timestamp is refused with \<open>OJSValidationError\<close>, and no other exception
  leaves the decoder (its own second check for a missing timestamp is never reached).
\<close>

theorem event_requires_timestamp:
  "(case event_from_dict isop v of
      Inl e \<Rightarrow> (\<exists>m. e = ValidationErr m)
    | Inr ev \<Rightarrow> (\<exists>d. v = PDict d \<and> dget d ''event'' = Some (PStr (ev_event ev))
        \<and> (dget d ''timestamp'' = Some (PDatetime (ev_timestamp ev))
           \<or> (\<exists>s. dget d ''timestamp'' = Some (PStr s) \<and> isop (normalize_iso s) = Some (ev_timestamp ev)))))"
proof (cases "event_from_dict isop v")
  case (Inl e)
  then show ?thesis using validated_event[of isop v] by (simp add: validated_iff)
next
  case (Inr ev)
  then obtain w t name where w: "wire_object v ''event'' = Inr w"
      and t: "wire_datetime isop w ''timestamp'' True = Inr (Some t)"
      and name: "required_string w ''event'' = Inr name" and ev: "ev_timestamp ev = t" "ev_event ev = name"
    by (auto simp: event_from_dict_def bindR_eq_Inr_iff split: option.splits)
  then show ?thesis using wire_datetime_Some[OF t] Inr
    by (auto simp: wire_object_Inr required_string_Inr)
qed

text \<open>The statistics decoder lets a second exception out: a number beyond the float range.\<close>

lemma wire_number_error: "wire_number d f x = Inl e \<Longrightarrow> e = OverflowErr \<or> (\<exists>m. e = ValidationErr m)"
  by (auto simp: wire_number_def float_of_int_def invalid_def split: pyval.splits if_splits)

end
