(* ===== verification/Workflows.thy ===== *)
theory Workflows
  imports Jobs
begin

section \<open>Workflows\<close>

text \<open>
  \<open>src/ojs/workflow/\<close>: steps, workflows and definitions with their wire forms, the projection of a
  job request to a step, and the builders \<open>chain\<close>, \<open>group\<close> and \<open>batch\<close>.  \<open>ordered_dag\<close> is what a
  scheduler needs of a definition: distinct ids, and dependencies on earlier steps only.
\<close>

subsection \<open>Models\<close>

record workflow_step =
  ws_id :: string
  ws_type :: string
  ws_args :: "pyval list"
  ws_depends_on :: "string list"
  ws_options :: "pydict option"
  ws_meta :: "pydict option"
  ws_schema :: "string option"
  ws_job_id :: "string option"
  ws_state :: "string option"
  ws_result :: pyval
  ws_started_at :: "pydatetime option"
  ws_completed_at :: "pydatetime option"
  ws_error :: "pydict option"
  ws_extra :: pydict

definition opt_dict :: "pydict option \<Rightarrow> pyval" where
  "opt_dict x = (case x of None \<Rightarrow> PNone | Some d \<Rightarrow> PDict d)"

definition step_to_dict :: "workflow_step \<Rightarrow> pyval" where
  "step_to_dict s = PDict ([(PStr ''id'', PStr (ws_id s)), (PStr ''type'', PStr (ws_type s)),
       (PStr ''args'', PList (ws_args s)), (PStr ''depends_on'', pstrs (ws_depends_on s))]
     @ opt_entry (ws_meta s \<noteq> None) ''meta'' (opt_dict (ws_meta s))
     @ opt_entry (ws_schema s \<noteq> None) ''schema'' (opt_str (ws_schema s))
     @ opt_entry (ws_options s \<noteq> None) ''options'' (opt_dict (ws_options s)))"

definition step_known_fields :: "string list" where
  "step_known_fields = [''id'', ''type'', ''args'', ''depends_on'', ''options'', ''meta'', ''schema'',
     ''job_id'', ''state'', ''result'', ''started_at'', ''completed_at'', ''error'']"

definition extra_fields :: "string list \<Rightarrow> pydict \<Rightarrow> pydict" where
  "extra_fields known d = filter (\<lambda>(k, v). k \<notin> set (map PStr known)) d"

definition step_from_decoder :: "(string \<Rightarrow> pydatetime option) \<Rightarrow> decoder \<Rightarrow> exn + workflow_step" where
  "step_from_decoder isop d =
     bindR (required_string d ''id'') (\<lambda>id.
     bindR (required_string d ''type'') (\<lambda>type.
     bindR (wire_array d ''args'' []) (\<lambda>args.
     bindR (string_array d ''depends_on'' []) (\<lambda>deps.
     bindR (optional_mapping d ''options'') (\<lambda>options.
     bindR (optional_mapping d ''meta'') (\<lambda>meta.
     bindR (wire_string d ''schema'' None) (\<lambda>schema.
     bindR (wire_string d ''job_id'' None) (\<lambda>job_id.
     bindR (wire_string d ''state'' None) (\<lambda>state.
     bindR (wire_datetime isop d ''started_at'' False) (\<lambda>started.
     bindR (wire_datetime isop d ''completed_at'' False) (\<lambda>completed.
     bindR (optional_mapping d ''error'') (\<lambda>error.
       Inr \<lparr>ws_id = id, ws_type = type, ws_args = args, ws_depends_on = deps, ws_options = options,
            ws_meta = meta, ws_schema = schema, ws_job_id = job_id, ws_state = state,
            ws_result = wire_value d ''result'' PNone, ws_started_at = started,
            ws_completed_at = completed, ws_error = error,
            ws_extra = extra_fields step_known_fields (dec_data d)\<rparr>))))))))))))"

definition step_from_dict :: "(string \<Rightarrow> pydatetime option) \<Rightarrow> pyval \<Rightarrow> exn + workflow_step" where
  "step_from_dict isop v = bindR (wire_object v ''workflow_step'') (step_from_decoder isop)"

record workflow =
  wf_id :: string
  wf_name :: string
  wf_state :: string
  wf_steps :: "workflow_step list"
  wf_created_at :: "pydatetime option"
  wf_type :: "string option"
  wf_completed_at :: "pydatetime option"
  wf_cancelled_at :: "pydatetime option"
  wf_steps_total :: "int option"
  wf_steps_completed :: "int option"
  wf_jobs_total :: "int option"
  wf_jobs_completed :: "int option"
  wf_steps_cancelled :: "int option"
  wf_steps_already_completed :: "int option"
  wf_callbacks :: "pydict option"
  wf_error :: "pydict option"
  wf_extra :: pydict

definition workflow_known_fields :: "string list" where
  "workflow_known_fields = [''id'', ''name'', ''state'', ''steps'', ''created_at'', ''type'', ''completed_at'',
     ''cancelled_at'', ''steps_total'', ''steps_completed'', ''jobs_total'', ''jobs_completed'',
     ''steps_cancelled'', ''steps_already_completed'', ''callbacks'', ''error'']"

definition workflow_steps_field :: "(string \<Rightarrow> pydatetime option) \<Rightarrow> decoder \<Rightarrow> exn + workflow_step list" where
  "workflow_steps_field isop d = bindR (wire_array d ''steps'' []) (\<lambda>raw.
     mapR (\<lambda>(i, s). bindR (wire_object s (indexed_path ''workflow.steps'' i)) (step_from_decoder isop))
       (enumerated raw))"

definition callback_path :: "pyval \<Rightarrow> string" where
  "callback_path k = ''workflow.callbacks.'' @ (case as_str k of Some s \<Rightarrow> s | None \<Rightarrow> [])"

definition workflow_callbacks_field :: "decoder \<Rightarrow> exn + pydict option" where
  "workflow_callbacks_field d = bindR (optional_mapping d ''callbacks'') (\<lambda>cs.
     case cs of None \<Rightarrow> Inr None
     | Some cbs \<Rightarrow> bindR (mapR (\<lambda>(k, v). bindR (wire_object v (callback_path k))
           (\<lambda>e. Inr (k, PDict (dec_data e)))) cbs) (\<lambda>xs. Inr (Some xs)))"

definition workflow_from_dict :: "(string \<Rightarrow> pydatetime option) \<Rightarrow> pyval \<Rightarrow> exn + workflow" where
  "workflow_from_dict isop v =
     bindR (wire_object v ''workflow'') (\<lambda>d.
     bindR (workflow_steps_field isop d) (\<lambda>steps.
     bindR (workflow_callbacks_field d) (\<lambda>callbacks.
     bindR (required_string d ''id'') (\<lambda>id.
     bindR (required_string d ''name'') (\<lambda>name.
     bindR (required_string d ''state'') (\<lambda>state.
     bindR (wire_datetime isop d ''created_at'' False) (\<lambda>created.
     bindR (wire_string d ''type'' None) (\<lambda>type.
     bindR (wire_datetime isop d ''completed_at'' False) (\<lambda>completed.
     bindR (wire_datetime isop d ''cancelled_at'' False) (\<lambda>cancelled.
     bindR (wire_integer d ''steps_total'' None) (\<lambda>steps_total.
     bindR (wire_integer d ''steps_completed'' None) (\<lambda>steps_completed.
     bindR (wire_integer d ''jobs_total'' None) (\<lambda>jobs_total.
     bindR (wire_integer d ''jobs_completed'' None) (\<lambda>jobs_completed.
     bindR (wire_integer d ''steps_cancelled'' None) (\<lambda>steps_cancelled.
     bindR (wire_integer d ''steps_already_completed'' None) (\<lambda>steps_already.
     bindR (optional_mapping d ''error'') (\<lambda>error.
       Inr \<lparr>wf_id = id, wf_name = name, wf_state = state, wf_steps = steps, wf_created_at = created,
            wf_type = type, wf_completed_at = completed, wf_cancelled_at = cancelled,
            wf_steps_total = steps_total, wf_steps_completed = steps_completed,
            wf_jobs_total = jobs_total, wf_jobs_completed = jobs_completed,
            wf_steps_cancelled = steps_cancelled, wf_steps_already_completed = steps_already,
            wf_callbacks = callbacks, wf_error = error,
            wf_extra = extra_fields workflow_known_fields (dec_data d)\<rparr>)))))))))))))))))"

record workflow_definition =
  wd_name :: string
  wd_steps :: "workflow_step list"
  wd_options :: "pydict option"

definition definition_to_dict :: "workflow_definition \<Rightarrow> pydict" where
  "definition_to_dict w = [(PStr ''name'', PStr (wd_name w)),
     (PStr ''steps'', PList (map step_to_dict (wd_steps w)))]
     @ opt_entry (wd_options w \<noteq> None) ''options'' (opt_dict (wd_options w))"

subsection \<open>Projection and builders\<close>

definition dict_field :: "pydict \<Rightarrow> string \<Rightarrow> pydict option" where
  "dict_field d k = (case dget d k of None \<Rightarrow> None | Some v \<Rightarrow> as_dict v)"

definition str_field :: "pydict \<Rightarrow> string \<Rightarrow> string option" where
  "str_field d k = (case dget d k of None \<Rightarrow> None | Some v \<Rightarrow> as_str v)"

definition list_field :: "pydict \<Rightarrow> string \<Rightarrow> pyval list option" where
  "list_field d k = (case dget d k of None \<Rightarrow> None | Some v \<Rightarrow> as_list v)"

definition project_workflow_step ::
  "string \<Rightarrow> job_request \<Rightarrow> string list \<Rightarrow> string option \<Rightarrow> workflow_step" where
  "project_workflow_step step_id request deps callback =
     (let envelope = request_to_dict request;
          options = dict_field envelope ''options'';
          options' = (case callback of None \<Rightarrow> options
            | Some c \<Rightarrow> Some (dset (case options of None \<Rightarrow> [] | Some o' \<Rightarrow> o') ''callback_type'' (PStr c)))
      in \<lparr>ws_id = step_id,
          ws_type = (case str_field envelope ''type'' of Some t \<Rightarrow> t | None \<Rightarrow> []),
          ws_args = (case list_field envelope ''args'' of Some a \<Rightarrow> a | None \<Rightarrow> []),
          ws_depends_on = deps, ws_options = options', ws_meta = dict_field envelope ''meta'',
          ws_schema = str_field envelope ''schema'', ws_job_id = None, ws_state = None,
          ws_result = PNone, ws_started_at = None, ws_completed_at = None, ws_error = None,
          ws_extra = []\<rparr>)"

definition step_name :: "nat \<Rightarrow> string" where
  "step_name i = ''step-'' @ string_of_nat i"

definition workflow_chain :: "string \<Rightarrow> job_request list \<Rightarrow> pydict option \<Rightarrow> workflow_definition" where
  "workflow_chain name jobs options = \<lparr>wd_name = name,
     wd_steps = map (\<lambda>(i, job). project_workflow_step (step_name i) job
         (if 0 < i then [step_name (i - 1)] else []) None) (enumerated jobs),
     wd_options = options\<rparr>"

definition workflow_group :: "string \<Rightarrow> job_request list \<Rightarrow> pydict option \<Rightarrow> workflow_definition" where
  "workflow_group name jobs options = \<lparr>wd_name = name,
     wd_steps = map (\<lambda>(i, job). project_workflow_step (step_name i) job [] None) (enumerated jobs),
     wd_options = options\<rparr>"

definition callback_step :: "string list \<Rightarrow> string \<times> job_request option \<Rightarrow> workflow_step list" where
  "callback_step ids c = (case c of (_, None) \<Rightarrow> []
     | (t, Some job) \<Rightarrow> [project_workflow_step t job ids (Some t)])"

definition workflow_batch :: "string \<Rightarrow> job_request list \<Rightarrow> job_request option \<Rightarrow> job_request option
    \<Rightarrow> job_request option \<Rightarrow> pydict option \<Rightarrow> workflow_definition" where
  "workflow_batch name jobs on_complete on_success on_failure options =
     (let ids = map step_name [0..<length jobs] in
      \<lparr>wd_name = name,
       wd_steps = map (\<lambda>(s, job). project_workflow_step s job [] None) (zip ids jobs)
         @ concat (map (callback_step ids) [(''on_complete'', on_complete),
             (''on_success'', on_success), (''on_failure'', on_failure)]),
       wd_options = options\<rparr>)"

definition ordered_dag :: "workflow_step list \<Rightarrow> bool" where
  "ordered_dag ss \<longleftrightarrow> distinct (map ws_id ss)
     \<and> (\<forall>i < length ss. set (ws_depends_on (ss ! i)) \<subseteq> set (map ws_id (take i ss)))"

subsection \<open>Projection keeps the request\<close>

lemma dget_request [dict_simps]:
  "dget (request_to_dict r) ''type'' = Some (PStr (jr_type r))"
  "dget (request_to_dict r) ''args'' = Some (PList (jr_args r))"
  "dget (request_to_dict r) ''meta'' = (case jr_meta r of None \<Rightarrow> None | Some m \<Rightarrow> if m = [] then None else Some (PDict m))"
  "dget (request_to_dict r) ''schema'' = (if or_str (jr_schema r) [] = [] then None else Some (opt_str (jr_schema r)))"
  "dget (request_to_dict r) ''options'' = (if request_options r = [] then None else Some (PDict (request_options r)))"
  by (auto simp: request_to_dict_def dget_append split: option.splits)

lemma project_simps [simp]:
  "ws_id (project_workflow_step i r ds c) = i"
  "ws_type (project_workflow_step i r ds c) = jr_type r"
  "ws_args (project_workflow_step i r ds c) = jr_args r"
  "ws_depends_on (project_workflow_step i r ds c) = ds"
  "ws_options (project_workflow_step i r ds None)
     = (if request_options r = [] then None else Some (request_options r))"
  "ws_options (project_workflow_step i r ds (Some t)) = Some (dset (request_options r) ''callback_type'' (PStr t))"
  by (simp_all add: project_workflow_step_def str_field_def list_field_def dict_field_def dict_simps Let_def)

lemma step_name_inj [simp]: "step_name i = step_name j \<longleftrightarrow> i = j"
  by (simp add: step_name_def)

lemma callback_names [simp]:
  "step_name i \<noteq> ''on_complete''" "step_name i \<noteq> ''on_success''" "step_name i \<noteq> ''on_failure''"
  by (simp_all add: step_name_def)

lemma distinct_step_names: "distinct (map step_name xs) \<longleftrightarrow> distinct xs"
  by (simp add: distinct_map inj_on_def)

subsection \<open>Builders give ordered graphs\<close>

lemma map_enumerated_nth:
  "i < length xs \<Longrightarrow> map (\<lambda>(i, x). f i x) (enumerated xs) ! i = f i (xs ! i)"
  by simp

lemma ids_enumerated:
  "(\<And>i x. ws_id (f i x) = step_name i) \<Longrightarrow>
     map ws_id (map (\<lambda>(i, x). f i x) (enumerated xs)) = map step_name [0..<length xs]"
  by (rule nth_equalityI) simp_all

lemma ordered_dag_append:
  assumes "ordered_dag xs" "distinct (map ws_id (xs @ ys))"
    and "\<And>y. y \<in> set ys \<Longrightarrow> set (ws_depends_on y) \<subseteq> set (map ws_id xs)"
  shows "ordered_dag (xs @ ys)"
proof -
  have "set (ws_depends_on ((xs @ ys) ! i)) \<subseteq> set (map ws_id (take i (xs @ ys)))" if i: "i < length (xs @ ys)" for i
  proof (cases "i < length xs")
    case True
    then show ?thesis using assms(1) by (simp add: ordered_dag_def nth_append)
  next
    case False
    then have "(xs @ ys) ! i \<in> set ys" using i by (simp add: nth_append)
    then show ?thesis using assms(3) False by (force simp: image_Un)
  qed
  then show ?thesis using assms(2) by (simp add: ordered_dag_def)
qed

lemma ordered_dag_no_deps:
  "distinct (map ws_id ss) \<Longrightarrow> (\<And>s. s \<in> set ss \<Longrightarrow> ws_depends_on s = []) \<Longrightarrow> ordered_dag ss"
  by (simp add: ordered_dag_def)

lemma chain_ids: "map ws_id (wd_steps (workflow_chain n jobs opts)) = map step_name [0..<length jobs]"
  unfolding workflow_chain_def workflow_definition.select_convs by (rule ids_enumerated) simp

lemma group_ids: "map ws_id (wd_steps (workflow_group n jobs opts)) = map step_name [0..<length jobs]"
  unfolding workflow_group_def workflow_definition.select_convs by (rule ids_enumerated) simp

text \<open>
  A chain is sequential: one step per job, in order, with the job's type and arguments; the first
  step depends on nothing and every other step on exactly the step before it, so the definition is
  an acyclic graph listed in a topological order, with distinct ids.
\<close>

theorem chain_sequential:
  "length (wd_steps (workflow_chain n jobs opts)) = length jobs
   \<and> ordered_dag (wd_steps (workflow_chain n jobs opts))
   \<and> (\<forall>i < length jobs. let s = wd_steps (workflow_chain n jobs opts) ! i in
        ws_type s = jr_type (jobs ! i) \<and> ws_args s = jr_args (jobs ! i) \<and> ws_id s = step_name i
        \<and> ws_depends_on s = (if i = 0 then [] else [step_name (i - 1)]))"
proof -
  let ?ss = "wd_steps (workflow_chain n jobs opts)"
  have len: "length ?ss = length jobs" by (simp add: workflow_chain_def)
  have nth: "?ss ! i = project_workflow_step (step_name i) (jobs ! i)
      (if 0 < i then [step_name (i - 1)] else []) None" if "i < length jobs" for i
    using that by (simp add: workflow_chain_def)
  have "set (ws_depends_on (?ss ! i)) \<subseteq> set (map ws_id (take i ?ss))" if i: "i < length ?ss" for i
  proof (cases i)
    case 0
    then show ?thesis using i nth[of 0] by (simp add: len)
  next
    case (Suc k)
    have "set (map ws_id (take i ?ss)) = set (take i (map step_name [0..<length jobs]))"
      by (simp add: take_map[symmetric] chain_ids)
    moreover have "step_name k \<in> set (take i (map step_name [0..<length jobs]))"
      using Suc i len by (simp add: take_map take_upt)
    ultimately show ?thesis using nth[of i] i Suc by (simp add: len)
  qed
  then have "ordered_dag ?ss" by (simp add: ordered_dag_def chain_ids distinct_step_names)
  then show ?thesis using len nth by (simp add: Let_def)
qed

theorem chain_sequential_witness:
  "ws_depends_on (wd_steps (workflow_chain ''w'' [new_request ''a'' [], new_request ''b'' []] None) ! 1) = [step_name 0]"
  using chain_sequential[of "''w''" "[new_request ''a'' [], new_request ''b'' []]" None]
  by (auto simp: Let_def dest!: spec[of _ 1])

definition batch_ids :: "job_request list \<Rightarrow> string list" where
  "batch_ids jobs = map step_name [0..<length jobs]"

lemma callback_step_in:
  "s \<in> set (concat (map (callback_step ids) cs)) \<longleftrightarrow>
     (\<exists>t job. (t, Some job) \<in> set cs \<and> s = project_workflow_step t job ids (Some t))"
  by (fastforce simp: callback_step_def split: option.splits)

lemma callback_ids:
  "map ws_id (concat (map (callback_step ids) cs)) = map fst (filter (\<lambda>c. snd c \<noteq> None) cs)"
  by (induction cs) (auto simp: callback_step_def split: prod.splits option.splits)

text \<open>
  A batch runs its jobs in parallel and its callbacks after all of them: the job steps depend on
  nothing, every callback step depends on all the job steps and carries its own trigger in
  \<open>callback_type\<close>, there is one callback step for each callback given, and the definition is an
  acyclic graph listed in a topological order.
\<close>

theorem batch_callbacks:
  "let ss = wd_steps (workflow_batch n jobs on_complete on_success on_failure opts) in
     ordered_dag ss
     \<and> length ss = length jobs + length (filter (\<lambda>c. c \<noteq> None) [on_complete, on_success, on_failure])
     \<and> (\<forall>s \<in> set (take (length jobs) ss). ws_depends_on s = [])
     \<and> (\<forall>s \<in> set (drop (length jobs) ss). ws_depends_on s = batch_ids jobs
          \<and> (\<exists>o'. ws_options s = Some o' \<and> dget o' ''callback_type'' = Some (PStr (ws_id s))))"
proof -
  let ?cs = "[(''on_complete'', on_complete), (''on_success'', on_success), (''on_failure'', on_failure)]"
  let ?par = "map (\<lambda>(s, job). project_workflow_step s job [] None) (zip (batch_ids jobs) jobs)"
  let ?cb = "concat (map (callback_step (batch_ids jobs)) ?cs)"
  have ss: "wd_steps (workflow_batch n jobs on_complete on_success on_failure opts) = ?par @ ?cb"
    by (simp add: workflow_batch_def batch_ids_def Let_def)
  have len: "length ?par = length jobs" by (simp add: batch_ids_def)
  have par_ids: "map ws_id ?par = batch_ids jobs"
    by (rule nth_equalityI) (simp_all add: batch_ids_def)
  have par: "\<forall>s \<in> set ?par. ws_depends_on s = []" by (auto simp: set_zip)
  have cb: "ws_depends_on s = batch_ids jobs
      \<and> (\<exists>o'. ws_options s = Some o' \<and> dget o' ''callback_type'' = Some (PStr (ws_id s)))"
    if "s \<in> set ?cb" for s
    using that unfolding callback_step_in by (elim exE conjE) simp
  have dag: "ordered_dag (?par @ ?cb)"
  proof (rule ordered_dag_append)
    have dist: "distinct (map ws_id ?par)"
      by (simp only: par_ids) (simp add: batch_ids_def distinct_step_names)
    then show "ordered_dag ?par" by (rule ordered_dag_no_deps) (use par in blast)
    have "map ws_id ?cb = map fst (filter (\<lambda>c. snd c \<noteq> None) ?cs)" by (rule callback_ids)
    moreover have "distinct (map fst (filter (\<lambda>c. snd c \<noteq> None) ?cs))" by simp
    moreover have "set (map fst (filter (\<lambda>c. snd c \<noteq> None) ?cs)) \<inter> set (batch_ids jobs) = {}"
      using callback_names by (auto simp: batch_ids_def) (metis callback_names)+
    ultimately show "distinct (map ws_id (?par @ ?cb))"
      using dist unfolding map_append par_ids by auto
    fix y assume "y \<in> set ?cb"
    then show "set (ws_depends_on y) \<subseteq> set (map ws_id ?par)"
      unfolding par_ids using cb by simp
  qed
  have "length ?cb = length (filter (\<lambda>c. c \<noteq> None) [on_complete, on_success, on_failure])"
    by (simp add: callback_step_def split: option.splits)
  then show ?thesis unfolding ss Let_def using len dag par cb by simp
qed

theorem batch_callbacks_witness:
  "length (wd_steps (workflow_batch ''b'' [new_request ''a'' []] None (Some (new_request ''ok'' [])) None None)) = 2"
  using batch_callbacks[of "''b''" "[new_request ''a'' []]" None "Some (new_request ''ok'' [])" None None]
  by (simp add: Let_def)

subsection \<open>The wire form of a step\<close>

lemma validated_step [validated_intros]: "validated (step_from_decoder isop d)"
  unfolding step_from_decoder_def by (intro validated_intros)

lemma validated_workflow: "validated (workflow_from_dict isop v)"
  unfolding workflow_from_dict_def workflow_steps_field_def workflow_callbacks_field_def
  by (intro validated_intros) (auto intro!: validated_intros split: prod.splits option.splits)

text \<open>A step before it is submitted: no status fields, mappings with string keys.\<close>

definition step_plain :: "workflow_step \<Rightarrow> bool" where
  "step_plain s \<longleftrightarrow> ws_job_id s = None \<and> ws_state s = None \<and> ws_result s = PNone \<and> ws_started_at s = None
     \<and> ws_completed_at s = None \<and> ws_error s = None \<and> ws_extra s = []
     \<and> (case ws_options s of None \<Rightarrow> True | Some d \<Rightarrow> str_keys d)
     \<and> (case ws_meta s of None \<Rightarrow> True | Some d \<Rightarrow> str_keys d)"

lemma optional_mapping_decode:
  "dget (dec_data d) f = map_option PDict x \<Longrightarrow> (case x of None \<Rightarrow> True | Some m \<Rightarrow> str_keys m) \<Longrightarrow>
     optional_mapping d f = Inr x"
  by (cases x) (auto simp: optional_mapping_def wire_object_def dget_default_def)

lemma step_roundtrip:
  assumes "step_plain s"
  shows "step_from_dict isop (step_to_dict s) = Inr s"
proof -
  obtain d where d: "step_to_dict s = PDict d" by (simp add: step_to_dict_def)
  let ?d = "\<lparr>dec_data = d, dec_path = ''workflow_step''\<rparr>"
  have keys: "str_keys d" using d by (auto simp: step_to_dict_def)
  have data: "dget d ''id'' = Some (PStr (ws_id s))" "dget d ''type'' = Some (PStr (ws_type s))"
    "dget d ''args'' = Some (PList (ws_args s))" "dget d ''depends_on'' = Some (pstrs (ws_depends_on s))"
    "dget d ''meta'' = map_option PDict (ws_meta s)" "dget d ''schema'' = map_option PStr (ws_schema s)"
    "dget d ''options'' = map_option PDict (ws_options s)"
    "dget d ''job_id'' = None" "dget d ''state'' = None" "dget d ''result'' = None" "dget d ''error'' = None"
    "dget d ''started_at'' = None" "dget d ''completed_at'' = None"
    using d by (auto simp: step_to_dict_def dget_append opt_dict_def opt_str_def split: option.splits)
  have ext: "extra_fields step_known_fields d = []"
    using d by (auto simp: step_to_dict_def extra_fields_def step_known_fields_def opt_entry_def filter_empty_conv)
  have acc: "required_string ?d ''id'' = Inr (ws_id s)" "required_string ?d ''type'' = Inr (ws_type s)"
    "wire_array ?d ''args'' [] = Inr (ws_args s)" "string_array ?d ''depends_on'' [] = Inr (ws_depends_on s)"
    "optional_mapping ?d ''options'' = Inr (ws_options s)" "optional_mapping ?d ''meta'' = Inr (ws_meta s)"
    "wire_string ?d ''schema'' None = Inr (ws_schema s)" "optional_mapping ?d ''error'' = Inr None"
    "wire_string ?d ''job_id'' None = Inr None" "wire_string ?d ''state'' None = Inr None"
    "wire_datetime isop ?d ''started_at'' False = Inr None" "wire_datetime isop ?d ''completed_at'' False = Inr None"
    using data assms unfolding step_plain_def
    by (auto simp: required_string_Inr wire_array_Inr string_array_Inr wire_string_def opt_str_def
        wire_datetime_def dget_default_def intro!: optional_mapping_decode split: option.splits)
  have obj: "wire_object (PDict d) ''workflow_step'' = Inr ?d" using keys by (simp add: wire_object_def)
  show ?thesis
    unfolding d step_from_dict_def obj bindR_simps step_from_decoder_def acc
    using data ext assms by (simp add: wire_value_def dget_default_def step_plain_def)
qed

interpretation step_codec: wire_codec step_to_dict "step_from_dict (\<lambda>_. None)" step_plain
  by unfold_locales (rule step_roundtrip)

text \<open>
  The steps of a submitted definition are read back as they were built: decoding the wire form
  of every step of a chain whose jobs carry string-keyed metadata gives exactly those steps.
\<close>

theorem chain_wire_roundtrip:
  assumes "\<And>j. j \<in> set jobs \<Longrightarrow> (case jr_meta j of None \<Rightarrow> True | Some m \<Rightarrow> str_keys m)"
  shows "(case dget (definition_to_dict (workflow_chain n jobs opts)) ''steps'' of
      Some (PList ws) \<Rightarrow> mapR (step_from_dict (\<lambda>_. None)) ws = Inr (wd_steps (workflow_chain n jobs opts))
    | _ \<Rightarrow> False)"
proof -
  have opts: "str_keys (request_options j)" for j
    by (auto simp: request_options_def split: option.splits)
  have meta: "dict_field (request_to_dict j) ''meta'' = (case jr_meta j of Some (x # xs) \<Rightarrow> Some (x # xs) | _ \<Rightarrow> None)" for j
    by (auto simp: dict_field_def dict_simps split: option.splits list.splits)
  have "step_plain (project_workflow_step i j ds None)" if "j \<in> set jobs" for i j ds
    using assms[OF that] opts[of j] meta[of j]
    by (auto simp: step_plain_def project_workflow_step_def dict_field_def dict_simps Let_def
        split: option.splits list.splits)
  moreover have "snd x \<in> set jobs" if "x \<in> set (enumerated jobs)" for x
    using that by (metis image_eqI map_snd_enumerated set_map)
  ultimately have "list_all step_plain (wd_steps (workflow_chain n jobs opts))"
    by (auto simp: workflow_chain_def list_all_iff)
  then show ?thesis
    using step_codec.decd_list by (simp add: definition_to_dict_def)
qed

theorem chain_wire_roundtrip_witness:
  "(case dget (definition_to_dict (workflow_chain ''w'' [new_request ''a'' [PInt 1]] None)) ''steps'' of
      Some (PList ws) \<Rightarrow> mapR (step_from_dict (\<lambda>_. None)) ws
         = Inr (wd_steps (workflow_chain ''w'' [new_request ''a'' [PInt 1]] None))
    | _ \<Rightarrow> False)"
  by (rule chain_wire_roundtrip) (simp add: new_request_def)

end
