(* ===== verification/Http.thy ===== *)
theory Http
  imports Queues_Events Workflows Effects
begin

section \<open>The HTTP transport\<close>

text \<open>
  \<open>src/ojs/transport/http/\<close> and \<open>src/ojs/transport/rate_limiter.py\<close>.  The server (with \<open>httpx\<close> and the
  network before it) is a function of the requests made so far, so it may answer each attempt
  differently; the world records the requests and the sleeps.  A response carries what
  \<open>response.json()\<close> gives (\<open>Inl\<close> the text of its error when it raises).  The attempt loop ends because an attempt is only
  repeated below \<open>max_retries\<close>: that is its termination proof.
\<close>

subsection \<open>Retry policy and backoff\<close>

record retry_config =
  rc_max_retries :: int
  rc_min_backoff :: rat
  rc_max_backoff :: rat
  rc_enabled :: bool
  rc_retry_server_errors :: bool

definition default_retry_config :: retry_config where
  "default_retry_config = \<lparr>rc_max_retries = 3, rc_min_backoff = 1 / 2, rc_max_backoff = 30,
     rc_enabled = True, rc_retry_server_errors = True\<rparr>"

datatype operation_safety = Safe | Idempotent | Unsafe

datatype retry_reason = Rate_limited | Transient_server_error

definition classify_operation :: "string \<Rightarrow> string option \<Rightarrow> operation_safety" where
  "classify_operation method key =
     (let m = str_upper method in
      if m \<in> {''GET'', ''HEAD'', ''OPTIONS''} then Safe
      else if m \<in> {''DELETE'', ''PUT''} \<or> key \<noteq> None then Idempotent
      else Unsafe)"

definition retry_reason_for :: "int \<Rightarrow> nat \<Rightarrow> operation_safety \<Rightarrow> retry_config \<Rightarrow> retry_reason option" where
  "retry_reason_for status attempt safety cfg =
     (if \<not> rc_enabled cfg \<or> rc_max_retries cfg \<le> int attempt then None
      else if status = 429 then Some Rate_limited
      else if status \<in> {502, 503, 504} \<and> rc_retry_server_errors cfg \<and> safety \<noteq> Unsafe
        then Some Transient_server_error
      else None)"

text \<open>\<open>u\<close> is what \<open>random.random()\<close> returns; \<open>2.0 ** attempt\<close> raises beyond the float range.\<close>

definition calculate_backoff :: "nat \<Rightarrow> rat option \<Rightarrow> retry_config \<Rightarrow> rat \<Rightarrow> exn + rat" where
  "calculate_backoff attempt retry_after cfg u =
     (case retry_after of
        Some r \<Rightarrow> if 0 < r then Inr (min r (rc_max_backoff cfg)) else
          (if float_limit \<le> (2::rat) ^ attempt then Inl OverflowErr
           else Inr (min (rc_min_backoff cfg * 2 ^ attempt) (rc_max_backoff cfg) * (1 / 2 + u * (1 / 2))))
      | None \<Rightarrow>
          (if float_limit \<le> (2::rat) ^ attempt then Inl OverflowErr
           else Inr (min (rc_min_backoff cfg * 2 ^ attempt) (rc_max_backoff cfg) * (1 / 2 + u * (1 / 2)))))"

subsection \<open>Idempotency keys\<close>

definition validate_idempotency_key :: "pyval \<Rightarrow> exn + string option" where
  "validate_idempotency_key v = (case v of
     PNone \<Rightarrow> Inr None
   | PStr s \<Rightarrow> if s = [] then Inl (ValueErr ''idempotency key must be a non-empty string'')
       else if 256 < length s then Inl (ValueErr ''idempotency key must not exceed 256 characters'')
       else Inr (Some s)
   | _ \<Rightarrow> Inl (ValueErr ''idempotency key must be a non-empty string''))"

definition idempotency_key_from_body :: "pyval \<Rightarrow> exn + string option" where
  "idempotency_key_from_body body = (case body of
     PDict d \<Rightarrow> validate_idempotency_key (dget_default d ''idempotency_key'' PNone)
   | _ \<Rightarrow> Inr None)"

definition effective_idempotency_key :: "headers \<Rightarrow> pyval \<Rightarrow> exn + string option" where
  "effective_idempotency_key hs body =
     bindR (validate_idempotency_key (opt_str (header_get hs ''Idempotency-Key''))) (\<lambda>k.
       case k of Some s \<Rightarrow> Inr (Some s) | None \<Rightarrow> idempotency_key_from_body body)"

definition request_headers :: "string \<Rightarrow> string option \<Rightarrow> headers" where
  "request_headers uuid key = [(''X-Request-ID'', uuid)]
     @ (case key of None \<Rightarrow> [] | Some k \<Rightarrow> [(''Idempotency-Key'', k)])"

subsection \<open>Requests and answers\<close>

record http_request =
  hq_method :: string
  hq_url :: string
  hq_json :: pyval
  hq_params :: "pydict option"
  hq_headers :: headers

record http_response =
  hr_status :: int
  hr_headers :: headers
  hr_json :: "string + pyval"
  hr_text :: string

text \<open>What \<open>client.request\<close> does: a response, or one of the exception classes the code names.\<close>

datatype http_answer =
    Response http_response
  | Connect_error string
  | Timeout_exception string
  | Read_write_error string
  | Other_exception exn

record http_world =
  hw_requests :: "http_request list"
  hw_sleeps :: "rat list"

record http_env =
  he_base_url :: string
  he_client_headers :: headers
  he_config :: retry_config
  he_server :: "http_request list \<Rightarrow> http_answer"
  he_uuid :: "nat \<Rightarrow> string"
  he_random :: "nat \<Rightarrow> rat"
  he_http_date :: "string \<Rightarrow> pydatetime option"
  he_now :: pydatetime
  he_fromisoformat :: "string \<Rightarrow> pydatetime option"

text \<open>\<open>sub in s\<close> for strings.\<close>

definition contains :: "string \<Rightarrow> string \<Rightarrow> bool" where
  "contains needle s \<longleftrightarrow> list_ex (\<lambda>i. take (length needle) (drop i s) = needle) [0..<length s + 1]"

text \<open>The part of the loop body after a response that is not retried.\<close>

definition finish_response :: "http_env \<Rightarrow> http_response \<Rightarrow> exn + pyval" where
  "finish_response env r =
     (if 400 \<le> hr_status r then
        (case (case hr_json r of Inr b \<Rightarrow> b
                | Inl _ \<Rightarrow> PDict [(PStr ''error'', PDict [
                    (PStr ''message'', PStr (if hr_text r = [] then ''Unknown error'' else hr_text r)),
                    (PStr ''code'', PStr ''parse_error'')])]) of
           PDict body \<Rightarrow> Inl (map_error_response (he_http_date env) (he_now env) (hr_status r) body (hr_headers r))
         | _ \<Rightarrow> Inl (UserErr ''AttributeError'' ''get''))
      else if hr_status r = 204 then Inr (PDict [])
      else let content_type = (case header_get (hr_headers r) ''content-type'' of None \<Rightarrow> [] | Some s \<Rightarrow> s) in
        if \<not> contains ''application/json'' content_type
        then Inr (PDict [(PStr ''_raw'', PStr (hr_text r)), (PStr ''_content_type'', PStr content_type)])
        else (case hr_json r of Inr v \<Rightarrow> Inr v
              | Inl e \<Rightarrow> Inl (ConnectionErr
                  (''Invalid JSON response from OJS server (Content-Type: '' @ content_type @ ''): '' @ e))))"

definition retry_after_of :: "http_env \<Rightarrow> http_response \<Rightarrow> rat option" where
  "retry_after_of env r = (if hr_status r = 429
     then parse_retry_after (he_http_date env) (he_now env) (header_get (hr_headers r) ''retry-after'') else None)"

definition one_request :: "http_env \<Rightarrow> string \<Rightarrow> string \<Rightarrow> pyval \<Rightarrow> pydict option \<Rightarrow> string option
    \<Rightarrow> http_world \<Rightarrow> http_request" where
  "one_request env method url json params key w =
     \<lparr>hq_method = method, hq_url = url, hq_json = json, hq_params = params,
      hq_headers = request_headers (he_uuid env (length (hw_requests w))) key\<rparr>"

function do_request_loop :: "http_env \<Rightarrow> string \<Rightarrow> string \<Rightarrow> pyval \<Rightarrow> pydict option \<Rightarrow> string option
    \<Rightarrow> nat \<Rightarrow> http_world \<Rightarrow> (exn + pyval) \<times> http_world" where
  "do_request_loop env method url json params key attempt w =
     (let cfg = he_config env; safety = classify_operation method key;
          w1 = w\<lparr>hw_requests := hw_requests w @ [one_request env method url json params key w]\<rparr> in
      case he_server env (hw_requests w1) of
        Connect_error s \<Rightarrow> (Inl (ConnectionErr (''Failed to connect to OJS server at '' @ he_base_url env @ '': '' @ s)), w1)
      | Timeout_exception s \<Rightarrow> (Inl (OJSTimeoutErr (''Request to OJS server timed out: '' @ s)), w1)
      | Read_write_error s \<Rightarrow>
          (Inl (ConnectionErr (''Communication error with OJS server at '' @ he_base_url env @ '': '' @ s)), w1)
      | Other_exception e \<Rightarrow> (Inl e, w1)
      | Response r \<Rightarrow>
          if retry_reason_for (hr_status r) attempt safety cfg = None then (finish_response env r, w1)
          else (case calculate_backoff attempt (retry_after_of env r) cfg (he_random env attempt) of
              Inl e \<Rightarrow> (Inl e, w1)
            | Inr d \<Rightarrow> do_request_loop env method url json params key (attempt + 1)
                (w1\<lparr>hw_sleeps := hw_sleeps w1 @ [d]\<rparr>)))"
  by pat_completeness auto

termination
  by (relation "measure (\<lambda>(env, m, u, j, p, k, attempt, w). nat (rc_max_retries (he_config env)) - attempt)")
    (auto simp: retry_reason_for_def split: if_splits)

declare do_request_loop.simps [simp del]

definition do_request :: "http_env \<Rightarrow> string \<Rightarrow> string \<Rightarrow> pyval \<Rightarrow> pydict option \<Rightarrow> string option
    \<Rightarrow> (http_world, pyval) io" where
  "do_request env method url json params key = do_request_loop env method url json params key 0"

definition raw_request :: "http_env \<Rightarrow> string \<Rightarrow> string \<Rightarrow> pyval \<Rightarrow> pydict option \<Rightarrow> (http_world, pyval) io" where
  "raw_request env method path json params =
     bindIO (liftIO (effective_idempotency_key (he_client_headers env) json)) (\<lambda>key.
       do_request env method path json params key)"

definition base_request :: "http_env \<Rightarrow> string \<Rightarrow> string \<Rightarrow> pyval \<Rightarrow> pydict option \<Rightarrow> (http_world, pyval) io" where
  "base_request env method path json params = raw_request env method (''/ojs/v1'' @ path) json params"

subsection \<open>Operations\<close>

text \<open>\<open>data[k]\<close>, \<open>data.get(k, d)\<close> and iteration over what they give.\<close>

definition index_key :: "pyval \<Rightarrow> string \<Rightarrow> exn + pyval" where
  "index_key data k = (case data of
     PDict d \<Rightarrow> (case dget d k of Some v \<Rightarrow> Inr v | None \<Rightarrow> Inl (KeyErr k))
   | _ \<Rightarrow> Inl (TypeErr ''indices must be integers''))"

definition get_key :: "pyval \<Rightarrow> string \<Rightarrow> pyval \<Rightarrow> exn + pyval" where
  "get_key data k dflt = (case data of PDict d \<Rightarrow> Inr (dget_default d k dflt)
     | _ \<Rightarrow> Inl (UserErr ''AttributeError'' ''get''))"

definition decode_each :: "(pyval \<Rightarrow> exn + 'a) \<Rightarrow> pyval \<Rightarrow> exn + 'a list" where
  "decode_each f v = (case v of PList xs \<Rightarrow> mapR f xs | _ \<Rightarrow> Inl (TypeErr ''object is not iterable''))"

definition decode_job_at :: "http_env \<Rightarrow> pyval \<Rightarrow> exn + job" where
  "decode_job_at env data = bindR (index_key data ''job'') (job_from_dict (he_fromisoformat env))"

definition http_push :: "http_env \<Rightarrow> pydict \<Rightarrow> (http_world, job) io" where
  "http_push env body = bindIO (base_request env ''POST'' ''/jobs'' (PDict body) None)
     (\<lambda>data. liftIO (decode_job_at env data))"

definition http_push_batch :: "http_env \<Rightarrow> pydict list \<Rightarrow> (http_world, job list) io" where
  "http_push_batch env jobs =
     bindIO (base_request env ''POST'' ''/jobs/batch'' (PDict [(PStr ''jobs'', PList (map PDict jobs))]) None)
       (\<lambda>data. liftIO (bindR (index_key data ''jobs'') (decode_each (job_from_dict (he_fromisoformat env)))))"

definition http_info :: "http_env \<Rightarrow> string \<Rightarrow> (http_world, job) io" where
  "http_info env job_id = bindIO (base_request env ''GET'' (''/jobs/'' @ quote_str job_id) PNone None)
     (\<lambda>data. liftIO (decode_job_at env data))"

definition http_cancel :: "http_env \<Rightarrow> string \<Rightarrow> (http_world, job) io" where
  "http_cancel env job_id = bindIO (base_request env ''DELETE'' (''/jobs/'' @ quote_str job_id) PNone None)
     (\<lambda>data. liftIO (decode_job_at env data))"

definition http_fetch :: "http_env \<Rightarrow> string list \<Rightarrow> int \<Rightarrow> string option \<Rightarrow> int \<Rightarrow> (http_world, job list) io" where
  "http_fetch env queues count worker_id visibility =
     bindIO (base_request env ''POST'' ''/workers/fetch'' (PDict ([(PStr ''queues'', pstrs queues),
         (PStr ''count'', PInt count), (PStr ''visibility_timeout_ms'', PInt visibility)]
         @ opt_entry (or_str worker_id [] \<noteq> []) ''worker_id'' (opt_str worker_id))) None)
       (\<lambda>data. liftIO (bindR (get_key data ''jobs'' (PList []))
          (decode_each (job_from_dict (he_fromisoformat env)))))"

definition http_ack :: "http_env \<Rightarrow> string \<Rightarrow> pyval \<Rightarrow> (http_world, pyval) io" where
  "http_ack env job_id result = base_request env ''POST'' ''/workers/ack''
     (PDict ([(PStr ''job_id'', PStr job_id)] @ opt_entry (result \<noteq> PNone) ''result'' result)) None"

definition http_nack :: "http_env \<Rightarrow> string \<Rightarrow> pydict \<Rightarrow> (http_world, pyval) io" where
  "http_nack env job_id error = base_request env ''POST'' ''/workers/nack''
     (PDict [(PStr ''job_id'', PStr job_id), (PStr ''error'', PDict error)]) None"

definition http_heartbeat :: "http_env \<Rightarrow> string \<Rightarrow> string list option \<Rightarrow> int option \<Rightarrow> (http_world, pyval) io" where
  "http_heartbeat env worker_id active_jobs visibility = base_request env ''POST'' ''/workers/heartbeat''
     (PDict ([(PStr ''worker_id'', PStr worker_id)]
       @ opt_entry (active_jobs \<noteq> None) ''active_jobs'' (pstrs (the active_jobs))
       @ opt_entry (visibility \<noteq> None) ''visibility_timeout_ms'' (PInt (the visibility)))) None"

definition http_progress :: "http_env \<Rightarrow> pydict \<Rightarrow> (http_world, pyval) io" where
  "http_progress env body = base_request env ''POST'' ''/workers/progress'' (PDict body) None"

definition http_get_progress :: "http_env \<Rightarrow> string \<Rightarrow> (http_world, pyval) io" where
  "http_get_progress env job_id = base_request env ''GET'' (''/jobs/'' @ quote_str job_id @ ''/progress'') PNone None"

definition http_list_queues :: "http_env \<Rightarrow> (http_world, queue list) io" where
  "http_list_queues env = bindIO (base_request env ''GET'' ''/queues'' PNone None)
     (\<lambda>data. liftIO (bindR (get_key data ''queues'' (PList [])) (decode_each (queue_from_dict (he_fromisoformat env)))))"

definition http_queue_stats :: "http_env \<Rightarrow> string \<Rightarrow> (http_world, queue_stats) io" where
  "http_queue_stats env name = bindIO (base_request env ''GET'' (''/queues/'' @ name @ ''/stats'') PNone None)
     (\<lambda>data. liftIO (queue_stats_from_dict (he_fromisoformat env) data))"

definition http_pause_queue :: "http_env \<Rightarrow> string \<Rightarrow> (http_world, pyval) io" where
  "http_pause_queue env name = base_request env ''POST'' (''/queues/'' @ name @ ''/pause'') PNone None"

definition http_resume_queue :: "http_env \<Rightarrow> string \<Rightarrow> (http_world, pyval) io" where
  "http_resume_queue env name = base_request env ''POST'' (''/queues/'' @ name @ ''/resume'') PNone None"

definition http_create_workflow :: "http_env \<Rightarrow> workflow_definition \<Rightarrow> (http_world, workflow) io" where
  "http_create_workflow env d =
     bindIO (base_request env ''POST'' ''/workflows'' (PDict (definition_to_dict d)) None)
       (\<lambda>data. liftIO (bindR (index_key data ''workflow'') (workflow_from_dict (he_fromisoformat env))))"

definition http_get_workflow :: "http_env \<Rightarrow> string \<Rightarrow> (http_world, workflow) io" where
  "http_get_workflow env i = bindIO (base_request env ''GET'' (''/workflows/'' @ quote_str i) PNone None)
     (\<lambda>data. liftIO (bindR (index_key data ''workflow'') (workflow_from_dict (he_fromisoformat env))))"

definition http_cancel_workflow :: "http_env \<Rightarrow> string \<Rightarrow> (http_world, pyval) io" where
  "http_cancel_workflow env i = base_request env ''DELETE'' (''/workflows/'' @ quote_str i) PNone None"

definition http_manifest :: "http_env \<Rightarrow> (http_world, pyval) io" where
  "http_manifest env = raw_request env ''GET'' ''/ojs/manifest'' PNone None"

definition paging_params :: "int \<Rightarrow> int \<Rightarrow> pydict" where
  "paging_params limit offset = [(PStr ''limit'', PInt limit), (PStr ''offset'', PInt offset)]"

definition http_list_dead_letter :: "http_env \<Rightarrow> string option \<Rightarrow> int \<Rightarrow> int \<Rightarrow> (http_world, pyval) io" where
  "http_list_dead_letter env queue limit offset = base_request env ''GET'' ''/dead-letter'' PNone
     (Some (paging_params limit offset @ opt_entry (queue \<noteq> None) ''queue'' (opt_str queue)))"

definition http_retry_dead_letter :: "http_env \<Rightarrow> string \<Rightarrow> (http_world, job) io" where
  "http_retry_dead_letter env i =
     bindIO (base_request env ''POST'' (''/dead-letter/'' @ quote_str i @ ''/retry'') PNone None)
       (\<lambda>data. liftIO (decode_job_at env data))"

definition http_delete_dead_letter :: "http_env \<Rightarrow> string \<Rightarrow> (http_world, pyval) io" where
  "http_delete_dead_letter env i = base_request env ''DELETE'' (''/dead-letter/'' @ quote_str i) PNone None"

definition http_list_cron :: "http_env \<Rightarrow> int \<Rightarrow> int \<Rightarrow> (http_world, pyval) io" where
  "http_list_cron env limit offset = base_request env ''GET'' ''/cron'' PNone (Some (paging_params limit offset))"

definition http_register_cron :: "http_env \<Rightarrow> pydict \<Rightarrow> (http_world, pyval) io" where
  "http_register_cron env body = base_request env ''POST'' ''/cron'' (PDict body) None"

definition http_unregister_cron :: "http_env \<Rightarrow> string \<Rightarrow> (http_world, pyval) io" where
  "http_unregister_cron env name = base_request env ''DELETE'' (''/cron/'' @ quote_str name) PNone None"

definition http_list_schemas :: "http_env \<Rightarrow> int \<Rightarrow> int \<Rightarrow> (http_world, pyval) io" where
  "http_list_schemas env limit offset = base_request env ''GET'' ''/schemas'' PNone (Some (paging_params limit offset))"

definition http_register_schema :: "http_env \<Rightarrow> pydict \<Rightarrow> (http_world, pyval) io" where
  "http_register_schema env body = base_request env ''POST'' ''/schemas'' (PDict body) None"

definition http_get_schema :: "http_env \<Rightarrow> string \<Rightarrow> (http_world, pyval) io" where
  "http_get_schema env uri = base_request env ''GET'' (''/schemas/'' @ quote_str uri) PNone None"

definition http_delete_schema :: "http_env \<Rightarrow> string \<Rightarrow> (http_world, pyval) io" where
  "http_delete_schema env uri = base_request env ''DELETE'' (''/schemas/'' @ quote_str uri) PNone None"

definition http_health :: "http_env \<Rightarrow> (http_world, pyval) io" where
  "http_health env = base_request env ''GET'' ''/health'' PNone None"

definition http_request_any :: "http_env \<Rightarrow> string \<Rightarrow> string \<Rightarrow> pydict option \<Rightarrow> (http_world, pyval) io" where
  "http_request_any env method path body = base_request env method path (opt_dict body) None"

subsection \<open>Bounds on retries\<close>

lemma calculate_backoff_bounds:
  assumes "calculate_backoff attempt ra cfg u = Inr d" "0 \<le> u" "u \<le> 1" "0 \<le> rc_min_backoff cfg" "0 \<le> rc_max_backoff cfg"
  shows "0 \<le> d \<and> d \<le> rc_max_backoff cfg"
proof -
  define c where "c = min (rc_min_backoff cfg * 2 ^ attempt) (rc_max_backoff cfg)"
  have c: "0 \<le> c" "c \<le> rc_max_backoff cfg" using assms by (simp_all add: c_def)
  have "c * (1 / 2 + u * (1 / 2)) \<le> c * 1" using c(1) assms(3) by (intro mult_left_mono) simp_all
  moreover have "0 \<le> c * (1 / 2 + u * (1 / 2))" using c(1) assms(2) by simp
  moreover have "d = c * (1 / 2 + u * (1 / 2)) \<or> (\<exists>r > 0. d = min r (rc_max_backoff cfg))"
    using assms(1) by (auto simp: calculate_backoff_def c_def split: option.splits if_splits)
  ultimately show ?thesis using c assms(5) by (auto simp: min_def split: if_splits)
qed

text \<open>
  Backoff: the delay before a retry is never negative and never above \<open>max_backoff\<close>; a positive
  \<open>Retry-After\<close> is used as it is, up to that cap, and without one the delay is between half of the
  capped exponential and all of it.
\<close>

theorem backoff_bounds:
  assumes "0 \<le> u" "u \<le> 1" "0 \<le> rc_min_backoff cfg" "0 \<le> rc_max_backoff cfg" "attempt \<le> 1023"
  shows "\<exists>d. calculate_backoff attempt ra cfg u = Inr d \<and> 0 \<le> d \<and> d \<le> rc_max_backoff cfg
    \<and> (case ra of Some r \<Rightarrow> 0 < r \<longrightarrow> d = min r (rc_max_backoff cfg) | None \<Rightarrow>
        min (rc_min_backoff cfg * 2 ^ attempt) (rc_max_backoff cfg) / 2 \<le> d)"
proof -
  have "(2::rat) ^ attempt \<le> 2 ^ 1023" using assms(5) by (intro power_increasing) simp_all
  moreover have "(2::rat) ^ 1023 < float_limit" by (simp add: float_limit_def)
  ultimately have small: "\<not> float_limit \<le> (2::rat) ^ attempt" by linarith
  then obtain d where d: "calculate_backoff attempt ra cfg u = Inr d"
    by (cases "calculate_backoff attempt ra cfg u")
      (auto simp: calculate_backoff_def split: option.splits if_splits)
  define c where "c = min (rc_min_backoff cfg * 2 ^ attempt) (rc_max_backoff cfg)"
  have "0 \<le> c" using assms(3,4) by (simp add: c_def)
  then have "c * (1 / 2) \<le> c * (1 / 2 + u * (1 / 2))" using assms(1) by (intro mult_left_mono) simp_all
  then have "c / 2 \<le> c * (1 / 2 + u * (1 / 2))" by simp
  then show ?thesis using d small calculate_backoff_bounds[OF d assms(1-4)]
    by (auto simp: calculate_backoff_def c_def split: option.splits)
qed

theorem backoff_bounds_witness: "\<exists>d. calculate_backoff 1 (Some 7) default_retry_config 0 = Inr d \<and> d = min 7 30"
  using backoff_bounds[of 0 default_retry_config 1 "Some 7"] by (auto simp: default_retry_config_def)

text \<open>What the requests of one call have in common, and why a request was followed by another.\<close>

definition same_call :: "string \<Rightarrow> string \<Rightarrow> pyval \<Rightarrow> pydict option \<Rightarrow> string option \<Rightarrow> http_request \<Rightarrow> bool" where
  "same_call method url json params key q \<longleftrightarrow> hq_method q = method \<and> hq_url q = url \<and> hq_json q = json
     \<and> hq_params q = params \<and> header_get (hq_headers q) ''Idempotency-Key'' = key"

definition replay_allowed :: "operation_safety \<Rightarrow> http_answer \<Rightarrow> bool" where
  "replay_allowed safety a = (case a of
     Response r \<Rightarrow> hr_status r = 429 \<or> hr_status r \<in> {502, 503, 504} \<and> safety \<noteq> Unsafe
   | _ \<Rightarrow> False)"

lemma same_call_one: "same_call m u j p k (one_request env m u j p k w)"
  by (auto simp: same_call_def one_request_def request_headers_def header_get_def str_lower_def chr_lower_def
      split: option.splits)

lemma do_request_loop_requests:
  "\<exists>reqs. hw_requests (snd (do_request_loop env m u j p k attempt w)) = hw_requests w @ reqs
     \<and> 1 \<le> length reqs \<and> length reqs \<le> nat (rc_max_retries (he_config env)) - attempt + 1
     \<and> (\<forall>q \<in> set reqs. same_call m u j p k q)
     \<and> (\<forall>i. i + 1 < length reqs \<longrightarrow>
          replay_allowed (classify_operation m k) (he_server env (hw_requests w @ take (i + 1) reqs)))"
proof (induction env m u j p k attempt w rule: do_request_loop.induct)
  case (1 env m u j p k attempt w)
  let ?q = "one_request env m u j p k w"
  let ?w1 = "w\<lparr>hw_requests := hw_requests w @ [?q]\<rparr>"
  show ?case
  proof (cases "\<exists>r. he_server env (hw_requests ?w1) = Response r
      \<and> retry_reason_for (hr_status r) attempt (classify_operation m k) (he_config env) \<noteq> None
      \<and> (\<exists>d. calculate_backoff attempt (retry_after_of env r) (he_config env) (he_random env attempt) = Inr d)")
    case False
    then have "hw_requests (snd (do_request_loop env m u j p k attempt w)) = hw_requests w @ [?q]"
      by (subst do_request_loop.simps) (auto simp: Let_def split: http_answer.splits sum.splits)
    then show ?thesis using same_call_one by (intro exI[of _ "[?q]"]) simp
  next
    case True
    then obtain r d where r: "he_server env (hw_requests ?w1) = Response r"
        "retry_reason_for (hr_status r) attempt (classify_operation m k) (he_config env) \<noteq> None"
        "calculate_backoff attempt (retry_after_of env r) (he_config env) (he_random env attempt) = Inr d"
      by blast
    let ?w2 = "?w1\<lparr>hw_sleeps := hw_sleeps ?w1 @ [d]\<rparr>"
    obtain why where why: "retry_reason_for (hr_status r) attempt (classify_operation m k) (he_config env) = Some why"
      using r(2) by blast
    have step: "do_request_loop env m u j p k attempt w = do_request_loop env m u j p k (attempt + 1) ?w2"
      by (subst do_request_loop.simps) (use r(1,3) why in \<open>simp add: Let_def\<close>)
    have more: "int attempt < rc_max_retries (he_config env)"
      and replay: "replay_allowed (classify_operation m k) (he_server env (hw_requests ?w1))"
      using r by (auto simp: retry_reason_for_def replay_allowed_def split: if_splits)
    from "1.IH"[OF refl refl refl r(1) r(2) r(3)] obtain reqs where
      reqs: "hw_requests (snd (do_request_loop env m u j p k (attempt + 1) ?w2)) = hw_requests ?w2 @ reqs"
        "1 \<le> length reqs" "length reqs \<le> nat (rc_max_retries (he_config env)) - (attempt + 1) + 1"
        "\<forall>q \<in> set reqs. same_call m u j p k q"
        "\<forall>i. i + 1 < length reqs \<longrightarrow>
          replay_allowed (classify_operation m k) (he_server env (hw_requests ?w2 @ take (i + 1) reqs))"
      by blast
    have "replay_allowed (classify_operation m k) (he_server env (hw_requests w @ take (i + 1) (?q # reqs)))"
      if "i + 1 < length (?q # reqs)" for i
      using that replay reqs(5)[rule_format, of "i - 1"] by (cases i) simp_all
    then show ?thesis unfolding step
      using reqs more same_call_one by (intro exI[of _ "?q # reqs"]) auto
  qed
qed

text \<open>
  C5. Replays are bounded and safe: one call sends at least one and at most \<open>max_retries + 1\<close> requests,
  all with the same method, URL, body, parameters and idempotency key; and it sends a request again
  only after a 429 or, when the operation is safe, idempotent or carries a key, after a 502, 503 or
  504.  An unkeyed POST is therefore never repeated after a server error.
\<close>

theorem requests_bounded_and_safe:
  "\<exists>reqs. hw_requests (snd (do_request env m u j p k w)) = hw_requests w @ reqs
     \<and> 1 \<le> length reqs \<and> length reqs \<le> nat (rc_max_retries (he_config env)) + 1
     \<and> (\<forall>q \<in> set reqs. same_call m u j p k q)
     \<and> (\<forall>i. i + 1 < length reqs \<longrightarrow>
          replay_allowed (classify_operation m k) (he_server env (hw_requests w @ take (i + 1) reqs)))"
  using do_request_loop_requests[of env m u j p k 0 w] by (simp add: do_request_def)

definition sample_env :: "(http_request list \<Rightarrow> http_answer) \<Rightarrow> http_env" where
  "sample_env server = \<lparr>he_base_url = ''http://h'', he_client_headers = [], he_config = default_retry_config,
     he_server = server, he_uuid = (\<lambda>_. ''id''), he_random = (\<lambda>_. 0), he_http_date = (\<lambda>_. None),
     he_now = NaiveDT 0, he_fromisoformat = (\<lambda>_. None)\<rparr>"

definition respond :: "int \<Rightarrow> string \<Rightarrow> pyval \<Rightarrow> http_answer" where
  "respond status ct body = Response \<lparr>hr_status = status, hr_headers = [(''content-type'', ct)],
     hr_json = Inr body, hr_text = []\<rparr>"

theorem requests_bounded_and_safe_witness:
  "length (hw_requests (snd (do_request (sample_env (\<lambda>_. respond 503 ''application/json'' (PDict [])))
     ''POST'' ''/jobs'' PNone None None \<lparr>hw_requests = [], hw_sleeps = []\<rparr>))) = 1"
proof -
  let ?env = "sample_env (\<lambda>_. respond 503 ''application/json'' (PDict []))"
  obtain reqs where reqs: "hw_requests (snd (do_request ?env ''POST'' ''/jobs'' PNone None None \<lparr>hw_requests = [], hw_sleeps = []\<rparr>)) = reqs"
      "1 \<le> length reqs" "\<forall>i. i + 1 < length reqs \<longrightarrow>
          replay_allowed (classify_operation ''POST'' None) (he_server ?env (take (i + 1) reqs))"
    using requests_bounded_and_safe[of ?env "''POST''" "''/jobs''" PNone None None "\<lparr>hw_requests = [], hw_sleeps = []\<rparr>"]
    by auto
  have "\<not> replay_allowed (classify_operation ''POST'' None) (he_server ?env (take 1 reqs))"
    by (simp add: replay_allowed_def classify_operation_def str_upper_def chr_upper_def sample_env_def respond_def)
  then have "\<not> 1 < length reqs" using reqs(3)[rule_format, of 0] by auto
  then show ?thesis using reqs(1,2) by simp
qed

subsection \<open>Media types\<close>



subsection \<open>Construction and closing\<close>

text \<open>
  \<open>HTTPTransport.__init__\<close> without a client of the caller's: the headers of every request are the protocol's,
  updated by the given ones; trailing slashes of the base URL are dropped.
\<close>

definition ojs_default_headers :: headers where
  "ojs_default_headers = [(''Content-Type'', ''application/openjobspec+json''), (''Accept'', ''application/openjobspec+json''),
     (''OJS-Version'', ''1.0'')]"

definition owned_client_headers :: "headers option \<Rightarrow> headers" where
  "owned_client_headers hs = (case hs of None \<Rightarrow> ojs_default_headers
     | Some given \<Rightarrow> foldl (\<lambda>acc (k, v). AList.update k v acc) ojs_default_headers given)"

definition owned_http_env :: "string \<Rightarrow> headers option \<Rightarrow> retry_config option \<Rightarrow> http_env \<Rightarrow> http_env" where
  "owned_http_env base_url hs cfg env = env\<lparr>he_base_url := rstrip_char CHR ''/'' base_url,
     he_client_headers := owned_client_headers hs,
     he_config := (case cfg of None \<Rightarrow> default_retry_config | Some c \<Rightarrow> c)\<rparr>"

text \<open>\<open>close\<close>: a client of its own is closed once; a close that takes too long is only logged.\<close>

definition http_close :: "bool \<Rightarrow> (http_world, unit) io \<Rightarrow> bool \<Rightarrow> http_world \<Rightarrow> (exn + unit) \<times> bool \<times> http_world" where
  "http_close owns aclose was_closed w = (if owns \<and> \<not> was_closed
     then (case aclose w of
         (Inl TimeoutErr, w') \<Rightarrow> (Inr (), True, w')
       | (r, w') \<Rightarrow> (r, True, w'))
     else (Inr (), was_closed, w))"

lemma http_close_once:
  "http_close owns aclose was_closed w = (r, closed', w') \<Longrightarrow> http_close owns aclose' closed' w' = (Inr (), closed', w')"
  by (auto simp: http_close_def split: if_splits prod.splits sum.splits exn.splits)

end
