(* ===== verification/Builtins.thy ===== *)
theory Builtins
  imports Errors
begin

section \<open>Conversions between dynamic values\<close>

text \<open>
  \<open>int\<close>, \<open>str\<close>, \<open>list\<close> and \<open>dict\<close> of a dynamic value, and the building of a dict field by
  field, where a field may be left out or its conversion may raise.
\<close>

subsection \<open>Built-in constructors\<close>

text \<open>\<open>int(value)\<close> and \<open>str(value)\<close>.\<close>

definition py_int :: "pyval \<Rightarrow> exn + int" where
  "py_int v = (case v of
     PInt i \<Rightarrow> Inr i
   | PBool b \<Rightarrow> Inr (if b then 1 else 0)
   | PFloat (Fin r) \<Rightarrow> Inr (if 0 \<le> r then \<lfloor>r\<rfloor> else \<lceil>r\<rceil>)
   | PFloat NaN \<Rightarrow> Inl (ValueErr ''cannot convert float NaN to integer'')
   | PFloat _ \<Rightarrow> Inl OverflowErr
   | PStr s \<Rightarrow> (case int_of_string s of Some i \<Rightarrow> Inr i
       | None \<Rightarrow> Inl (ValueErr (''invalid literal for int() with base 10: '' @ repr_str s)))
   | _ \<Rightarrow> Inl (TypeErr ''int() argument must be a string, a bytes-like object or a real number''))"

definition py_str :: "(pyval \<Rightarrow> string) \<Rightarrow> pyval \<Rightarrow> string" where
  "py_str str_of v = (case v of PStr s \<Rightarrow> s | _ \<Rightarrow> str_of v)"

text \<open>\<open>list(value)\<close>.\<close>

definition py_list :: "pyval \<Rightarrow> exn + pyval list" where
  "py_list v = (case v of
     PList xs \<Rightarrow> Inr xs
   | PDict d \<Rightarrow> Inr (map fst d)
   | PStr s \<Rightarrow> Inr (map (\<lambda>c. PStr [c]) s)
   | PBytes b \<Rightarrow> Inr (map (\<lambda>n. PInt (int n)) b)
   | _ \<Rightarrow> Inl (TypeErr ''object is not iterable''))"

text \<open>\<open>dict(value)\<close>: a mapping, or a sequence of pairs whose last value for a key wins.\<close>

definition py_pair :: "pyval \<Rightarrow> exn + pyval \<times> pyval" where
  "py_pair v = (case v of
     PList [a, b] \<Rightarrow> Inr (a, b)
   | PList _ \<Rightarrow> Inl (ValueErr ''dictionary update sequence element has the wrong length; 2 is required'')
   | PStr [a, b] \<Rightarrow> Inr (PStr [a], PStr [b])
   | PStr _ \<Rightarrow> Inl (ValueErr ''dictionary update sequence element has the wrong length; 2 is required'')
   | _ \<Rightarrow> Inl (TypeErr ''cannot convert dictionary update sequence element to a sequence''))"

definition py_dict :: "pyval \<Rightarrow> exn + pydict" where
  "py_dict v = (case v of
     PDict d \<Rightarrow> Inr d
   | _ \<Rightarrow> bindR (py_list v) (\<lambda>xs. bindR (mapR py_pair xs) (\<lambda>ps.
       Inr (foldl (\<lambda>d (k, w). AList.update k w d) [] ps))))"

subsection \<open>Dicts built field by field\<close>

text \<open>One field: left out (\<open>None\<close>), or the outcome of its conversion.\<close>

fun field_entry :: "string \<Rightarrow> (exn + pyval) option \<Rightarrow> exn + pydict" where
  "field_entry k None = Inr []"
| "field_entry k (Some r) = bindR r (\<lambda>v. Inr [(PStr k, v)])"

fun build_dict :: "(string \<times> (exn + pyval) option) list \<Rightarrow> exn + pydict" where
  "build_dict [] = Inr []"
| "build_dict ((k, r) # fs) = bindR (field_entry k r) (\<lambda>d. bindR (build_dict fs) (\<lambda>e. Inr (d @ e)))"

lemma build_dict_get:
  "build_dict fs = Inr d \<Longrightarrow>
     dget d k = (case map_of (filter (\<lambda>(k, r). r \<noteq> None) fs) k of Some (Some (Inr v)) \<Rightarrow> Some v | _ \<Rightarrow> None)"
proof (induction fs arbitrary: d)
  case (Cons f fs)
  obtain k' r where f: "f = (k', r)" by (cases f)
  show ?case
  proof (cases r)
    case None
    then show ?thesis using Cons f by (auto simp: bindR_eq_Inr_iff)
  next
    case (Some q)
    then obtain v e where "q = Inr v" "build_dict fs = Inr e" "d = (PStr k', v) # e"
      using Cons.prems f by (auto simp: bindR_eq_Inr_iff)
    then show ?thesis using Cons.IH f Some by simp
  qed
qed simp

lemma build_dict_ok:
  "(\<And>k e. (k, Some (Inl e)) \<notin> set fs) \<Longrightarrow> \<exists>d. build_dict fs = Inr d"
proof (induction fs)
  case (Cons f fs)
  obtain k r where f: "f = (k, r)" by (cases f)
  obtain d where "build_dict fs = Inr d" using Cons by auto
  moreover have "\<exists>v. field_entry k r = Inr v"
    using Cons.prems f by (cases "(k, r)" rule: field_entry.cases) (auto, metis sum.exhaust bindR_simps(2))
  ultimately show ?case using f by auto
qed simp

lemma build_dict_error:
  "build_dict fs = Inl e \<Longrightarrow> \<exists>k. (k, Some (Inl e)) \<in> set fs"
proof (induction fs)
  case (Cons f fs)
  obtain k r where f: "f = (k, r)" by (cases f)
  show ?case
  proof (cases r)
    case None
    then show ?thesis using Cons f by (auto simp: bindR_eq_Inl_iff)
  next
    case (Some q)
    then show ?thesis using Cons f by (cases q) (auto simp: bindR_eq_Inl_iff)
  qed
qed simp

end
