(* ===== verification/Agent.thy ===== *)
theory Agent
  imports Http Builtins
begin

section \<open>The agent client\<close>

text \<open>
  \<open>src/ojs/agent\<close>: fork, merge, pause, resume, replay and state of a durable agent over a request
  transport, which is an argument; an injected transport of the original protocol (\<open>post\<close> and \<open>get\<close> of
  whole URLs) is adapted.  A field of an answer is whatever value the server sent.
\<close>

subsection \<open>Types\<close>

datatype merge_strategy = Ours | Theirs | Union

fun strategy_value :: "merge_strategy \<Rightarrow> string" where
  "strategy_value Ours = ''ours''"
| "strategy_value Theirs = ''theirs''"
| "strategy_value Union = ''union''"

datatype agent_state = Running | Paused_human | Forked | Merged | Agent_completed | Agent_failed

fun agent_state_value :: "agent_state \<Rightarrow> string" where
  "agent_state_value Running = ''running''"
| "agent_state_value Paused_human = ''paused_human''"
| "agent_state_value Forked = ''forked''"
| "agent_state_value Merged = ''merged''"
| "agent_state_value Agent_completed = ''completed''"
| "agent_state_value Agent_failed = ''failed''"

definition parse_agent_state :: "(pyval \<Rightarrow> string) \<Rightarrow> pyval \<Rightarrow> exn + agent_state" where
  "parse_agent_state repr_of v =
     (case find (\<lambda>s. v = PStr (agent_state_value s)) [Running, Paused_human, Forked, Merged, Agent_completed, Agent_failed] of
        Some s \<Rightarrow> Inr s
      | None \<Rightarrow> Inl (ValueErr (repr_of v @ '' is not a valid AgentState'')))"

record fork_options = fo_at_turn :: int  fo_branch_name :: string
record fork_result = fr_branch_id :: pyval  fr_content_id :: pyval  fr_parent_id :: pyval
record merge_options = mo_branch_a :: string  mo_branch_b :: string  mo_strategy :: merge_strategy
record merge_result = mr_merged_id :: pyval  mr_conflicts :: pyval
record resume_decision = rd_approved :: bool  rd_comment :: string  rd_metadata :: pydict
record replay_options = po_from_turn :: int  po_mock_providers :: pydict
record divergence = dv_turn :: pyval  dv_expected :: pyval  dv_actual :: pyval  dv_reason :: pyval
record replay_result = pr_steps :: pyval  pr_divergences :: "divergence list"  pr_deterministic :: pyval

text \<open>Records of the protocol that the client itself does not send.\<close>

record tool_call =
  tc_tool_id :: string
  tc_tool_name :: string
  tc_provider :: string
  tc_args :: pydict
  tc_result :: pyval
  tc_error :: "string option"
  tc_duration_ms :: int

record memory_node =
  mn_content_id :: string
  mn_parents :: "string list"
  mn_node_type :: string
  mn_payload :: pydict

definition default_fork :: fork_options where
  "default_fork = \<lparr>fo_at_turn = 0, fo_branch_name = []\<rparr>"

definition default_merge :: merge_options where
  "default_merge = \<lparr>mo_branch_a = [], mo_branch_b = [], mo_strategy = Ours\<rparr>"

definition default_resume :: resume_decision where
  "default_resume = \<lparr>rd_approved = True, rd_comment = [], rd_metadata = []\<rparr>"

definition default_replay :: replay_options where
  "default_replay = \<lparr>po_from_turn = 0, po_mock_providers = []\<rparr>"

definition or_default :: "'a option \<Rightarrow> 'a \<Rightarrow> 'a" where
  "or_default x d = (case x of None \<Rightarrow> d | Some v \<Rightarrow> v)"

subsection \<open>Transports\<close>

type_synonym 'w agent_request = "string \<Rightarrow> string \<Rightarrow> pydict option \<Rightarrow> ('w, pyval) io"

definition legacy_request :: "string \<Rightarrow> (string \<Rightarrow> pydict \<Rightarrow> ('w, pyval) io) \<Rightarrow> (string \<Rightarrow> ('w, pyval) io) \<Rightarrow> 'w agent_request" where
  "legacy_request base_url post get method path body = (let url = base_url @ ''/ojs/v1'' @ path in
     if method = ''POST'' then post url (or_default body [])
     else if method = ''GET'' then get url
     else raiseIO (ValidationErr (''agent: unsupported HTTP method '' @ repr_str method)))"

text \<open>\<open>AgentClient.__init__\<close>: trailing slashes of the base URL are dropped.\<close>

definition strip_slashes :: "string \<Rightarrow> string" where
  "strip_slashes s = rstrip_char CHR ''/'' s"

definition legacy_client :: "string \<Rightarrow> (string \<Rightarrow> pydict \<Rightarrow> ('w, pyval) io) \<Rightarrow> (string \<Rightarrow> ('w, pyval) io) \<Rightarrow> 'w agent_request" where
  "legacy_client base_url = legacy_request (strip_slashes base_url)"

definition agent_endpoint :: "string \<Rightarrow> string \<Rightarrow> string" where
  "agent_endpoint job_id operation = ''/agents/'' @ quote_str job_id @ ''/'' @ operation"

subsection \<open>Operations\<close>

definition agent_post :: "'w agent_request \<Rightarrow> string \<Rightarrow> pydict \<Rightarrow> ('w, pyval) io" where
  "agent_post rq path body = rq ''POST'' path (Some body)"

definition agent_get :: "'w agent_request \<Rightarrow> string \<Rightarrow> ('w, pyval) io" where
  "agent_get rq path = rq ''GET'' path None"

definition agent_fork :: "'w agent_request \<Rightarrow> string \<Rightarrow> fork_options option \<Rightarrow> ('w, fork_result) io" where
  "agent_fork rq job_id options = (if job_id = [] then raiseIO (ValidationErr ''agent: job_id required for fork'')
     else let p = or_default options default_fork in
       if fo_at_turn p < 0 then raiseIO (ValidationErr ''agent: at_turn must be >= 0'')
       else bindIO (agent_post rq (agent_endpoint job_id ''fork'')
             [(PStr ''at_turn'', PInt (fo_at_turn p)), (PStr ''branch_name'', PStr (fo_branch_name p))]) (\<lambda>data.
         liftIO (bindR (get_key data ''branch_id'' (PStr [])) (\<lambda>b. bindR (get_key data ''content_id'' (PStr [])) (\<lambda>c.
           bindR (get_key data ''parent_id'' (PStr [])) (\<lambda>q. Inr \<lparr>fr_branch_id = b, fr_content_id = c, fr_parent_id = q\<rparr>))))))"

definition agent_merge :: "'w agent_request \<Rightarrow> string \<Rightarrow> merge_options option \<Rightarrow> ('w, merge_result) io" where
  "agent_merge rq job_id options = (if job_id = [] then raiseIO (ValidationErr ''agent: job_id required for merge'')
     else let p = or_default options default_merge in
       if mo_branch_a p = [] then raiseIO (ValidationErr ''agent: branch_a required for merge'')
       else if mo_branch_b p = [] then raiseIO (ValidationErr ''agent: branch_b required for merge'')
       else bindIO (agent_post rq (agent_endpoint job_id ''merge'')
             [(PStr ''branch_a'', PStr (mo_branch_a p)), (PStr ''branch_b'', PStr (mo_branch_b p)),
              (PStr ''strategy'', PStr (strategy_value (mo_strategy p)))]) (\<lambda>data.
         liftIO (bindR (get_key data ''merged_id'' (PStr [])) (\<lambda>i. bindR (get_key data ''conflicts'' (PList [])) (\<lambda>c.
           Inr \<lparr>mr_merged_id = i, mr_conflicts = c\<rparr>)))))"

definition agent_pause :: "'w agent_request \<Rightarrow> string \<Rightarrow> string \<Rightarrow> ('w, unit) io" where
  "agent_pause rq job_id reason = (if job_id = [] then raiseIO (ValidationErr ''agent: job_id required for pause'')
     else bindIO (agent_post rq (agent_endpoint job_id ''pause'') [(PStr ''reason'', PStr reason)]) (\<lambda>_. retIO ()))"

definition agent_resume :: "'w agent_request \<Rightarrow> string \<Rightarrow> resume_decision option \<Rightarrow> ('w, unit) io" where
  "agent_resume rq job_id decision = (if job_id = [] then raiseIO (ValidationErr ''agent: job_id required for resume'')
     else let d = or_default decision default_resume in
       bindIO (agent_post rq (agent_endpoint job_id ''resume'')
         [(PStr ''approved'', PBool (rd_approved d)), (PStr ''comment'', PStr (rd_comment d)),
          (PStr ''metadata'', PDict (rd_metadata d))]) (\<lambda>_. retIO ()))"

definition decode_divergence :: "pyval \<Rightarrow> exn + divergence" where
  "decode_divergence d =
     bindR (get_key d ''turn'' (PInt 0)) (\<lambda>t. bindR (get_key d ''expected'' (PStr [])) (\<lambda>e.
     bindR (get_key d ''actual'' (PStr [])) (\<lambda>a. bindR (get_key d ''reason'' (PStr [])) (\<lambda>r.
       Inr \<lparr>dv_turn = t, dv_expected = e, dv_actual = a, dv_reason = r\<rparr>))))"

definition decode_replay :: "pyval \<Rightarrow> exn + replay_result" where
  "decode_replay data =
     bindR (get_key data ''divergences'' (PList [])) (\<lambda>ds.
     bindR (py_list ds) (\<lambda>raw.
     bindR (mapR decode_divergence raw) (\<lambda>divs.
     bindR (get_key data ''steps'' (PInt 0)) (\<lambda>steps.
     bindR (get_key data ''deterministic'' (PBool (divs = []))) (\<lambda>det.
       Inr \<lparr>pr_steps = steps, pr_divergences = divs, pr_deterministic = det\<rparr>)))))"

definition agent_replay :: "'w agent_request \<Rightarrow> string \<Rightarrow> replay_options option \<Rightarrow> ('w, replay_result) io" where
  "agent_replay rq job_id options = (if job_id = [] then raiseIO (ValidationErr ''agent: job_id required for replay'')
     else let p = or_default options default_replay in
       bindIO (agent_post rq (agent_endpoint job_id ''replay'')
         [(PStr ''from_turn'', PInt (po_from_turn p)), (PStr ''mock_providers'', PDict (po_mock_providers p))]) (\<lambda>data.
         liftIO (decode_replay data)))"

definition agent_get_state :: "(pyval \<Rightarrow> string) \<Rightarrow> 'w agent_request \<Rightarrow> string \<Rightarrow> ('w, agent_state) io" where
  "agent_get_state repr_of rq job_id = (if job_id = [] then raiseIO (ValidationErr ''agent: job_id required for state lookup'')
     else bindIO (agent_get rq (agent_endpoint job_id ''state'')) (\<lambda>data.
       liftIO (bindR (get_key data ''state'' (PStr ''running'')) (parse_agent_state repr_of))))"

text \<open>\<open>close\<close>: only a transport the client made is closed, and only once.\<close>

definition agent_close :: "('w, unit) io \<Rightarrow> bool \<Rightarrow> 'w \<Rightarrow> (exn + unit) \<times> bool \<times> 'w" where
  "agent_close close_transport owned w = (if owned
     then (case close_transport w of (Inr _, w') \<Rightarrow> (Inr (), False, w') | (Inl e, w') \<Rightarrow> (Inl e, True, w'))
     else (Inr (), False, w))"

subsection \<open>The deprecated decorator\<close>

text \<open>
  \<open>@durable(policy, checkpoint_every)\<close>: the interval is checked (an int that is not a bool and at least 1),
  a warning is issued (a filter may turn it into an exception: \<open>warn\<close>), and the decorated function is
  called as it is, with four attributes on the wrapper.
\<close>

record 'f durable_function =
  df_call :: 'f
  df_durable :: bool
  df_semantics :: string
  df_policy :: pydict
  df_checkpoint_every :: int

definition agent_durable :: "(exn + unit) \<Rightarrow> pydict option \<Rightarrow> pyval \<Rightarrow> exn + ('f \<Rightarrow> 'f durable_function)" where
  "agent_durable warn policy checkpoint_every = (case checkpoint_every of
     PInt n \<Rightarrow> if n < 1 then Inl (ValueErr ''checkpoint_every must be a positive integer'')
       else bindR warn (\<lambda>_. Inr (\<lambda>f. \<lparr>df_call = f, df_durable = True, df_semantics = ''deprecated-passthrough'',
              df_policy = or_default policy [], df_checkpoint_every = n\<rparr>))
   | _ \<Rightarrow> Inl (ValueErr ''checkpoint_every must be a positive integer''))"

lemma agent_durable_passthrough:
  "agent_durable warn policy c = Inr d \<Longrightarrow> df_call (d f) = f \<and> (\<exists>n. c = PInt n \<and> 1 \<le> n \<and> df_checkpoint_every (d f) = n)"
  by (auto simp: agent_durable_def bindR_eq_Inr_iff split: pyval.splits if_splits)

subsection \<open>What reaches the server\<close>

text \<open>Endpoints of different jobs or operations are different paths.\<close>

lemma agent_endpoint_inj:
  "agent_endpoint i p = agent_endpoint j q \<longleftrightarrow> i = j \<and> p = q"
  using quoted_segment[of i p j q] by (simp add: agent_endpoint_def)

text \<open>
  Replay reports: an answer is decoded only when \<open>divergences\<close> is a list of objects, each of which gives
  one divergence in order with the missing fields empty; and unless the server says otherwise, the
  replay is deterministic exactly when there are none.  Every path names one job and one operation: the
  paths of two calls agree only when both do, whatever characters the job ids contain.
\<close>

theorem agent_replay_spec:
  "(\<forall>r. decode_replay data = Inr r \<longrightarrow> (\<exists>d. data = PDict d
      \<and> (\<exists>raw. py_list (dget_default d ''divergences'' (PList [])) = Inr raw
           \<and> list_all2 (\<lambda>v x. \<exists>e. v = PDict e \<and> dv_turn x = dget_default e ''turn'' (PInt 0)
                \<and> dv_expected x = dget_default e ''expected'' (PStr []) \<and> dv_actual x = dget_default e ''actual'' (PStr [])
                \<and> dv_reason x = dget_default e ''reason'' (PStr [])) raw (pr_divergences r))
      \<and> pr_deterministic r = dget_default d ''deterministic'' (PBool (pr_divergences r = []))))
   \<and> (agent_endpoint i p = agent_endpoint j q \<longleftrightarrow> i = j \<and> p = q)"
proof -
  have div: "decode_divergence v = Inr x \<Longrightarrow> \<exists>e. v = PDict e \<and> dv_turn x = dget_default e ''turn'' (PInt 0)
                \<and> dv_expected x = dget_default e ''expected'' (PStr []) \<and> dv_actual x = dget_default e ''actual'' (PStr [])
                \<and> dv_reason x = dget_default e ''reason'' (PStr [])" for v x
    by (cases v) (auto simp: decode_divergence_def get_key_def)
  have "\<exists>d. data = PDict d
      \<and> (\<exists>raw. py_list (dget_default d ''divergences'' (PList [])) = Inr raw
           \<and> list_all2 (\<lambda>v x. \<exists>e. v = PDict e \<and> dv_turn x = dget_default e ''turn'' (PInt 0)
                \<and> dv_expected x = dget_default e ''expected'' (PStr []) \<and> dv_actual x = dget_default e ''actual'' (PStr [])
                \<and> dv_reason x = dget_default e ''reason'' (PStr [])) raw (pr_divergences r))
      \<and> pr_deterministic r = dget_default d ''deterministic'' (PBool (pr_divergences r = []))"
    if r: "decode_replay data = Inr r" for r
  proof -
    obtain d where d: "data = PDict d" using r by (cases data) (auto simp: decode_replay_def get_key_def)
    obtain raw where raw: "py_list (dget_default d ''divergences'' (PList [])) = Inr raw"
      "mapR decode_divergence raw = Inr (pr_divergences r)"
      "pr_deterministic r = dget_default d ''deterministic'' (PBool (pr_divergences r = []))"
      using r unfolding d by (auto simp: decode_replay_def get_key_def bindR_eq_Inr_iff)
    have "list_all2 (\<lambda>v x. \<exists>e. v = PDict e \<and> dv_turn x = dget_default e ''turn'' (PInt 0)
                \<and> dv_expected x = dget_default e ''expected'' (PStr []) \<and> dv_actual x = dget_default e ''actual'' (PStr [])
                \<and> dv_reason x = dget_default e ''reason'' (PStr [])) raw (pr_divergences r)"
      using raw(2) div unfolding mapR_Inr_iff by (rule list_all2_mono)
    then show ?thesis using d raw(1,3) by blast
  qed
  then show ?thesis unfolding agent_endpoint_inj by simp
qed

end
