(* ===== verification/Base64.thy ===== *)
theory Base64
  imports Errors
begin

section \<open>Base64\<close>

text \<open>
  \<open>base64.b64encode\<close> and \<open>base64.b64decode\<close> of the standard library, which the encryption middleware
  uses: bytes are natural numbers below 256, decoding is the permissive one (characters outside the
  alphabet are skipped, and a complete padding ends the input).
\<close>

definition sextet_char :: "nat \<Rightarrow> char" where
  "sextet_char n = char_of (if n < 26 then 65 + n else if n < 52 then 71 + n else if n < 62 then n - 4
     else if n = 62 then 43 else 47)"

definition sextet_val :: "char \<Rightarrow> nat option" where
  "sextet_val c = (let n = (of_char c :: nat) in
     if 65 \<le> n \<and> n \<le> 90 then Some (n - 65) else if 97 \<le> n \<and> n \<le> 122 then Some (n - 71)
     else if 48 \<le> n \<and> n \<le> 57 then Some (n + 4) else if n = 43 then Some 62 else if n = 47 then Some 63 else None)"

fun b64encode :: "nat list \<Rightarrow> string" where
  "b64encode (a # b # c # bs) = [sextet_char (a div 4), sextet_char (a mod 4 * 16 + b div 16),
     sextet_char (b mod 16 * 4 + c div 64), sextet_char (c mod 64)] @ b64encode bs"
| "b64encode [a, b] = [sextet_char (a div 4), sextet_char (a mod 4 * 16 + b div 16), sextet_char (b mod 16 * 4), CHR ''='']"
| "b64encode [a] = [sextet_char (a div 4), sextet_char (a mod 4 * 16), CHR ''='', CHR ''='']"
| "b64encode [] = []"

text \<open>
  The loop of the decoder: \<open>quad\<close> is the position in the group of four, \<open>pads\<close> the padding characters
  seen in a row, \<open>left\<close> the bits not yet written, \<open>out\<close> the bytes written.
\<close>

fun b64_loop :: "nat \<Rightarrow> nat \<Rightarrow> nat \<Rightarrow> nat list \<Rightarrow> string \<Rightarrow> exn + nat list" where
  "b64_loop quad pads left out [] = (if quad = 0 then Inr out
     else if quad = 1 then Inl (ValueErr (''Invalid base64-encoded string: number of data characters ('' @
       string_of_nat (length out div 3 * 4 + 1) @ '') cannot be 1 more than a multiple of 4''))
     else Inl (ValueErr ''Incorrect padding''))"
| "b64_loop quad pads left out (c # cs) =
     (if c = CHR ''='' then
        (if 2 \<le> quad then (if 4 \<le> quad + (pads + 1) then Inr out else b64_loop quad (pads + 1) left out cs)
         else b64_loop quad pads left out cs)
      else case sextet_val c of
        None \<Rightarrow> b64_loop quad pads left out cs
      | Some v \<Rightarrow>
          if quad = 0 then b64_loop 1 0 v out cs
          else if quad = 1 then b64_loop 2 0 (v mod 16) (out @ [left * 4 + v div 16]) cs
          else if quad = 2 then b64_loop 3 0 (v mod 4) (out @ [left * 16 + v div 4]) cs
          else b64_loop 0 0 0 (out @ [left * 64 + v]) cs)"

definition b64decode :: "string \<Rightarrow> exn + nat list" where
  "b64decode s = (if list_ex (\<lambda>c. 128 \<le> (of_char c :: nat)) s
     then Inl (ValueErr ''string argument should contain only ASCII characters'') else b64_loop 0 0 0 [] s)"

lemma sextet_code:
  "n < 64 \<Longrightarrow> (of_char (sextet_char n) :: nat) =
     (if n < 26 then 65 + n else if n < 52 then 71 + n else if n < 62 then n - 4 else if n = 62 then 43 else 47)"
  by (simp add: sextet_char_def)

lemma sextet_simps [simp]:
  assumes "n < 64"
  shows "sextet_val (sextet_char n) = Some n" "sextet_char n \<noteq> CHR ''=''" "(of_char (sextet_char n) :: nat) < 128"
proof -
  show "sextet_val (sextet_char n) = Some n"
    using assms unfolding sextet_val_def Let_def sextet_code[OF assms] by auto
  have "(of_char (sextet_char n) :: nat) \<noteq> 61" "(of_char (sextet_char n) :: nat) < 128"
    using assms unfolding sextet_code[OF assms] by auto
  moreover have "(of_char (CHR ''='') :: nat) = 61" by simp
  ultimately show "sextet_char n \<noteq> CHR ''=''" "(of_char (sextet_char n) :: nat) < 128" by metis+
qed

definition bytes_ok :: "nat list \<Rightarrow> bool" where
  "bytes_ok bs \<longleftrightarrow> (\<forall>b \<in> set bs. b < 256)"

lemma byte_bounds:
  fixes a b c :: nat
  assumes "a < 256" "b < 256" "c < 256"
  shows "a div 4 < 64" "a mod 4 * 16 + b div 16 < 64" "b mod 16 * 4 + c div 64 < 64" "c mod 64 < 64"
    "a mod 4 * 16 < 64" "b mod 16 * 4 < 64"
proof -
  have "a mod 4 < 4" "b mod 16 < 16" "b div 16 < 16" "c div 64 < 4" using assms by auto
  then show "a div 4 < 64" "a mod 4 * 16 + b div 16 < 64" "b mod 16 * 4 + c div 64 < 64" "c mod 64 < 64"
    "a mod 4 * 16 < 64" "b mod 16 * 4 < 64"
    using assms by linarith+
qed

lemma byte_pieces:
  fixes a b c :: nat
  assumes "a < 256" "b < 256" "c < 256"
  shows "a div 4 * 4 + (a mod 4 * 16 + b div 16) div 16 = a"
    "(a mod 4 * 16 + b div 16) mod 16 * 16 + (b mod 16 * 4 + c div 64) div 4 = b"
    "(b mod 16 * 4 + c div 64) mod 4 * 64 + c mod 64 = c"
    "a div 4 * 4 + (a mod 4 * 16) div 16 = a" "(a mod 4 * 16 + b div 16) mod 16 * 16 + (b mod 16 * 4) div 4 = b"
proof -
  have q: "(x * k + y) div k = x" "(x * k + y) mod k = y" if "y < k" for x y k :: nat
    using that by simp_all
  have "b div 16 < 16" "c div 64 < 4" using assms by auto
  then show "a div 4 * 4 + (a mod 4 * 16 + b div 16) div 16 = a"
    "(a mod 4 * 16 + b div 16) mod 16 * 16 + (b mod 16 * 4 + c div 64) div 4 = b"
    "(b mod 16 * 4 + c div 64) mod 4 * 64 + c mod 64 = c"
    "a div 4 * 4 + (a mod 4 * 16) div 16 = a" "(a mod 4 * 16 + b div 16) mod 16 * 16 + (b mod 16 * 4) div 4 = b"
    by (simp_all only: q) simp_all
qed

lemma b64_loop_encode: "bytes_ok bs \<Longrightarrow> b64_loop 0 0 0 out (b64encode bs) = Inr (out @ bs)"
proof (induction bs arbitrary: out rule: b64encode.induct)
  case (1 a b c bs)
  then show ?case using byte_bounds[of a b c] byte_pieces[of a b c] by (simp add: bytes_ok_def)
next
  case (2 a b)
  then show ?case using byte_bounds[of a b 0] byte_pieces[of a b 0] by (simp add: bytes_ok_def)
next
  case (3 a)
  then show ?case using byte_bounds[of a 0 0] byte_pieces[of a 0 0] by (simp add: bytes_ok_def)
qed simp

lemma b64encode_ascii: "bytes_ok bs \<Longrightarrow> c \<in> set (b64encode bs) \<Longrightarrow> (of_char c :: nat) < 128"
proof (induction bs rule: b64encode.induct)
  case (1 a b c' bs)
  then show ?case using byte_bounds[of a b c'] by (auto simp: bytes_ok_def)
next
  case (2 a b)
  then show ?case using byte_bounds[of a b 0] by (auto simp: bytes_ok_def)
next
  case (3 a)
  then show ?case using byte_bounds[of a 0 0] by (auto simp: bytes_ok_def)
qed simp

lemma b64_roundtrip: "bytes_ok bs \<Longrightarrow> b64decode (b64encode bs) = Inr bs"
  using b64_loop_encode[of bs "[]"] b64encode_ascii[of bs]
  by (force simp: b64decode_def list_ex_iff not_le)

lemma b64encode_nonempty: "b64encode bs = [] \<longleftrightarrow> bs = []"
  by (cases bs rule: b64encode.cases) simp_all

end
