(* ===== verification/Attest.thy ===== *)
theory Attest
  imports Base64 Pyval
begin

section \<open>Attestation receipts\<close>

text \<open>
  \<open>src/ojs/attest\<close>: the canonical payload, the attestors and the verifier of receipts.  The keyed hash
  (HMAC-SHA256, as a hexadecimal text), the ISO text of a UTC instant, the clock and the bytes of a nonce
  are arguments.  The payload is modelled as the bytes \<open>json.dumps\<close> and \<open>encode\<close> produce, with the
  escapes of JSON and the UTF-8 form of every character code below 256, so that what the signature covers
  can be read back from it.  Instants are compared by their UTC time.
\<close>

subsection \<open>JSON text\<close>

definition hex_char :: "nat \<Rightarrow> char" where
  "hex_char n = char_of (if n < 10 then 48 + n else 87 + n)"

definition json_escape :: "char \<Rightarrow> string" where
  "json_escape c = (let n = (of_char c :: nat) in
     if n = 34 then [CHR 0x5C, c] else if n = 92 then [CHR 0x5C, c]
     else if n = 8 then [CHR 0x5C, CHR ''b''] else if n = 9 then [CHR 0x5C, CHR ''t'']
     else if n = 10 then [CHR 0x5C, CHR ''n''] else if n = 12 then [CHR 0x5C, CHR ''f'']
     else if n = 13 then [CHR 0x5C, CHR ''r'']
     else if n < 32 then [CHR 0x5C, CHR ''u'', CHR ''0'', CHR ''0'', hex_char (n div 16), hex_char (n mod 16)]
     else [c])"

definition json_string :: "string \<Rightarrow> string" where
  "json_string s = [CHR 0x22] @ concat (map json_escape s) @ [CHR 0x22]"

definition utf8_char :: "char \<Rightarrow> nat list" where
  "utf8_char c = (let n = (of_char c :: nat) in if n < 128 then [n] else [192 + n div 64, 128 + n mod 64])"

definition utf8 :: "string \<Rightarrow> nat list" where
  "utf8 s = concat (map utf8_char s)"

subsection \<open>The data\<close>

datatype attest_error = Receipt_verification_error string | Not_available_error | Value_error string | Type_error string

record attest_input =
  ai_job_id :: string
  ai_job_type :: string
  ai_args_hash :: string
  ai_result_hash :: string
  ai_timestamp :: pydatetime
  ai_receipt_id :: string

record quote =
  qt_type :: string
  qt_evidence :: "nat list"
  qt_nonce :: string
  qt_issued_at :: pydatetime

record jurisdiction =
  ju_region :: string
  ju_datacenter :: string
  ju_prover :: string

record model_fingerprint =
  mf_sha256 :: string
  mf_registry_url :: string

record signature =
  sg_algorithm :: string
  sg_value :: string
  sg_key_id :: string

record attest_result =
  ar_quote :: "quote option"
  ar_jurisdiction :: "jurisdiction option"
  ar_model :: "model_fingerprint option"
  ar_signature :: signature

record receipt =
  rc_job_id :: string
  rc_signature :: signature
  rc_issued_at :: pydatetime
  rc_quote :: "quote option"
  rc_jurisdiction :: "jurisdiction option"
  rc_model :: "model_fingerprint option"
  rc_job_type :: string
  rc_args_hash :: string
  rc_result_hash :: string
  rc_receipt_id :: string

definition refuse :: "string \<Rightarrow> attest_error + 'a" where
  "refuse msg = Inl (Receipt_verification_error (''attest: '' @ msg))"

definition to_receipt :: "attest_result \<Rightarrow> attest_input \<Rightarrow> string \<Rightarrow> attest_error + receipt" where
  "to_receipt res env receipt_id = (let resolved = (if receipt_id = [] then ai_receipt_id env else receipt_id) in
     if resolved \<noteq> ai_receipt_id env
     then Inl (Value_error ''receipt_id must be supplied on AttestInput before attestation'')
     else Inr \<lparr>rc_job_id = ai_job_id env, rc_signature = ar_signature res,
       rc_issued_at = (case ar_quote res of Some q \<Rightarrow> qt_issued_at q | None \<Rightarrow> ai_timestamp env),
       rc_quote = ar_quote res, rc_jurisdiction = ar_jurisdiction res, rc_model = ar_model res,
       rc_job_type = ai_job_type env, rc_args_hash = ai_args_hash env, rc_result_hash = ai_result_hash env,
       rc_receipt_id = resolved\<rparr>)"

subsection \<open>The canonical payload\<close>

definition aware :: "pydatetime \<Rightarrow> attest_error + int" where
  "aware t = (case t of AwareDT u off \<Rightarrow> Inr u | NaiveDT _ \<Rightarrow> refuse ''timestamps must be timezone-aware'')"

definition entry_text :: "string \<Rightarrow> string \<Rightarrow> string" where
  "entry_text k v = json_string k @ '':'' @ v"

definition jurisdiction_text :: "jurisdiction option \<Rightarrow> string" where
  "jurisdiction_text x = (case x of None \<Rightarrow> ''null''
   | Some j \<Rightarrow> ''{'' @ entry_text ''datacenter'' (json_string (ju_datacenter j)) @ '','' @ entry_text ''prover'' (json_string (ju_prover j))
       @ '','' @ entry_text ''region'' (json_string (ju_region j)) @ ''}'')"

definition model_text :: "model_fingerprint option \<Rightarrow> string" where
  "model_text x = (case x of None \<Rightarrow> ''null''
   | Some m \<Rightarrow> ''{'' @ entry_text ''registry_url'' (json_string (mf_registry_url m))
       @ '','' @ entry_text ''sha256'' (json_string (mf_sha256 m)) @ ''}'')"

definition payload_text :: "attest_input \<Rightarrow> string \<Rightarrow> string \<Rightarrow> string \<Rightarrow> string \<Rightarrow> string \<Rightarrow> string \<Rightarrow> string
    \<Rightarrow> jurisdiction option \<Rightarrow> model_fingerprint option \<Rightarrow> string" where
  "payload_text env quote_type nonce issued stamp algorithm key_id receipt_id ju mf =
     ''{'' @ entry_text ''algorithm'' (json_string algorithm)
     @ '','' @ entry_text ''args_hash'' (json_string (ai_args_hash env))
     @ '','' @ entry_text ''issued_at'' (json_string issued)
     @ '','' @ entry_text ''job_id'' (json_string (ai_job_id env))
     @ '','' @ entry_text ''job_type'' (json_string (ai_job_type env))
     @ '','' @ entry_text ''jurisdiction'' (jurisdiction_text ju)
     @ '','' @ entry_text ''key_id'' (json_string key_id)
     @ '','' @ entry_text ''model_fingerprint'' (model_text mf)
     @ '','' @ entry_text ''nonce'' (json_string nonce)
     @ '','' @ entry_text ''quote_type'' (json_string quote_type)
     @ '','' @ entry_text ''receipt_id'' (json_string receipt_id)
     @ '','' @ entry_text ''result_hash'' (json_string (ai_result_hash env))
     @ '','' @ entry_text ''timestamp'' (json_string stamp)
     @ '','' @ entry_text ''version'' (json_string ''ojs-attest-v1'') @ ''}''"

definition canonical_payload :: "(int \<Rightarrow> string) \<Rightarrow> attest_input \<Rightarrow> string \<Rightarrow> string \<Rightarrow> pydatetime \<Rightarrow> string \<Rightarrow> string \<Rightarrow> string
    \<Rightarrow> jurisdiction option \<Rightarrow> model_fingerprint option \<Rightarrow> attest_error + nat list" where
  "canonical_payload fmt env quote_type nonce issued_at algorithm key_id receipt_id ju mf =
     bindR (aware issued_at) (\<lambda>i. bindR (aware (ai_timestamp env)) (\<lambda>t.
       Inr (utf8 (payload_text env quote_type nonce (fmt i) (fmt t) algorithm key_id receipt_id ju mf))))"

subsection \<open>The verifier\<close>

text \<open>
  \<open>token_hex(16)\<close> of sixteen random bytes, and whether \<open>bytes.fromhex\<close> accepts a text: pairs of
  hexadecimal digits, with white space allowed before, between and after them.
\<close>

definition new_nonce :: "nat list \<Rightarrow> string" where
  "new_nonce bs = concat (map (\<lambda>b. [hex_char (b div 16), hex_char (b mod 16)]) bs)"

definition is_hex :: "char \<Rightarrow> bool" where
  "is_hex c \<longleftrightarrow> (let n = (of_char c :: nat) in 48 \<le> n \<and> n \<le> 57 \<or> 97 \<le> n \<and> n \<le> 102 \<or> 65 \<le> n \<and> n \<le> 70)"

definition is_blank :: "char \<Rightarrow> bool" where
  "is_blank c \<longleftrightarrow> (let n = (of_char c :: nat) in n = 32 \<or> 9 \<le> n \<and> n \<le> 13)"

fun fromhex_ok :: "string \<Rightarrow> bool" where
  "fromhex_ok [] = True"
| "fromhex_ok [c] = is_blank c"
| "fromhex_ok (c # d # s) = (if is_blank c then fromhex_ok (d # s) else is_hex c \<and> is_hex d \<and> fromhex_ok s)"

text \<open>\<open>hmac.compare_digest\<close> of two texts.\<close>

definition is_ascii :: "string \<Rightarrow> bool" where
  "is_ascii s \<longleftrightarrow> list_all (\<lambda>c. (of_char c :: nat) < 128) s"

definition compare_digest :: "string \<Rightarrow> string \<Rightarrow> attest_error + bool" where
  "compare_digest s t = (if is_ascii s \<and> is_ascii t then Inr (s = t)
     else Inl (Type_error ''comparing strings with non-ASCII characters is not supported''))"

text \<open>\<open>==\<close> of two datetimes.\<close>

fun same_time :: "pydatetime \<Rightarrow> pydatetime \<Rightarrow> bool" where
  "same_time (AwareDT u _) (AwareDT v _) = (u = v)"
| "same_time (NaiveDT u) (NaiveDT v) = (u = v)"
| "same_time _ _ = False"

record verifier =
  vf_secret :: "nat list"
  vf_key_id :: string
  vf_max_age :: "int option"
  vf_max_future_skew :: int

type_synonym mac = "nat list \<Rightarrow> nat list \<Rightarrow> string"

definition default_verifier :: "nat list \<Rightarrow> string \<Rightarrow> verifier" where
  "default_verifier secret key_id = \<lparr>vf_secret = secret, vf_key_id = key_id, vf_max_age = Some 300000000,
     vf_max_future_skew = 30000000\<rparr>"

definition check :: "bool \<Rightarrow> string \<Rightarrow> attest_error + unit" where
  "check b msg = (if b then Inr () else refuse msg)"

definition verify_claims :: "verifier \<Rightarrow> receipt \<Rightarrow> attest_input \<Rightarrow> quote \<Rightarrow> attest_error + unit" where
  "verify_claims v r env q =
     bindR (check (rc_job_id r = ai_job_id env) ''receipt job_id mismatch'') (\<lambda>_.
     bindR (check (rc_job_type r = ai_job_type env) ''receipt job_type mismatch'') (\<lambda>_.
     bindR (check (rc_args_hash r = ai_args_hash env) ''receipt args_hash mismatch'') (\<lambda>_.
     bindR (check (rc_result_hash r = ai_result_hash env) ''receipt result_hash mismatch'') (\<lambda>_.
     bindR (check (rc_receipt_id r = ai_receipt_id env) ''receipt_id mismatch'') (\<lambda>_.
     bindR (check (sg_algorithm (rc_signature r) = ''hmac-sha256'') ''unexpected signature algorithm'') (\<lambda>_.
     bindR (check (sg_key_id (rc_signature r) = vf_key_id v) ''unexpected signing key'') (\<lambda>_.
     bindR (check (same_time (rc_issued_at r) (qt_issued_at q)) ''receipt and quote timestamps differ'') (\<lambda>_.
     bindR (check (same_time (qt_issued_at q) (ai_timestamp env)) ''quote timestamp does not match envelope'') (\<lambda>_.
     bindR (check (32 \<le> length (qt_nonce q)) ''quote nonce is too short'') (\<lambda>_.
       check (fromhex_ok (qt_nonce q)) ''quote nonce is not hexadecimal''))))))))))"

definition verify_freshness :: "verifier \<Rightarrow> pydatetime \<Rightarrow> quote \<Rightarrow> attest_error + unit" where
  "verify_freshness v clock q = bindR (aware clock) (\<lambda>now. bindR (aware (qt_issued_at q)) (\<lambda>issued.
     bindR (check (issued - now \<le> vf_max_future_skew v) ''quote timestamp is in the future'') (\<lambda>_.
       check (case vf_max_age v of None \<Rightarrow> True | Some age \<Rightarrow> now - issued \<le> age) ''quote is stale'')))"

definition verify_receipt :: "(int \<Rightarrow> string) \<Rightarrow> mac \<Rightarrow> pydatetime \<Rightarrow> verifier \<Rightarrow> receipt \<Rightarrow> attest_input \<Rightarrow> attest_error + unit" where
  "verify_receipt fmt mac clock v r env = (case rc_quote r of
     None \<Rightarrow> refuse ''receipt has no quote''
   | Some q \<Rightarrow>
       bindR (verify_claims v r env q) (\<lambda>_.
       bindR (canonical_payload fmt env (qt_type q) (qt_nonce q) (qt_issued_at q) (sg_algorithm (rc_signature r))
          (sg_key_id (rc_signature r)) (rc_receipt_id r) (rc_jurisdiction r) (rc_model r)) (\<lambda>payload.
       bindR (check (payload = qt_evidence q) ''quote evidence does not match the claimed envelope'') (\<lambda>_.
       bindR (compare_digest (mac (vf_secret v) payload) (sg_value (rc_signature r))) (\<lambda>same.
       bindR (check same ''HMAC-SHA256 signature verification failed'') (\<lambda>_.
         verify_freshness v clock q))))))"

subsection \<open>Attestors\<close>

definition own_envelope :: "receipt \<Rightarrow> quote \<Rightarrow> attest_input" where
  "own_envelope r q = \<lparr>ai_job_id = rc_job_id r, ai_job_type = rc_job_type r, ai_args_hash = rc_args_hash r,
     ai_result_hash = rc_result_hash r, ai_timestamp = qt_issued_at q, ai_receipt_id = rc_receipt_id r\<rparr>"

definition none_attest :: "(int \<Rightarrow> string) \<Rightarrow> string \<Rightarrow> attest_input \<Rightarrow> attest_error + attest_result" where
  "none_attest fmt nonce env =
     bindR (canonical_payload fmt env ''none'' nonce (ai_timestamp env) ''none'' [] (ai_receipt_id env) None None) (\<lambda>evidence.
       Inr \<lparr>ar_quote = Some \<lparr>qt_type = ''none'', qt_evidence = evidence, qt_nonce = nonce, qt_issued_at = ai_timestamp env\<rparr>,
            ar_jurisdiction = None, ar_model = None,
            ar_signature = \<lparr>sg_algorithm = ''none'', sg_value = [], sg_key_id = []\<rparr>\<rparr>)"

definition none_verify :: "(int \<Rightarrow> string) \<Rightarrow> receipt \<Rightarrow> attest_input option \<Rightarrow> attest_error + unit" where
  "none_verify fmt r given = (case rc_quote r of
     None \<Rightarrow> refuse ''receipt has no quote''
   | Some q \<Rightarrow>
       bindR (check (qt_type q = ''none'') ''unexpected quote type'') (\<lambda>_.
       bindR (check (sg_algorithm (rc_signature r) = ''none'' \<and> sg_value (rc_signature r) = [] \<and> sg_key_id (rc_signature r) = [])
          ''invalid no-op signature claims'') (\<lambda>_.
       let env = (case given of Some e \<Rightarrow> e | None \<Rightarrow> own_envelope r q) in
       bindR (check (rc_job_id r = ai_job_id env) ''receipt job_id mismatch'') (\<lambda>_.
       bindR (check (rc_job_type r = ai_job_type env) ''receipt job_type mismatch'') (\<lambda>_.
       bindR (check (rc_args_hash r = ai_args_hash env) ''receipt args_hash mismatch'') (\<lambda>_.
       bindR (check (rc_result_hash r = ai_result_hash env) ''receipt result_hash mismatch'') (\<lambda>_.
       bindR (check (rc_receipt_id r = ai_receipt_id env) ''receipt_id mismatch'') (\<lambda>_.
       bindR (canonical_payload fmt env (qt_type q) (qt_nonce q) (qt_issued_at q) ''none'' [] (ai_receipt_id env)
          (rc_jurisdiction r) (rc_model r)) (\<lambda>expected.
         check (expected = qt_evidence q) ''quote evidence does not match the claimed envelope'')))))))))"

record pqc_attestor =
  pq_secret :: "nat list"
  pq_key_id :: string
  pq_verifier :: verifier

definition new_pqc :: "nat list \<Rightarrow> string \<Rightarrow> int option \<Rightarrow> attest_error + pqc_attestor" where
  "new_pqc secret key_id max_age =
     (if secret = [] then Inl (Value_error ''attest: secret must not be empty'')
      else if key_id = [] then Inl (Value_error ''attest: key_id must not be empty'')
      else Inr \<lparr>pq_secret = secret, pq_key_id = key_id,
        pq_verifier = (default_verifier secret key_id)\<lparr>vf_max_age := max_age\<rparr>\<rparr>)"

definition pqc_attest :: "(int \<Rightarrow> string) \<Rightarrow> mac \<Rightarrow> string \<Rightarrow> pqc_attestor \<Rightarrow> attest_input \<Rightarrow> attest_error + attest_result" where
  "pqc_attest fmt mac nonce a env =
     bindR (canonical_payload fmt env ''pqc-only'' nonce (ai_timestamp env) ''hmac-sha256'' (pq_key_id a) (ai_receipt_id env) None None) (\<lambda>evidence.
       Inr \<lparr>ar_quote = Some \<lparr>qt_type = ''pqc-only'', qt_evidence = evidence, qt_nonce = nonce, qt_issued_at = ai_timestamp env\<rparr>,
            ar_jurisdiction = None, ar_model = None,
            ar_signature = \<lparr>sg_algorithm = ''hmac-sha256'', sg_value = mac (pq_secret a) evidence, sg_key_id = pq_key_id a\<rparr>\<rparr>)"

definition pqc_verify :: "(int \<Rightarrow> string) \<Rightarrow> mac \<Rightarrow> pydatetime \<Rightarrow> pqc_attestor \<Rightarrow> receipt \<Rightarrow> attest_input option \<Rightarrow> attest_error + unit" where
  "pqc_verify fmt mac clock a r given = (case rc_quote r of
     None \<Rightarrow> refuse ''receipt has no quote''
   | Some q \<Rightarrow> verify_receipt fmt mac clock (pq_verifier a) r (case given of Some e \<Rightarrow> e | None \<Rightarrow> own_envelope r q))"

text \<open>The hardware attestors are placeholders.\<close>

datatype hardware = Nitro | Intel_TDX | AMD_SEV

definition hardware_attest :: "hardware \<Rightarrow> attest_input \<Rightarrow> attest_error + attest_result" where
  "hardware_attest h env = Inl Not_available_error"

definition hardware_verify :: "hardware \<Rightarrow> receipt \<Rightarrow> attest_input option \<Rightarrow> attest_error + unit" where
  "hardware_verify h r env = Inl Not_available_error"

subsection \<open>The payload can be read back\<close>

lemma char_code_eq: "(of_char c :: nat) = of_char d \<longleftrightarrow> c = d"
  by (metis char_of_char)

definition utf8_read :: "nat list \<Rightarrow> nat \<times> nat list" where
  "utf8_read bs = (case bs of
     [] \<Rightarrow> (0, [])
   | a # t \<Rightarrow> if a < 128 then (a, t) else (case t of [] \<Rightarrow> (0, []) | b # u \<Rightarrow> (64 * (a - 192) + (b - 128), u)))"

lemma utf8_read_char: "utf8_read (utf8_char c @ r) = (of_char c, r)"
proof -
  have "64 * (n div 64) + n mod 64 = n" for n :: nat by (metis mult.commute div_mult_mod_eq)
  then show ?thesis by (simp add: utf8_read_def utf8_char_def Let_def)
qed

lemma utf8_cancel: "utf8_char c @ r = utf8_char d @ r' \<Longrightarrow> c = d \<and> r = r'"
  using utf8_read_char[of c r] utf8_read_char[of d r'] char_code_eq by (metis Pair_inject)

lemma utf8_inj: "utf8 s = utf8 t \<Longrightarrow> s = t"
proof (induction s arbitrary: t)
  case Nil
  then show ?case by (cases t) (auto simp: utf8_def utf8_char_def Let_def split: if_splits)
next
  case (Cons c s)
  then obtain d u where t: "t = d # u"
    by (cases t) (auto simp: utf8_def utf8_char_def Let_def split: if_splits)
  then have "utf8_char c @ utf8 s = utf8_char d @ utf8 u" using Cons.prems by (simp add: utf8_def)
  then show ?case using utf8_cancel Cons.IH t by blast
qed

definition hex_val :: "char \<Rightarrow> nat" where
  "hex_val c = (if (of_char c :: nat) < 58 then of_char c - 48 else of_char c - 87)"

lemma hex_val_char [simp]: "n < 16 \<Longrightarrow> hex_val (hex_char n) = n"
  by (simp add: hex_val_def hex_char_def)

definition unescape :: "string \<Rightarrow> nat \<times> string" where
  "unescape s = (case s of
     [] \<Rightarrow> (0, [])
   | a # t \<Rightarrow> if (of_char a :: nat) \<noteq> 92 then (of_char a, t)
       else case t of
         [] \<Rightarrow> (0, [])
       | b # u \<Rightarrow> let n = (of_char b :: nat) in
           if n = 34 \<or> n = 92 then (n, u) else if n = 98 then (8, u) else if n = 116 then (9, u)
           else if n = 110 then (10, u) else if n = 102 then (12, u) else if n = 114 then (13, u)
           else (case u of _ # _ # h # l # v \<Rightarrow> (16 * hex_val h + hex_val l, v) | _ \<Rightarrow> (0, [])))"

lemma unescape_escape: "unescape (json_escape c @ r) = (of_char c, r)"
proof -
  define n where "n = (of_char c :: nat)"
  have hex: "16 * hex_val (hex_char (n div 16)) + hex_val (hex_char (n mod 16)) = n" if "n < 32"
  proof -
    have "n div 16 < 16" "n mod 16 < 16" using that by auto
    then show ?thesis by simp
  qed
  show ?thesis using hex unfolding unescape_def json_escape_def Let_def n_def[symmetric]
    by (auto simp: n_def[symmetric])
qed

lemma escape_not_quote: "json_escape c @ r \<noteq> CHR 0x22 # r'"
proof
  assume eq: "json_escape c @ r = CHR 0x22 # r'"
  have "(of_char c, r) = (34 :: nat, r')"
    using unescape_escape[of c r] unfolding eq by (simp add: unescape_def)
  then have "json_escape c = [CHR 0x5C, c]" by (simp add: json_escape_def)
  then show False using eq by simp
qed

lemma escape_cancel: "json_escape c @ r = json_escape d @ r' \<Longrightarrow> c = d \<and> r = r'"
  using unescape_escape[of c r] unescape_escape[of d r'] char_code_eq by (metis Pair_inject)

lemma escaped_cancel:
  "concat (map json_escape s) @ CHR 0x22 # r = concat (map json_escape t) @ CHR 0x22 # r' \<Longrightarrow> s = t \<and> r = r'"
proof (induction s arbitrary: t)
  case Nil
  then show ?case using escape_not_quote[symmetric] by (cases t) auto
next
  case (Cons c s)
  show ?case
  proof (cases t)
    case Nil
    then show ?thesis using Cons.prems escape_not_quote by auto
  next
    case (Cons d u)
    then have "json_escape c @ concat (map json_escape s) @ CHR 0x22 # r
        = json_escape d @ concat (map json_escape u) @ CHR 0x22 # r'"
      using Cons.prems by simp
    then show ?thesis using escape_cancel Cons.IH Cons by blast
  qed
qed

lemma json_string_cancel [simp]: "json_string s @ r = json_string t @ r' \<longleftrightarrow> s = t \<and> r = r'"
  using escaped_cancel[of s r t r'] by (auto simp: json_string_def)

lemma entry_cancel [simp]: "entry_text k v @ r = entry_text k v' @ r' \<longleftrightarrow> v @ r = v' @ r'"
  by (simp add: entry_text_def)

lemma jurisdiction_cancel [simp]: "jurisdiction_text x @ r = jurisdiction_text y @ r' \<longleftrightarrow> x = y \<and> r = r'"
  by (cases x; cases y) (auto simp: jurisdiction_text_def)

lemma model_cancel [simp]: "model_text x @ r = model_text y @ r' \<longleftrightarrow> x = y \<and> r = r'"
  by (cases x; cases y) (auto simp: model_text_def)

lemma entry_json_eq [simp]: "entry_text k (json_string t) = entry_text k (json_string t') \<longleftrightarrow> t = t'"
  using entry_cancel[of k "json_string t" "[]" "json_string t'" "[]"] json_string_cancel[of t "[]" t' "[]"] by simp

lemma payload_text_inj:
  "payload_text e qt n i t alg kid rid ju mf = payload_text e' qt' n' i' t' alg' kid' rid' ju' mf' \<longleftrightarrow>
     alg = alg' \<and> ai_args_hash e = ai_args_hash e' \<and> i = i' \<and> ai_job_id e = ai_job_id e' \<and> ai_job_type e = ai_job_type e'
     \<and> ju = ju' \<and> kid = kid' \<and> mf = mf' \<and> n = n' \<and> qt = qt' \<and> rid = rid' \<and> ai_result_hash e = ai_result_hash e' \<and> t = t'"
  unfolding payload_text_def by auto

lemma canonical_payload_Inr:
  "canonical_payload fmt e qt n i alg kid rid ju mf = Inr p \<longleftrightarrow>
     (\<exists>u off v off'. i = AwareDT u off \<and> ai_timestamp e = AwareDT v off'
        \<and> p = utf8 (payload_text e qt n (fmt u) (fmt v) alg kid rid ju mf))"
  by (cases i; cases "ai_timestamp e") (auto simp: canonical_payload_def aware_def refuse_def)

lemma check_Inr [simp]: "check b msg = Inr u \<longleftrightarrow> b"
  by (simp add: check_def refuse_def)

subsection \<open>What an accepted receipt says\<close>

lemma verify_receipt_iff:
  "verify_receipt fmt mac clock v r e = Inr () \<longleftrightarrow> (\<exists>q now issued.
     rc_quote r = Some q \<and> rc_job_id r = ai_job_id e \<and> rc_job_type r = ai_job_type e
     \<and> rc_args_hash r = ai_args_hash e \<and> rc_result_hash r = ai_result_hash e \<and> rc_receipt_id r = ai_receipt_id e
     \<and> sg_algorithm (rc_signature r) = ''hmac-sha256'' \<and> sg_key_id (rc_signature r) = vf_key_id v
     \<and> (\<exists>o1. rc_issued_at r = AwareDT issued o1) \<and> (\<exists>o2. qt_issued_at q = AwareDT issued o2)
     \<and> (\<exists>o3. ai_timestamp e = AwareDT issued o3) \<and> (\<exists>o4. clock = AwareDT now o4)
     \<and> 32 \<le> length (qt_nonce q) \<and> fromhex_ok (qt_nonce q)
     \<and> qt_evidence q = utf8 (payload_text e (qt_type q) (qt_nonce q) (fmt issued) (fmt issued) ''hmac-sha256'' (vf_key_id v)
          (rc_receipt_id r) (rc_jurisdiction r) (rc_model r))
     \<and> is_ascii (sg_value (rc_signature r)) \<and> sg_value (rc_signature r) = mac (vf_secret v) (qt_evidence q)
     \<and> issued - now \<le> vf_max_future_skew v \<and> (\<forall>age. vf_max_age v = Some age \<longrightarrow> now - issued \<le> age))"
  (is "?accepted \<longleftrightarrow> (\<exists>q now issued. ?spec q now issued)")
proof
  assume acc: ?accepted
  then obtain q where q: "rc_quote r = Some q" by (cases "rc_quote r") (simp_all add: verify_receipt_def refuse_def)
  obtain u off v' off' where claims: "verify_claims v r e q = Inr ()"
    and t: "qt_issued_at q = AwareDT u off" "ai_timestamp e = AwareDT v' off'"
    and ev: "qt_evidence q = utf8 (payload_text e (qt_type q) (qt_nonce q) (fmt u) (fmt v') (sg_algorithm (rc_signature r))
          (sg_key_id (rc_signature r)) (rc_receipt_id r) (rc_jurisdiction r) (rc_model r))"
    and sig: "compare_digest (mac (vf_secret v) (qt_evidence q)) (sg_value (rc_signature r)) = Inr True"
    and fresh: "verify_freshness v clock q = Inr ()"
    using acc q by (auto simp: verify_receipt_def bindR_eq_Inr_iff canonical_payload_Inr)
  obtain now off4 where now: "clock = AwareDT now off4" "u - now \<le> vf_max_future_skew v"
      "case vf_max_age v of None \<Rightarrow> True | Some age \<Rightarrow> now - u \<le> age"
    using fresh t(1) by (cases clock) (auto simp: verify_freshness_def bindR_eq_Inr_iff aware_def refuse_def)
  have same: "u = v'" "\<exists>o1. rc_issued_at r = AwareDT u o1"
    using claims t by (auto simp: verify_claims_def bindR_eq_Inr_iff elim: same_time.elims)
  have "?spec q now u"
    using claims t ev sig now same q
    by (auto simp: verify_claims_def bindR_eq_Inr_iff compare_digest_def split: if_splits option.splits)
  then show "\<exists>q now issued. ?spec q now issued" by blast
next
  assume "\<exists>q now issued. ?spec q now issued"
  then obtain q now issued where s: "?spec q now issued" by blast
  then have "verify_claims v r e q = Inr ()"
    by (auto simp: verify_claims_def check_def)
  moreover have "canonical_payload fmt e (qt_type q) (qt_nonce q) (qt_issued_at q) (sg_algorithm (rc_signature r))
        (sg_key_id (rc_signature r)) (rc_receipt_id r) (rc_jurisdiction r) (rc_model r) = Inr (qt_evidence q)"
    using s by (auto simp: canonical_payload_def aware_def)
  moreover have "compare_digest (mac (vf_secret v) (qt_evidence q)) (sg_value (rc_signature r)) = Inr True"
  proof -
    have sig: "sg_value (rc_signature r) = mac (vf_secret v) (qt_evidence q)" using s by (elim conjE)
    have "is_ascii (sg_value (rc_signature r))" using s by (elim conjE)
    with sig[symmetric] show ?thesis by (simp only: compare_digest_def simp_thms if_True)
  qed
  moreover have "verify_freshness v clock q = Inr ()"
    using s by (auto simp: verify_freshness_def aware_def check_def split: option.splits)
  ultimately show ?accepted using s by (simp add: verify_receipt_def check_def)
qed

text \<open>
  C20. The verifier accepts exactly the receipts whose every claim is that of the envelope, whose algorithm and
  key are its own, whose timestamps are one aware instant, whose nonce is hexadecimal and long enough,
  whose evidence is the canonical payload of these claims, whose signature is the keyed hash of it, and
  which are neither from the future nor stale.
\<close>

theorem receipt_accepted_iff:
  "verify_receipt fmt mac clock v r e = Inr () \<longleftrightarrow> (\<exists>q now issued.
     rc_quote r = Some q \<and> rc_job_id r = ai_job_id e \<and> rc_job_type r = ai_job_type e
     \<and> rc_args_hash r = ai_args_hash e \<and> rc_result_hash r = ai_result_hash e \<and> rc_receipt_id r = ai_receipt_id e
     \<and> sg_algorithm (rc_signature r) = ''hmac-sha256'' \<and> sg_key_id (rc_signature r) = vf_key_id v
     \<and> (\<exists>o1. rc_issued_at r = AwareDT issued o1) \<and> (\<exists>o2. qt_issued_at q = AwareDT issued o2)
     \<and> (\<exists>o3. ai_timestamp e = AwareDT issued o3) \<and> (\<exists>o4. clock = AwareDT now o4)
     \<and> 32 \<le> length (qt_nonce q) \<and> fromhex_ok (qt_nonce q)
     \<and> qt_evidence q = utf8 (payload_text e (qt_type q) (qt_nonce q) (fmt issued) (fmt issued) ''hmac-sha256'' (vf_key_id v)
          (rc_receipt_id r) (rc_jurisdiction r) (rc_model r))
     \<and> is_ascii (sg_value (rc_signature r)) \<and> sg_value (rc_signature r) = mac (vf_secret v) (qt_evidence q)
     \<and> issued - now \<le> vf_max_future_skew v \<and> (case vf_max_age v of None \<Rightarrow> True | Some age \<Rightarrow> now - issued \<le> age))"
proof -
  have age: "(\<forall>age. vf_max_age v = Some age \<longrightarrow> now - issued \<le> age) \<longleftrightarrow>
      (case vf_max_age v of None \<Rightarrow> True | Some age \<Rightarrow> now - issued \<le> age)" for now issued
    by (simp split: option.splits)
  show ?thesis unfolding verify_receipt_iff age ..
qed

lemma hex_char_facts:
  assumes "n < 16"
  shows "is_hex (hex_char n)" "\<not> is_blank (hex_char n)"
proof -
  have "(of_char (hex_char n) :: nat) = (if n < 10 then 48 + n else 87 + n)" using assms by (simp add: hex_char_def)
  then show "is_hex (hex_char n)" "\<not> is_blank (hex_char n)" using assms by (auto simp: is_hex_def is_blank_def)
qed

lemma new_nonce_ok: "bytes_ok bs \<Longrightarrow> length (new_nonce bs) = 2 * length bs \<and> fromhex_ok (new_nonce bs)"
proof (induction bs)
  case (Cons b bs)
  then have "b div 16 < 16" "b mod 16 < 16" by (auto simp: bytes_ok_def)
  then show ?case using Cons hex_char_facts by (auto simp: new_nonce_def bytes_ok_def)
qed (simp add: new_nonce_def)

lemma pqc_accepts:
  assumes "new_pqc secret kid age = Inr a" and "ai_timestamp e = AwareDT u off"
    and "32 \<le> length nonce" and "fromhex_ok nonce" and "\<And>p. is_ascii (mac secret p)"
    and "u - now \<le> 30000000" and "\<And>m. age = Some m \<Longrightarrow> now - u \<le> m"
  shows "\<exists>res r. pqc_attest fmt mac nonce a e = Inr res \<and> to_receipt res e [] = Inr r
    \<and> own_envelope r (the (rc_quote r)) = e \<and> rc_jurisdiction r = None \<and> rc_model r = None
    \<and> pqc_verify fmt mac (AwareDT now o4) a r (Some e) = Inr () \<and> pqc_verify fmt mac (AwareDT now o4) a r None = Inr ()"
proof -
  have a: "pq_secret a = secret" "pq_key_id a = kid" "vf_secret (pq_verifier a) = secret" "vf_key_id (pq_verifier a) = kid"
    "vf_max_age (pq_verifier a) = age" "vf_max_future_skew (pq_verifier a) = 30000000"
    using assms(1) by (auto simp: new_pqc_def default_verifier_def split: if_splits)
  define ev where "ev = utf8 (payload_text e ''pqc-only'' nonce (fmt u) (fmt u) ''hmac-sha256'' kid (ai_receipt_id e) None None)"
  define q where "q = \<lparr>qt_type = ''pqc-only'', qt_evidence = ev, qt_nonce = nonce, qt_issued_at = ai_timestamp e\<rparr>"
  define res where "res = \<lparr>ar_quote = Some q, ar_jurisdiction = None, ar_model = None,
     ar_signature = \<lparr>sg_algorithm = ''hmac-sha256'', sg_value = mac secret ev, sg_key_id = kid\<rparr>\<rparr>"
  define r where "r = \<lparr>rc_job_id = ai_job_id e, rc_signature = ar_signature res, rc_issued_at = ai_timestamp e,
     rc_quote = Some q, rc_jurisdiction = None, rc_model = None, rc_job_type = ai_job_type e,
     rc_args_hash = ai_args_hash e, rc_result_hash = ai_result_hash e, rc_receipt_id = ai_receipt_id e\<rparr>"
  have attest: "pqc_attest fmt mac nonce a e = Inr res"
    by (simp add: pqc_attest_def canonical_payload_def aware_def assms(2) res_def q_def ev_def a)
  have receipt: "to_receipt res e [] = Inr r"
    by (simp add: to_receipt_def res_def r_def q_def Let_def)
  have own: "own_envelope r q = e"
    by (simp add: own_envelope_def r_def q_def)
  have "verify_receipt fmt mac (AwareDT now o4) (pq_verifier a) r e = Inr ()"
    unfolding verify_receipt_iff using assms a
    by (intro exI[of _ q] exI[of _ now] exI[of _ u]) (simp add: r_def q_def res_def ev_def)
  then show ?thesis using attest receipt own
    by (intro exI[of _ res] exI[of _ r]) (simp add: pqc_verify_def r_def)
qed

text \<open>
  C22. Attestation round trip: a software attestor with a secret and a key id attests every envelope with an
  aware timestamp, with the nonce of any sixteen random bytes; the receipt bound to the envelope carries
  its claims, and the attestor accepts it, with the envelope at hand or without, from half a minute
  before the timestamp until it is older than the maximal age.
\<close>

theorem pqc_roundtrip:
  assumes "new_pqc secret kid age = Inr a" and "ai_timestamp e = AwareDT u off"
    and "bytes_ok bs" and "length bs = 16" and "\<And>p. is_ascii (mac secret p)"
    and "u - now \<le> 30000000" and "\<And>m. age = Some m \<Longrightarrow> now - u \<le> m"
  shows "\<exists>res r. pqc_attest fmt mac (new_nonce bs) a e = Inr res \<and> to_receipt res e [] = Inr r
    \<and> own_envelope r (the (rc_quote r)) = e \<and> rc_jurisdiction r = None \<and> rc_model r = None
    \<and> pqc_verify fmt mac (AwareDT now o4) a r (Some e) = Inr () \<and> pqc_verify fmt mac (AwareDT now o4) a r None = Inr ()"
proof -
  have n: "32 \<le> length (new_nonce bs)" "fromhex_ok (new_nonce bs)" using new_nonce_ok[OF assms(3)] assms(4) by simp_all
  show ?thesis by (rule pqc_accepts[OF assms(1,2) n, where mac = mac and now = now]) (use assms(5,6,7) in auto)
qed

definition sample_envelope :: attest_input where
  "sample_envelope = \<lparr>ai_job_id = ''j1'', ai_job_type = ''a'', ai_args_hash = ''h1'', ai_result_hash = ''h2'',
     ai_timestamp = AwareDT 1000 0, ai_receipt_id = ''r1''\<rparr>"

lemma sample_pqc: "\<exists>a. new_pqc [1, 2, 3] ''k1'' (Some 60000000) = Inr a"
  by (simp add: new_pqc_def)

theorem pqc_roundtrip_witness:
  "\<exists>a res r. pqc_attest (\<lambda>u. string_of_int u) (\<lambda>_ _. ''ab'') (new_nonce (replicate 16 171)) a sample_envelope = Inr res
     \<and> to_receipt res sample_envelope [] = Inr r
     \<and> pqc_verify (\<lambda>u. string_of_int u) (\<lambda>_ _. ''ab'') (AwareDT 2000 0) a r None = Inr ()"
proof -
  obtain a where a: "new_pqc [1, 2, 3] ''k1'' (Some 60000000) = Inr a" using sample_pqc by blast
  have "ai_timestamp sample_envelope = AwareDT 1000 0" by (simp add: sample_envelope_def)
  moreover have "bytes_ok (replicate 16 171)" "length (replicate 16 (171::nat)) = 16" by (simp_all add: bytes_ok_def)
  ultimately show ?thesis
    using pqc_roundtrip[OF a, of sample_envelope 1000 0 "replicate 16 171" "\<lambda>_ _. ''ab''" 2000 "\<lambda>u. string_of_int u" 0]
    by (auto simp: is_ascii_def)
qed

text \<open>The attestor without a signature accepts what it attested.\<close>

lemma none_roundtrip:
  assumes "ai_timestamp e = AwareDT u off"
  shows "\<exists>res r. none_attest fmt nonce e = Inr res \<and> to_receipt res e [] = Inr r
    \<and> none_verify fmt r (Some e) = Inr () \<and> none_verify fmt r None = Inr ()"
  using assms by (simp add: none_attest_def canonical_payload_def aware_def to_receipt_def Let_def none_verify_def
      own_envelope_def check_def payload_text_def)

text \<open>
  C21. A signature binds every claim: two receipts that a verifier accepts with the same signature, for payloads
  the keyed hash does not happen to map to one value, agree on the job, its type, the hashes of its
  arguments and its result, the receipt id, the jurisdiction, the model, the type and the nonce of the
  quote and the instant, whatever characters these contain.
\<close>

theorem signature_binds_claims:
  assumes "inj fmt" and "verify_receipt fmt mac clock v r e = Inr ()" and "verify_receipt fmt mac clock' v r' e' = Inr ()"
    and "rc_quote r = Some q" and "rc_quote r' = Some q'"
    and "sg_value (rc_signature r) = sg_value (rc_signature r')"
    and "mac (vf_secret v) (qt_evidence q) = mac (vf_secret v) (qt_evidence q') \<Longrightarrow> qt_evidence q = qt_evidence q'"
  shows "rc_job_id r = rc_job_id r' \<and> rc_job_type r = rc_job_type r' \<and> rc_args_hash r = rc_args_hash r'
    \<and> rc_result_hash r = rc_result_hash r' \<and> rc_receipt_id r = rc_receipt_id r'
    \<and> rc_jurisdiction r = rc_jurisdiction r' \<and> rc_model r = rc_model r'
    \<and> qt_type q = qt_type q' \<and> qt_nonce q = qt_nonce q' \<and> same_time (qt_issued_at q) (qt_issued_at q')"
proof -
  obtain i where r: "rc_job_id r = ai_job_id e" "rc_job_type r = ai_job_type e" "rc_args_hash r = ai_args_hash e"
    "rc_result_hash r = ai_result_hash e" "\<exists>o2. qt_issued_at q = AwareDT i o2"
    "qt_evidence q = utf8 (payload_text e (qt_type q) (qt_nonce q) (fmt i) (fmt i) ''hmac-sha256'' (vf_key_id v)
          (rc_receipt_id r) (rc_jurisdiction r) (rc_model r))"
    "sg_value (rc_signature r) = mac (vf_secret v) (qt_evidence q)"
    using assms(2,4) unfolding verify_receipt_iff by auto
  obtain i' where r': "rc_job_id r' = ai_job_id e'" "rc_job_type r' = ai_job_type e'" "rc_args_hash r' = ai_args_hash e'"
    "rc_result_hash r' = ai_result_hash e'" "\<exists>o2. qt_issued_at q' = AwareDT i' o2"
    "qt_evidence q' = utf8 (payload_text e' (qt_type q') (qt_nonce q') (fmt i') (fmt i') ''hmac-sha256'' (vf_key_id v)
          (rc_receipt_id r') (rc_jurisdiction r') (rc_model r'))"
    "sg_value (rc_signature r') = mac (vf_secret v) (qt_evidence q')"
    using assms(3,5) unfolding verify_receipt_iff by auto
  have "qt_evidence q = qt_evidence q'" using assms(6,7) r(7) r'(7) by simp
  then have p: "payload_text e (qt_type q) (qt_nonce q) (fmt i) (fmt i) ''hmac-sha256'' (vf_key_id v)
          (rc_receipt_id r) (rc_jurisdiction r) (rc_model r)
      = payload_text e' (qt_type q') (qt_nonce q') (fmt i') (fmt i') ''hmac-sha256'' (vf_key_id v)
          (rc_receipt_id r') (rc_jurisdiction r') (rc_model r')"
    using r(6) r'(6) utf8_inj by simp
  have "i = i'" using p assms(1) unfolding payload_text_inj by (simp add: inj_eq)
  then have "same_time (qt_issued_at q) (qt_issued_at q')" using r(5) r'(5) by auto
  then show ?thesis using p unfolding payload_text_inj r(1-4) r'(1-4) by simp
qed

definition sample_quote :: "int \<Rightarrow> quote" where
  "sample_quote off = \<lparr>qt_type = ''pqc-only'', qt_evidence = utf8 (payload_text sample_envelope ''pqc-only''
       (new_nonce (replicate 16 171)) (string_of_int 1000) (string_of_int 1000) ''hmac-sha256'' ''k1'' ''r1'' None None),
     qt_nonce = new_nonce (replicate 16 171), qt_issued_at = AwareDT 1000 off\<rparr>"

definition sample_receipt :: "int \<Rightarrow> receipt" where
  "sample_receipt off = \<lparr>rc_job_id = ''j1'', rc_signature = \<lparr>sg_algorithm = ''hmac-sha256'', sg_value = ''ab'', sg_key_id = ''k1''\<rparr>,
     rc_issued_at = AwareDT 1000 off, rc_quote = Some (sample_quote off), rc_jurisdiction = None, rc_model = None,
     rc_job_type = ''a'', rc_args_hash = ''h1'', rc_result_hash = ''h2'', rc_receipt_id = ''r1''\<rparr>"

lemma string_of_int_inj: "inj string_of_int"
proof (rule injI)
  fix a b :: int
  assume eq: "string_of_int a = string_of_int b"
  have minus: "hd (string_of_nat n) \<noteq> CHR ''-''" for n
  proof -
    have "is_digit (hd (string_of_nat n))" using string_of_nat_digits[of n] by simp
    moreover have "\<not> is_digit CHR ''-''" by (simp add: is_digit_def)
    ultimately show ?thesis by metis
  qed
  show "a = b"
  proof (cases "a < 0 \<longleftrightarrow> b < 0")
    case True
    then show ?thesis using eq by (auto simp: string_of_int_def split: if_splits)
  next
    case False
    then have "\<exists>n m. string_of_nat n = ''-'' @ string_of_nat m"
      using eq by (auto simp: string_of_int_def split: if_splits) metis+
    then show ?thesis using minus by (metis append_Cons list.sel(1))
  qed
qed

lemma sample_accepted:
  "verify_receipt string_of_int (\<lambda>_ _. ''ab'') (AwareDT 2000 0) (default_verifier [1] ''k1'') (sample_receipt off) sample_envelope = Inr ()"
  unfolding verify_receipt_iff
  by (intro exI[of _ "sample_quote off"] exI[of _ 2000] exI[of _ 1000])
    (simp add: sample_receipt_def sample_quote_def sample_envelope_def default_verifier_def is_ascii_def new_nonce_ok bytes_ok_def)

theorem signature_binds_claims_witness:
  "rc_args_hash (sample_receipt 0) = rc_args_hash (sample_receipt 60) \<and> same_time (AwareDT 1000 0) (AwareDT 1000 60)"
proof -
  have q: "rc_quote (sample_receipt off) = Some (sample_quote off)" "sg_value (rc_signature (sample_receipt off)) = ''ab''"
    "qt_evidence (sample_quote off) = qt_evidence (sample_quote 0)" "qt_issued_at (sample_quote off) = AwareDT 1000 off" for off
    by (simp_all add: sample_receipt_def sample_quote_def)
  show ?thesis
    using signature_binds_claims[OF string_of_int_inj sample_accepted[of 0] sample_accepted[of 60] q(1) q(1)] q(2,3)[of 0] q(2,3)[of 60] q(4) by auto
qed

text \<open>
  Not every refusal is a \<open>ReceiptVerificationError\<close>: putting a signature with a character outside ASCII
  into an acceptable receipt makes \<open>verify\<close> raise the \<open>TypeError\<close> of \<open>hmac.compare_digest\<close>, which a
  caller that handles the module's error does not expect.
\<close>

theorem non_ascii_signature_raises:
  assumes "verify_receipt fmt mac clock v r e = Inr ()" and "\<not> is_ascii s"
  shows "verify_receipt fmt mac clock v (r\<lparr>rc_signature := (rc_signature r)\<lparr>sg_value := s\<rparr>\<rparr>) e
    = Inl (Type_error ''comparing strings with non-ASCII characters is not supported'')"
proof -
  obtain q where q: "rc_quote r = Some q" using assms(1) unfolding verify_receipt_iff by blast
  have claims: "verify_claims v (r\<lparr>rc_signature := (rc_signature r)\<lparr>sg_value := s\<rparr>\<rparr>) e q = verify_claims v r e q"
    by (simp add: verify_claims_def)
  have "verify_claims v r e q = Inr ()" "canonical_payload fmt e (qt_type q) (qt_nonce q) (qt_issued_at q) (sg_algorithm (rc_signature r))
        (sg_key_id (rc_signature r)) (rc_receipt_id r) (rc_jurisdiction r) (rc_model r) = Inr (qt_evidence q)"
    using assms(1) q by (auto simp: verify_receipt_def bindR_eq_Inr_iff)
  then show ?thesis using q assms(2)
    by (simp add: verify_receipt_def claims check_def compare_digest_def)
qed

theorem non_ascii_signature_raises_witness:
  "\<exists>m. verify_receipt string_of_int (\<lambda>_ _. ''ab'') (AwareDT 2000 0) (default_verifier [1] ''k1'')
     ((sample_receipt 0)\<lparr>rc_signature := (rc_signature (sample_receipt 0))\<lparr>sg_value := [char_of (233 :: nat)]\<rparr>\<rparr>) sample_envelope = Inl (Type_error m)"
proof -
  have "\<not> is_ascii [char_of (233 :: nat)]" by (simp add: is_ascii_def)
  then show ?thesis using non_ascii_signature_raises[OF sample_accepted] by blast
qed

end
