(* ===== verification/Completion.thy ===== *)
theory Completion
  imports Lease
begin

section \<open>Delivery of a terminal outcome\<close>

text \<open>
  \<open>src/ojs/worker/completion_reporter.py\<close>.  A reporter claims its outcome (under a lock, so one step)
  and then delivers it, with a bounded number of attempts.  The transport's \<open>ack\<close> and \<open>nack\<close> and the
  sleep are arguments; the locale \<open>completion_sink\<close> is what a transport promises about them.
\<close>

datatype terminal_outcome = Completed_outcome pyval | Failed_outcome pydict

record reporter =
  cr_job_id :: string
  cr_max_attempts :: int
  cr_outcome :: "terminal_outcome option"

definition new_reporter :: "string \<Rightarrow> reporter" where
  "new_reporter j = \<lparr>cr_job_id = j, cr_max_attempts = 3, cr_outcome = None\<rparr>"

definition retryable_delivery :: "exn \<Rightarrow> bool" where
  "retryable_delivery e = (if is_connection_error e \<or> is_timeout_error e then True
     else is_api_error e \<and> api_retryable e)"

definition send_outcome :: "(string \<Rightarrow> pyval \<Rightarrow> ('w, unit) io) \<Rightarrow> (string \<Rightarrow> pydict \<Rightarrow> ('w, unit) io)
    \<Rightarrow> string \<Rightarrow> terminal_outcome \<Rightarrow> ('w, unit) io" where
  "send_outcome ack nack j x = (case x of Completed_outcome r \<Rightarrow> ack j r | Failed_outcome e \<Rightarrow> nack j e)"

text \<open>\<open>for attempt in range(max_attempts)\<close>: \<open>n\<close> iterations are left.\<close>

fun deliver_loop :: "('w, unit) io \<Rightarrow> (rat \<Rightarrow> ('w, unit) io) \<Rightarrow> int \<Rightarrow> nat \<Rightarrow> nat \<Rightarrow> ('w, unit) io" where
  "deliver_loop send slp max_attempts attempt 0 w = (Inr (), w)"
| "deliver_loop send slp max_attempts attempt (Suc n) w = (case send w of
     (Inr _, w1) \<Rightarrow> (Inr (), w1)
   | (Inl e, w1) \<Rightarrow>
       if \<not> is_exception e \<or> max_attempts - 1 \<le> int attempt \<or> \<not> retryable_delivery e then (Inl e, w1)
       else (case slp (of_nat (attempt + 1) * (1 / 2)) w1 of
         (Inl e2, w2) \<Rightarrow> (Inl e2, w2)
       | (Inr _, w2) \<Rightarrow> deliver_loop send slp max_attempts (Suc attempt) n w2))"

definition deliver :: "(string \<Rightarrow> pyval \<Rightarrow> ('w, unit) io) \<Rightarrow> (string \<Rightarrow> pydict \<Rightarrow> ('w, unit) io)
    \<Rightarrow> (rat \<Rightarrow> ('w, unit) io) \<Rightarrow> reporter \<Rightarrow> terminal_outcome \<Rightarrow> ('w, unit) io" where
  "deliver ack nack slp rep x =
     deliver_loop (send_outcome ack nack (cr_job_id rep) x) slp (cr_max_attempts rep) 0 (nat (cr_max_attempts rep))"

definition report :: "(string \<Rightarrow> pyval \<Rightarrow> ('w, unit) io) \<Rightarrow> (string \<Rightarrow> pydict \<Rightarrow> ('w, unit) io)
    \<Rightarrow> (rat \<Rightarrow> ('w, unit) io) \<Rightarrow> terminal_outcome \<Rightarrow> reporter \<Rightarrow> 'w \<Rightarrow> (exn + bool) \<times> reporter \<times> 'w" where
  "report ack nack slp x rep w = (if cr_outcome rep \<noteq> None then (Inr False, rep, w)
     else let rep' = rep\<lparr>cr_outcome := Some x\<rparr> in
       case deliver ack nack slp rep' x w of
         (Inl e, w') \<Rightarrow> (Inl e, rep', w')
       | (Inr _, w') \<Rightarrow> (Inr True, rep', w'))"

text \<open>Several reports, one after the other, whatever each of them ends with.\<close>

fun reports :: "(string \<Rightarrow> pyval \<Rightarrow> ('w, unit) io) \<Rightarrow> (string \<Rightarrow> pydict \<Rightarrow> ('w, unit) io)
    \<Rightarrow> (rat \<Rightarrow> ('w, unit) io) \<Rightarrow> terminal_outcome list \<Rightarrow> reporter \<Rightarrow> 'w
    \<Rightarrow> (exn + bool) list \<times> reporter \<times> 'w" where
  "reports ack nack slp [] rep w = ([], rep, w)"
| "reports ack nack slp (x # xs) rep w = (case report ack nack slp x rep w of
     (r, rep', w') \<Rightarrow> (case reports ack nack slp xs rep' w' of (rs, rep'', w'') \<Rightarrow> (r # rs, rep'', w'')))"

subsection \<open>What a transport promises\<close>

locale completion_sink =
  fixes ack :: "string \<Rightarrow> pyval \<Rightarrow> ('w, unit) io"
    and nack :: "string \<Rightarrow> pydict \<Rightarrow> ('w, unit) io"
    and view :: "'w \<Rightarrow> string \<Rightarrow> 'v"
    and settled :: "terminal_outcome \<Rightarrow> 'v \<Rightarrow> bool"
  assumes ack_settles: "ack j r w = (Inr u, w') \<Longrightarrow> settled (Completed_outcome r) (view w' j)"
    and nack_settles: "nack j e w = (Inr u, w') \<Longrightarrow> settled (Failed_outcome e) (view w' j)"
    and ack_frame: "k \<noteq> j \<Longrightarrow> view (snd (ack j r w)) k = view w k"
    and nack_frame: "k \<noteq> j \<Longrightarrow> view (snd (nack j e w)) k = view w k"
begin

lemma send_settles: "send_outcome ack nack j x w = (Inr u, w') \<Longrightarrow> settled x (view w' j)"
  by (cases x) (auto simp: send_outcome_def ack_settles nack_settles)

lemma send_frame: "k \<noteq> j \<Longrightarrow> view (snd (send_outcome ack nack j x w)) k = view w k"
  by (cases x) (auto simp: send_outcome_def ack_frame nack_frame)

lemma deliver_loop_settles:
  assumes "deliver_loop (send_outcome ack nack j x) slp m a (Suc n) w = (Inr (), w')" and "m \<le> int (a + Suc n)"
  shows "settled x (view w' j)"
  using assms
proof (induction n arbitrary: a w)
  case 0
  then show ?case by (auto dest: send_settles split: prod.splits sum.splits if_splits)
next
  case (Suc n)
  show ?case
  proof (cases "send_outcome ack nack j x w")
    case (Pair r w1)
    show ?thesis
    proof (cases r)
      case (Inr u)
      then show ?thesis using Suc.prems(1) Pair send_settles
        by (simp add: deliver_loop.simps(2)[of _ _ _ _ "Suc n"] del: deliver_loop.simps)
    next
      case (Inl e)
      then show ?thesis using Suc.prems Pair Suc.IH[of "Suc a"]
        by (auto simp: deliver_loop.simps(2)[of _ _ _ _ "Suc n"] simp del: deliver_loop.simps
            split: prod.splits sum.splits if_splits)
    qed
  qed
qed

lemma deliver_loop_frame:
  assumes "k \<noteq> j" and "\<And>d w. view (snd (slp d w)) k = view w k"
  shows "view (snd (deliver_loop (send_outcome ack nack j x) slp m a n w)) k = view w k"
proof (induction n arbitrary: a w)
  case (Suc n)
  show ?case
    using Suc.IH send_frame[OF assms(1), of x w] assms(2)
    by (auto split: prod.splits sum.splits) (metis snd_conv)+
qed simp

lemma report_settles:
  assumes "report ack nack slp x rep w = (Inr True, rep', w')" and "1 \<le> cr_max_attempts rep"
  shows "cr_outcome rep' = Some x \<and> settled x (view w' (cr_job_id rep))"
proof -
  obtain n where n: "nat (cr_max_attempts rep) = Suc n" using assms(2) by (cases "nat (cr_max_attempts rep)") auto
  have new: "cr_outcome rep = None" using assms(1) by (auto simp: report_def split: if_splits)
  then have del: "deliver_loop (send_outcome ack nack (cr_job_id rep) x) slp (cr_max_attempts rep) 0 (Suc n) w = (Inr (), w')"
    and "rep' = rep\<lparr>cr_outcome := Some x\<rparr>"
    using assms(1) n by (auto simp: report_def deliver_def Let_def simp del: deliver_loop.simps
        split: prod.splits sum.splits)
  moreover have "cr_max_attempts rep \<le> int (0 + Suc n)" using n by simp
  ultimately show ?thesis using deliver_loop_settles[OF del] by simp
qed

lemma report_frame:
  assumes "k \<noteq> cr_job_id rep" and "\<And>d w. view (snd (slp d w)) k = view w k"
  shows "view (snd (snd (report ack nack slp x rep w))) k = view w k"
  using deliver_loop_frame[OF assms(1), of slp x "cr_max_attempts rep" 0 "nat (cr_max_attempts rep)" w] assms(2)
  by (auto simp: report_def deliver_def Let_def simp del: deliver_loop.simps split: prod.splits sum.splits)

end

subsection \<open>Bounds on what is sent\<close>

text \<open>
  A world that records what reaches the transport; \<open>f n\<close> is how the transport answers the \<open>n\<close>-th call.
\<close>

record delivery_world =
  dw_sent :: "(string \<times> terminal_outcome) list"
  dw_sleeps :: "rat list"

definition scripted_send :: "(nat \<Rightarrow> exn + unit) \<Rightarrow> string \<Rightarrow> terminal_outcome \<Rightarrow> (delivery_world, unit) io" where
  "scripted_send f j x = (\<lambda>w. (f (length (dw_sent w)), w\<lparr>dw_sent := dw_sent w @ [(j, x)]\<rparr>))"

definition scripted_ack :: "(nat \<Rightarrow> exn + unit) \<Rightarrow> string \<Rightarrow> pyval \<Rightarrow> (delivery_world, unit) io" where
  "scripted_ack f j r = scripted_send f j (Completed_outcome r)"

definition scripted_nack :: "(nat \<Rightarrow> exn + unit) \<Rightarrow> string \<Rightarrow> pydict \<Rightarrow> (delivery_world, unit) io" where
  "scripted_nack f j e = scripted_send f j (Failed_outcome e)"

definition delivery_sleep :: "rat \<Rightarrow> (delivery_world, unit) io" where
  "delivery_sleep d = (\<lambda>w. (Inr (), w\<lparr>dw_sleeps := dw_sleeps w @ [d]\<rparr>))"

definition delivery_fails :: "exn + unit \<Rightarrow> bool" where
  "delivery_fails x = (case x of Inl e \<Rightarrow> is_exception e \<and> retryable_delivery e | Inr _ \<Rightarrow> False)"

lemma send_scripted [simp]: "send_outcome (scripted_ack f) (scripted_nack f) j x = scripted_send f j x"
  by (cases x) (simp_all add: send_outcome_def scripted_ack_def scripted_nack_def)

lemma deliver_loop_scripted:
  assumes "a + Suc n = nat m" and "length (dw_sent w) = a"
  shows "\<exists>w'. deliver_loop (scripted_send f j x) delivery_sleep m a (Suc n) w
      = (f (calls_needed (\<lambda>i. delivery_fails (f i)) a n), w')
    \<and> dw_sent w' = dw_sent w @ replicate (calls_needed (\<lambda>i. delivery_fails (f i)) a n + 1 - a) (j, x)
    \<and> dw_sleeps w' = dw_sleeps w @ map (\<lambda>i. of_nat (i + 1) * (1 / 2))
        [a..<calls_needed (\<lambda>i. delivery_fails (f i)) a n]"
  using assms
proof (induction n arbitrary: a w)
  case 0
  then have "nat m = Suc a" "length (dw_sent w) = a" by simp_all
  then show ?case
    by (auto simp: scripted_send_def split: sum.splits)
next
  case (Suc n)
  show ?case
  proof (cases "delivery_fails (f a)")
    case False
    then show ?thesis using Suc.prems
      by (auto simp: scripted_send_def delivery_fails_def split: sum.splits)
  next
    case True
    then obtain e where e: "f a = Inl e" "is_exception e" "retryable_delivery e"
      by (auto simp: delivery_fails_def split: sum.splits)
    define w1 where "w1 = w\<lparr>dw_sent := dw_sent w @ [(j, x)], dw_sleeps := dw_sleeps w @ [of_nat (a + 1) * (1 / 2)]\<rparr>"
    have "\<not> m - 1 \<le> int a" using Suc.prems(1) by linarith
    then have step: "deliver_loop (scripted_send f j x) delivery_sleep m a (Suc (Suc n)) w
        = deliver_loop (scripted_send f j x) delivery_sleep m (Suc a) (Suc n) w1"
      unfolding deliver_loop.simps(2)[of _ _ _ a "Suc n"]
      using e Suc.prems(2) by (simp add: scripted_send_def delivery_sleep_def w1_def del: deliver_loop.simps)
    have "Suc a + Suc n = nat m" "length (dw_sent w1) = Suc a" using Suc.prems by (simp_all add: w1_def)
    from Suc.IH[OF this] obtain w' where w':
      "deliver_loop (scripted_send f j x) delivery_sleep m (Suc a) (Suc n) w1
        = (f (calls_needed (\<lambda>i. delivery_fails (f i)) (Suc a) n), w')"
      "dw_sent w' = dw_sent w1 @ replicate (calls_needed (\<lambda>i. delivery_fails (f i)) (Suc a) n + 1 - Suc a) (j, x)"
      "dw_sleeps w' = dw_sleeps w1 @ map (\<lambda>i. of_nat (i + 1) * (1 / 2))
        [Suc a..<calls_needed (\<lambda>i. delivery_fails (f i)) (Suc a) n]"
      by blast
    have b: "Suc a \<le> calls_needed (\<lambda>i. delivery_fails (f i)) (Suc a) n"
      using calls_needed_bounds by blast
    then have "[a..<calls_needed (\<lambda>i. delivery_fails (f i)) (Suc a) n]
        = a # [Suc a..<calls_needed (\<lambda>i. delivery_fails (f i)) (Suc a) n]" by (simp add: upt_conv_Cons)
    moreover have "calls_needed (\<lambda>i. delivery_fails (f i)) (Suc a) n + 1 - a
        = Suc (calls_needed (\<lambda>i. delivery_fails (f i)) (Suc a) n + 1 - Suc a)" using b by simp
    ultimately show ?thesis using True w' unfolding step by (simp add: w1_def)
  qed
qed

lemma deliver_scripted:
  assumes "1 \<le> cr_max_attempts rep"
  shows "let k = calls_needed (\<lambda>i. delivery_fails (f i)) 0 (nat (cr_max_attempts rep) - 1) in
    deliver (scripted_ack f) (scripted_nack f) delivery_sleep rep x \<lparr>dw_sent = [], dw_sleeps = []\<rparr>
      = (f k, \<lparr>dw_sent = replicate (k + 1) (cr_job_id rep, x),
               dw_sleeps = map (\<lambda>i. of_nat (i + 1) * (1 / 2)) [0..<k]\<rparr>)"
proof -
  obtain n where n: "nat (cr_max_attempts rep) = Suc n" using assms by (cases "nat (cr_max_attempts rep)") auto
  then have "0 + Suc n = nat (cr_max_attempts rep)" by simp
  from deliver_loop_scripted[OF this, of "\<lparr>dw_sent = [], dw_sleeps = []\<rparr>" f "cr_job_id rep" x]
  obtain w' where w': "deliver_loop (scripted_send f (cr_job_id rep) x) delivery_sleep (cr_max_attempts rep) 0 (Suc n)
        \<lparr>dw_sent = [], dw_sleeps = []\<rparr> = (f (calls_needed (\<lambda>i. delivery_fails (f i)) 0 n), w')"
    "dw_sent w' = replicate (calls_needed (\<lambda>i. delivery_fails (f i)) 0 n + 1) (cr_job_id rep, x)"
    "dw_sleeps w' = map (\<lambda>i. of_nat (i + 1) * (1 / 2)) [0..<calls_needed (\<lambda>i. delivery_fails (f i)) 0 n]"
    by auto
  then have "w' = \<lparr>dw_sent = replicate (calls_needed (\<lambda>i. delivery_fails (f i)) 0 n + 1) (cr_job_id rep, x),
      dw_sleeps = map (\<lambda>i. of_nat (i + 1) * (1 / 2)) [0..<calls_needed (\<lambda>i. delivery_fails (f i)) 0 n]\<rparr>"
    by (cases w') simp
  then show ?thesis using w'(1) n by (simp add: deliver_def Let_def del: deliver_loop.simps)
qed

lemma reports_claimed:
  "cr_outcome rep \<noteq> None \<Longrightarrow>
     reports ack nack slp xs rep w = (replicate (length xs) (Inr False), rep, w)"
  by (induction xs) (simp_all add: report_def)

text \<open>
  C3. One outcome per execution: however many outcomes are reported, and however the transport
  answers, everything the transport is sent carries the first outcome, it is sent at least once and
  at most \<open>max_attempts\<close> times, the next attempt is made only after a retryable failure, and every
  later report returns \<open>False\<close> without sending anything.
\<close>

theorem single_outcome:
  assumes "1 \<le> cr_max_attempts rep" and "cr_outcome rep = None"
  shows "let k = calls_needed (\<lambda>i. delivery_fails (f i)) 0 (nat (cr_max_attempts rep) - 1) in
    int k < cr_max_attempts rep
    \<and> reports (scripted_ack f) (scripted_nack f) delivery_sleep (x # xs) rep \<lparr>dw_sent = [], dw_sleeps = []\<rparr>
      = (map_sum id (\<lambda>_. True) (f k) # replicate (length xs) (Inr False), rep\<lparr>cr_outcome := Some x\<rparr>,
         \<lparr>dw_sent = replicate (k + 1) (cr_job_id rep, x),
          dw_sleeps = map (\<lambda>i. of_nat (i + 1) * (1 / 2)) [0..<k]\<rparr>)"
proof -
  let ?k = "calls_needed (\<lambda>i. delivery_fails (f i)) 0 (nat (cr_max_attempts rep) - 1)"
  have bound: "int ?k < cr_max_attempts rep"
    using calls_needed_bounds[of 0 "\<lambda>i. delivery_fails (f i)" "nat (cr_max_attempts rep) - 1"] assms(1) by linarith
  let ?rep = "rep\<lparr>cr_outcome := Some x\<rparr>"
  have "1 \<le> cr_max_attempts ?rep" using assms(1) by simp
  from deliver_scripted[OF this, of f x]
  have d: "deliver (scripted_ack f) (scripted_nack f) delivery_sleep ?rep x \<lparr>dw_sent = [], dw_sleeps = []\<rparr>
      = (f ?k, \<lparr>dw_sent = replicate (?k + 1) (cr_job_id rep, x),
               dw_sleeps = map (\<lambda>i. of_nat (i + 1) * (1 / 2)) [0..<?k]\<rparr>)"
    by (simp add: Let_def)
  have "report (scripted_ack f) (scripted_nack f) delivery_sleep x rep \<lparr>dw_sent = [], dw_sleeps = []\<rparr>
      = (map_sum id (\<lambda>_. True) (f ?k), ?rep, \<lparr>dw_sent = replicate (?k + 1) (cr_job_id rep, x),
               dw_sleeps = map (\<lambda>i. of_nat (i + 1) * (1 / 2)) [0..<?k]\<rparr>)"
    unfolding report_def Let_def d using assms(2) by (simp split: sum.splits)
  then show ?thesis using bound reports_claimed[of ?rep "scripted_ack f"]
    by (simp add: Let_def)
qed

theorem single_outcome_witness:
  "reports (scripted_ack (\<lambda>n. if n = 0 then Inl (ConnectionErr ''refused'') else Inr ()))
      (scripted_nack (\<lambda>n. if n = 0 then Inl (ConnectionErr ''refused'') else Inr ())) delivery_sleep
      [Completed_outcome PNone, Failed_outcome []] (new_reporter ''j1'') \<lparr>dw_sent = [], dw_sleeps = []\<rparr>
    = ([Inr True, Inr False], (new_reporter ''j1'')\<lparr>cr_outcome := Some (Completed_outcome PNone)\<rparr>,
       \<lparr>dw_sent = [(''j1'', Completed_outcome PNone), (''j1'', Completed_outcome PNone)], dw_sleeps = [1 / 2]\<rparr>)"
proof -
  let ?f = "\<lambda>n. if n = 0 then Inl (ConnectionErr ''refused'') else Inr () :: exn + unit"
  have k: "calls_needed (\<lambda>i. delivery_fails (?f i)) 0 2 = 1"
    by (simp add: numeral_2_eq_2 delivery_fails_def retryable_delivery_def)
  show ?thesis
    using single_outcome[of "new_reporter ''j1''" ?f "Completed_outcome PNone" "[Failed_outcome []]"] k
    by (simp add: new_reporter_def Let_def numeral_2_eq_2)
qed

end
