(* ===== verification/Middleware.thy ===== *)
theory Middleware
  imports Lease Jobs
begin

section \<open>Middleware\<close>

text \<open>
  \<open>src/ojs/middleware/\<close>.  The two chain classes share their list operations.  An execution
  middleware is a function from the context and the rest of the chain (an effect on the world) to
  an effect, so it may call the rest any number of times.  An enqueue middleware is a program that
  ends with a result or calls the rest of the chain with a request and goes on with its answer
  (\<open>echain\<close>): the batch pipeline suspends such programs at their call of the transport.  The
  shipped execution middleware (logging, metrics, timeout, retry) act on \<open>xworld\<close>.
\<close>

subsection \<open>The list of middleware\<close>

definition chain_add :: "'m \<Rightarrow> 'm list \<Rightarrow> 'm list" where
  "chain_add m ms = ms @ [m]"

definition chain_prepend :: "'m \<Rightarrow> 'm list \<Rightarrow> 'm list" where
  "chain_prepend m ms = m # ms"

text \<open>\<open>list.index\<close> raises \<open>ValueError\<close> when the target is not there.\<close>

fun list_index :: "'m \<Rightarrow> 'm list \<Rightarrow> exn + nat" where
  "list_index t [] = Inl (ValueErr ''list.index(x): x not in list'')"
| "list_index t (m # ms) = (if m = t then Inr 0 else map_sum id Suc (list_index t ms))"

definition list_insert :: "nat \<Rightarrow> 'm \<Rightarrow> 'm list \<Rightarrow> 'm list" where
  "list_insert i m ms = take i ms @ m # drop i ms"

definition chain_insert_before :: "'m \<Rightarrow> 'm \<Rightarrow> 'm list \<Rightarrow> exn + 'm list" where
  "chain_insert_before target m ms = bindR (list_index target ms) (\<lambda>i. Inr (list_insert i m ms))"

definition chain_insert_after :: "'m \<Rightarrow> 'm \<Rightarrow> 'm list \<Rightarrow> exn + 'm list" where
  "chain_insert_after target m ms = bindR (list_index target ms) (\<lambda>i. Inr (list_insert (i + 1) m ms))"

definition chain_remove :: "'m \<Rightarrow> 'm list \<Rightarrow> exn + 'm list" where
  "chain_remove m ms = (if m \<in> set ms then Inr (remove1 m ms)
     else Inl (ValueErr ''list.remove(x): x not in list''))"

lemma list_index_Inr:
  "list_index t ms = Inr i \<longleftrightarrow> i < length ms \<and> ms ! i = t \<and> t \<notin> set (take i ms)"
proof (induction ms arbitrary: i)
  case (Cons a ms)
  show ?case
  proof (cases i)
    case 0
    then show ?thesis by (cases "list_index t ms") auto
  next
    case (Suc k)
    then show ?thesis using Cons.IH[of k] by (cases "list_index t ms") auto
  qed
qed simp

lemma list_index_split: "t \<notin> set xs \<Longrightarrow> list_index t (xs @ t # ys) = Inr (length xs)"
  by (simp add: list_index_Inr nth_append)

lemma list_index_absent: "t \<notin> set ms \<Longrightarrow> \<exists>e. list_index t ms = Inl e"
  by (cases "list_index t ms") (auto simp: list_index_Inr)

text \<open>
  Placement in a chain: inserting before or after a target puts the middleware directly before or
  after its first occurrence and moves nothing else; removing it again gives the chain back; and a
  target that is not in the chain raises and leaves the chain as it is.
\<close>

theorem chain_placement:
  assumes "t \<notin> set xs"
  shows "chain_insert_before t m (xs @ t # ys) = Inr (xs @ m # t # ys)
    \<and> chain_insert_after t m (xs @ t # ys) = Inr (xs @ t # m # ys)
    \<and> (m \<notin> set xs \<longrightarrow> bindR (chain_insert_before t m (xs @ t # ys)) (chain_remove m) = Inr (xs @ t # ys))
    \<and> (\<exists>e. chain_insert_before t m xs = Inl e) \<and> (\<exists>e. chain_insert_after t m xs = Inl e)"
  using assms list_index_absent[of t xs]
  by (auto simp: chain_insert_before_def chain_insert_after_def list_index_split list_insert_def
      chain_remove_def remove1_append)

theorem chain_placement_witness:
  "chain_insert_after 2 (9::nat) [1, 2, 3] = Inr [1, 2, 9, 3]"
  using chain_placement[of "2::nat" "[1]" 9 "[3]"] by simp

subsection \<open>Execution chains\<close>

type_synonym 'w handler = "job_context \<Rightarrow> ('w, pyval) io"
type_synonym 'w execution_middleware = "job_context \<Rightarrow> ('w, pyval) io \<Rightarrow> ('w, pyval) io"

fun execution_execute :: "'w execution_middleware list \<Rightarrow> job_context \<Rightarrow> 'w handler \<Rightarrow> ('w, pyval) io" where
  "execution_execute [] ctx hdl = hdl ctx"
| "execution_execute (m # ms) ctx hdl = m ctx (execution_execute ms ctx hdl)"

lemma execution_execute_append:
  "execution_execute (ms @ ns) ctx hdl = execution_execute ms ctx (\<lambda>c. execution_execute ns ctx hdl)"
  by (induction ms) simp_all

subsection \<open>Enqueue chains\<close>

datatype echain = Finish "exn + job option" | Next job_request "exn + job option \<Rightarrow> echain"

type_synonym enqueue_middleware = "job_request \<Rightarrow> echain"

text \<open>\<open>answer c f\<close>: the program \<open>c\<close>, and then \<open>f\<close> with its result.\<close>

primrec answer :: "echain \<Rightarrow> (exn + job option \<Rightarrow> echain) \<Rightarrow> echain" where
  "answer (Finish r) f = f r"
| "answer (Next r k) f = Next r (\<lambda>x. answer (k x) f)"

text \<open>A middleware whose calls of \<open>next\<close> run the rest of the chain.\<close>

primrec over :: "echain \<Rightarrow> (job_request \<Rightarrow> echain) \<Rightarrow> echain" where
  "over (Finish r) rest = Finish r"
| "over (Next r k) rest = answer (rest r) (\<lambda>x. over (k x) rest)"

text \<open>The chain ends with the terminal: a program that calls it once with the request.\<close>

fun enqueue_execute :: "enqueue_middleware list \<Rightarrow> job_request \<Rightarrow> echain" where
  "enqueue_execute [] req = Next req Finish"
| "enqueue_execute (m # ms) req = over (m req) (enqueue_execute ms)"

definition pass_through :: enqueue_middleware where
  "pass_through r = Next r Finish"

lemma answer_Finish [simp]: "answer c Finish = c"
  by (induction c) simp_all

lemma answer_answer: "answer (answer c f) g = answer c (\<lambda>x. answer (f x) g)"
  by (induction c) simp_all

lemma over_pass_through [simp]: "over (pass_through r) rest = rest r"
  by (simp add: pass_through_def)

lemma pass_through_chain: "enqueue_execute (replicate n pass_through) r = Next r Finish"
  by (induction n arbitrary: r) simp_all

lemma over_answer: "over (answer c f) rest = answer (over c rest) (\<lambda>x. over (f x) rest)"
  by (induction c) (simp_all add: answer_answer)

text \<open>Chains nest: running \<open>ms @ ns\<close> is running \<open>ms\<close> around \<open>ns\<close>.\<close>

lemma over_over: "over (over c g) rest = over c (\<lambda>r. over (g r) rest)"
  by (induction c) (simp_all add: over_answer)

lemma enqueue_execute_append:
  "ms \<noteq> [] \<Longrightarrow> enqueue_execute (ms @ ns) r = over (enqueue_execute ms r) (enqueue_execute ns)"
proof (induction ms arbitrary: r)
  case (Cons m ms)
  show ?case
  proof (cases "ms = []")
    case True
    then show ?thesis by (simp add: over_over)
  next
    case False
    then have "enqueue_execute (ms @ ns) = (\<lambda>q. over (enqueue_execute ms q) (enqueue_execute ns))"
      using Cons.IH by (intro ext) blast
    then show ?thesis by (simp add: over_over)
  qed
qed simp

subsection \<open>Shipped execution middleware\<close>

datatype xevent =
    Log_started string string int
  | Log_completed string string rat
  | Log_failed string string rat
  | Metric_started string string
  | Metric_completed string string rat
  | Metric_failed string string rat exn
  | Metric_error_logged string

text \<open>
  The world of the shipped middleware: the monotonic clock and what was emitted.  A recorder is a
  function from what was emitted so far and the event to what calling it raises, if anything.
\<close>

record xworld =
  xw_now :: rat
  xw_events :: "xevent list"

definition emit :: "xevent \<Rightarrow> xworld \<Rightarrow> xworld" where
  "emit e w = w\<lparr>xw_events := xw_events w @ [e]\<rparr>"

definition logging_middleware :: "xworld execution_middleware" where
  "logging_middleware ctx nxt = (\<lambda>w0.
     let j = jc_job ctx;
         w1 = emit (Log_started (j_type j) (j_id j) (jc_attempt ctx)) w0;
         start = xw_now w1 in
     case nxt w1 of
       (Inr v, w2) \<Rightarrow> (Inr v, emit (Log_completed (j_type j) (j_id j) ((xw_now w2 - start) * 1000)) w2)
     | (Inl e, w2) \<Rightarrow> if is_exception e
         then (Inl e, emit (Log_failed (j_type j) (j_id j) ((xw_now w2 - start) * 1000)) w2)
         else (Inl e, w2))"

type_synonym recorder = "xevent list \<Rightarrow> xevent \<Rightarrow> exn option"

definition record_metric :: "recorder \<Rightarrow> bool \<Rightarrow> string \<Rightarrow> xevent \<Rightarrow> (xworld, unit) io" where
  "record_metric recorder fail_open phase ev = (\<lambda>w. case recorder (xw_events w) ev of
     None \<Rightarrow> (Inr (), emit ev w)
   | Some e \<Rightarrow> if \<not> is_exception e \<or> \<not> fail_open then (Inl e, w)
       else (Inr (), emit (Metric_error_logged phase) w))"

definition metrics_middleware :: "recorder \<Rightarrow> bool \<Rightarrow> xworld execution_middleware" where
  "metrics_middleware recorder fail_open ctx nxt = (\<lambda>w0.
     let t = j_type (jc_job ctx); q = j_queue (jc_job ctx); start = xw_now w0 in
     bindIO (record_metric recorder fail_open ''job_started'' (Metric_started t q)) (\<lambda>_ w1.
       case nxt w1 of
         (Inl e, w2) \<Rightarrow> if is_exception e
           then bindIO (record_metric recorder fail_open ''job_failed'' (Metric_failed t q (xw_now w2 - start) e))
                  (\<lambda>_. raiseIO e) w2
           else (Inl e, w2)
       | (Inr v, w2) \<Rightarrow>
           bindIO (record_metric recorder fail_open ''job_completed'' (Metric_completed t q (xw_now w2 - start)))
             (\<lambda>_. retIO v) w2) w0)"

text \<open>
  \<open>async with asyncio.timeout(s)\<close>: \<open>expires\<close> says whether the deadline passes before the body ends,
  \<open>interrupted\<close> is the body as it runs when it is cancelled at the deadline; a body that ends with
  the cancellation is reported as the builtin \<open>TimeoutError\<close>, any other outcome is kept.
\<close>

definition asyncio_timeout :: "('w \<Rightarrow> bool) \<Rightarrow> (('w, 'a) io \<Rightarrow> ('w, 'a) io) \<Rightarrow> ('w, 'a) io \<Rightarrow> ('w, 'a) io" where
  "asyncio_timeout expires interrupted body = (\<lambda>w.
     if expires w then (case interrupted body w of
         (Inl e, w') \<Rightarrow> (Inl (if e = CancelledErr then TimeoutErr else e), w')
       | (Inr v, w') \<Rightarrow> (Inr v, w'))
     else body w)"

definition timeout_middleware ::
  "('w \<Rightarrow> bool) \<Rightarrow> (('w, pyval) io \<Rightarrow> ('w, pyval) io) \<Rightarrow> rat \<Rightarrow> 'w execution_middleware" where
  "timeout_middleware expires interrupted seconds ctx nxt =
     catchIO (asyncio_timeout expires interrupted nxt) (\<lambda>e. e = TimeoutErr)
       (\<lambda>_. raiseIO (JobExecutionTimeoutErr seconds (j_id (jc_job ctx))))"

definition retry_middleware ::
  "execution_retry \<Rightarrow> (nat \<Rightarrow> rat) \<Rightarrow> (rat \<Rightarrow> ('w, unit) io) \<Rightarrow> 'w execution_middleware" where
  "retry_middleware r rnd slp ctx nxt = execution_retry_run r rnd slp nxt"

text \<open>
  Metrics that fail open are invisible: whatever the recorder raises, the metrics middleware ends
  with exactly the outcome of the rest of the chain, which it runs exactly once, and a recorder that
  works sees a start and then the one event that matches the outcome.
\<close>

theorem metrics_fail_open:
  assumes "\<And>es ev e. recorder es ev = Some e \<Longrightarrow> is_exception e"
  shows "\<exists>start. start \<in> {Metric_started (j_type (jc_job ctx)) (j_queue (jc_job ctx)), Metric_error_logged ''job_started''}
    \<and> fst (metrics_middleware recorder True ctx nxt w) = fst (nxt (emit start w))
    \<and> ((\<forall>es ev. recorder es ev = None) \<longrightarrow>
        (let w2 = snd (nxt (emit start w)); d = xw_now w2 - xw_now w;
             t = j_type (jc_job ctx); q = j_queue (jc_job ctx) in
         snd (metrics_middleware recorder True ctx nxt w) =
           (case fst (nxt (emit start w)) of
              Inr v \<Rightarrow> emit (Metric_completed t q d) w2
            | Inl e \<Rightarrow> if is_exception e then emit (Metric_failed t q d e) w2 else w2)))"
proof -
  have rec: "\<exists>w'. record_metric recorder True ph ev w = (Inr (), w')" for ph ev w
    using assms by (cases "recorder (xw_events w) ev") (auto simp: record_metric_def)
  obtain start where start: "record_metric recorder True ''job_started''
        (Metric_started (j_type (jc_job ctx)) (j_queue (jc_job ctx))) w = (Inr (), emit start w)"
      "start \<in> {Metric_started (j_type (jc_job ctx)) (j_queue (jc_job ctx)), Metric_error_logged ''job_started''}"
    using assms by (cases "recorder (xw_events w) (Metric_started (j_type (jc_job ctx)) (j_queue (jc_job ctx)))")
      (auto simp: record_metric_def)
  obtain x w2 where x: "nxt (emit start w) = (x, w2)" by (cases "nxt (emit start w)") auto
  have "fst (metrics_middleware recorder True ctx nxt w) = x"
  proof (cases x)
    case (Inl e)
    obtain w3 where "record_metric recorder True ''job_failed''
        (Metric_failed (j_type (jc_job ctx)) (j_queue (jc_job ctx)) (xw_now w2 - xw_now w) e) w2 = (Inr (), w3)"
      using rec by blast
    then show ?thesis using start(1) x Inl
      by (simp add: metrics_middleware_def Let_def bindIO_def raiseIO_def)
  next
    case (Inr v)
    obtain w3 where "record_metric recorder True ''job_completed''
        (Metric_completed (j_type (jc_job ctx)) (j_queue (jc_job ctx)) (xw_now w2 - xw_now w)) w2 = (Inr (), w3)"
      using rec by blast
    then show ?thesis using start(1) x Inr
      by (simp add: metrics_middleware_def Let_def bindIO_def retIO_def)
  qed
  then show ?thesis using start x
    by (intro exI[of _ start])
      (auto simp: metrics_middleware_def Let_def bindIO_def retIO_def raiseIO_def record_metric_def
        split: sum.splits)
qed

definition sample_context :: job_context where
  "sample_context = new_context \<lparr>j_id = ''j1'', j_type = ''t'', j_state = Active, j_args = [], j_queue = ''q'',
     j_meta = [], j_priority = 0, j_attempt = 1, j_max_attempts = 3, j_timeout_ms = None, j_tags = [],
     j_retry = None, j_unique = None, j_created_at = None, j_enqueued_at = None, j_started_at = None,
     j_completed_at = None, j_scheduled_at = None, j_expires_at = None, j_result = PNone, j_errors = []\<rparr> 1 []"

theorem metrics_fail_open_witness:
  "\<exists>start. start \<in> {Metric_started ''t'' ''q'', Metric_error_logged ''job_started''}
    \<and> fst (metrics_middleware (\<lambda>_ _. Some (ValueErr ''down'')) True sample_context (retIO (PInt 5)) \<lparr>xw_now = 0, xw_events = []\<rparr>)
      = Inr (PInt 5)"
  using metrics_fail_open[of "\<lambda>_ _. Some (ValueErr ''down'')" sample_context "retIO (PInt 5)" "\<lparr>xw_now = 0, xw_events = []\<rparr>"]
  by (auto simp: sample_context_def new_context_def io_basic)

text \<open>
  The timeout middleware blames itself for the handler's own timeout: when the deadline does not
  pass and the handler raises the builtin \<open>TimeoutError\<close> (a socket or a lock of its own), the
  middleware raises \<open>JobExecutionTimeout\<close> with its configured limit; every other outcome of a handler
  that is in time is passed on.
\<close>

theorem timeout_misattributed:
  assumes "\<not> expires w"
  shows "(fst (timeout_middleware expires interrupted s ctx nxt w) =
      (if fst (nxt w) = Inl TimeoutErr then Inl (JobExecutionTimeoutErr s (j_id (jc_job ctx))) else fst (nxt w)))
    \<and> snd (timeout_middleware expires interrupted s ctx nxt w) = snd (nxt w)"
  using assms
  by (cases "nxt w"; cases "fst (nxt w)")
    (auto simp: timeout_middleware_def asyncio_timeout_def catchIO_def raiseIO_def)

theorem timeout_misattributed_witness:
  "fst (timeout_middleware (\<lambda>_. False) (\<lambda>b. b) 30 sample_context (raiseIO TimeoutErr) ())
     = Inl (JobExecutionTimeoutErr 30 ''j1'')"
  using timeout_misattributed[of "\<lambda>_. False" "()" "\<lambda>b. b" 30 sample_context "raiseIO TimeoutErr"]
  by (simp add: sample_context_def new_context_def io_basic)

lemma logging_outcome: "fst (logging_middleware ctx nxt w)
    = fst (nxt (emit (Log_started (j_type (jc_job ctx)) (j_id (jc_job ctx)) (jc_attempt ctx)) w))"
  by (auto simp: logging_middleware_def Let_def split: prod.splits sum.splits)

end
