(* ===== verification/Worker_Options.thy ===== *)
theory Worker_Options
  imports Effects
begin

section \<open>Worker options and process signals\<close>

text \<open>
  \<open>src/ojs/worker/options.py\<close> and \<open>signal_custodian.py\<close>.  Options are untyped values, checked in the
  order of the code; \<open>math.isfinite\<close> and \<open>int\<close> raise \<open>OverflowError\<close> beyond the float range.  The
  custodian's world is the process: one handler per signal, the class attribute \<open>_owner\<close>, and the
  signals for which the event loop refuses a handler.
\<close>

subsection \<open>Options\<close>

definition float_finite :: "pfloat \<Rightarrow> rat option" where
  "float_finite f = (case f of Fin r \<Rightarrow> Some r | _ \<Rightarrow> None)"

definition positive_number :: "string \<Rightarrow> pyval \<Rightarrow> exn + rat" where
  "positive_number name v =
     (let err = Inl (ValueErr (name @ '' must be a positive finite number'')) in
      case v of
        PInt i \<Rightarrow> if float_limit \<le> \<bar>of_int i\<bar> then Inl OverflowErr
          else if i \<le> 0 then err else Inr (of_int i)
      | PFloat f \<Rightarrow> (case float_finite f of None \<Rightarrow> err | Some r \<Rightarrow> if r \<le> 0 then err else Inr r)
      | _ \<Rightarrow> err)"

definition non_negative_number :: "string \<Rightarrow> pyval \<Rightarrow> exn + rat" where
  "non_negative_number name v =
     (let err = Inl (ValueErr (name @ '' must be a non-negative finite number'')) in
      case v of
        PInt i \<Rightarrow> if float_limit \<le> \<bar>of_int i\<bar> then Inl OverflowErr
          else if i < 0 then err else Inr (of_int i)
      | PFloat f \<Rightarrow> (case float_finite f of None \<Rightarrow> err | Some r \<Rightarrow> if r < 0 then err else Inr r)
      | _ \<Rightarrow> err)"

text \<open>\<open>int(visibility_timeout * 1000)\<close>: a float product beyond the range is infinite, and \<open>int\<close> raises.\<close>

definition milliseconds :: "pyval \<Rightarrow> exn + int" where
  "milliseconds v = (case v of PInt i \<Rightarrow> Inr (i * 1000)
     | PFloat (Fin r) \<Rightarrow> if float_limit \<le> r * 1000 then Inl OverflowErr else Inr \<lfloor>r * 1000\<rfloor>
     | _ \<Rightarrow> Inl (TypeErr ''unsupported operand type(s) for *''))"

definition resolve_visibility :: "pyval \<Rightarrow> pyval \<Rightarrow> exn + int" where
  "resolve_visibility visibility_timeout visibility_timeout_ms =
     (if visibility_timeout \<noteq> PNone \<and> visibility_timeout_ms \<noteq> PNone
        then Inl (ValueErr ''visibility_timeout and visibility_timeout_ms are mutually exclusive'')
      else if visibility_timeout \<noteq> PNone then
        bindR (positive_number ''visibility_timeout'' visibility_timeout) (\<lambda>_.
        bindR (milliseconds visibility_timeout) (\<lambda>resolved.
          if resolved < 1 then Inl (ValueErr ''visibility_timeout must resolve to at least 1 millisecond'')
          else Inr resolved))
      else (case visibility_timeout_ms of
          PNone \<Rightarrow> Inr 30000
        | PInt i \<Rightarrow> if i < 1 then Inl (ValueErr ''visibility_timeout_ms must be a positive integer'') else Inr i
        | _ \<Rightarrow> Inl (ValueErr ''visibility_timeout_ms must be a positive integer'')))"

definition validate_worker_options ::
  "pyval \<Rightarrow> pyval \<Rightarrow> pyval \<Rightarrow> pyval \<Rightarrow> pyval \<Rightarrow> pyval \<Rightarrow> pyval \<Rightarrow> exn + int" where
  "validate_worker_options concurrency poll_interval heartbeat_interval visibility_timeout_ms
       visibility_timeout request_timeout grace_period =
     bindR (case concurrency of PInt i \<Rightarrow> guardR (1 \<le> i) (ValueErr ''concurrency must be a positive integer'')
            | _ \<Rightarrow> Inl (ValueErr ''concurrency must be a positive integer'')) (\<lambda>_.
     bindR (positive_number ''poll_interval'' poll_interval) (\<lambda>_.
     bindR (positive_number ''heartbeat_interval'' heartbeat_interval) (\<lambda>_.
     bindR (positive_number ''timeout'' request_timeout) (\<lambda>_.
     bindR (non_negative_number ''grace_period'' grace_period) (\<lambda>_.
       resolve_visibility visibility_timeout visibility_timeout_ms)))))"

text \<open>What the options mean once accepted.\<close>

fun number_value :: "pyval \<Rightarrow> rat option" where
  "number_value (PInt i) = (if \<bar>of_int i\<bar> < (float_limit :: rat) then Some (of_int i) else None)"
| "number_value (PFloat (Fin r)) = Some r"
| "number_value _ = None"

lemma positive_number_Inr: "positive_number n v = Inr r \<longleftrightarrow> number_value v = Some r \<and> 0 < r"
  by (cases "(n, v)" rule: prod.exhaust; cases v rule: number_value.cases)
    (auto simp: positive_number_def float_finite_def Let_def split: if_splits)

lemma non_negative_number_Inr: "non_negative_number n v = Inr r \<longleftrightarrow> number_value v = Some r \<and> 0 \<le> r"
  by (cases v rule: number_value.cases)
    (auto simp: non_negative_number_def float_finite_def Let_def split: if_splits)

lemma resolve_visibility_Inr:
  "resolve_visibility v ms = Inr n \<longleftrightarrow>
     1 \<le> n \<and> (v = PNone \<and> (ms = PNone \<and> n = 30000 \<or> ms = PInt n)
       \<or> ms = PNone \<and> (\<exists>i. v = PInt i \<and> \<bar>of_int i\<bar> < (float_limit :: rat) \<and> n = i * 1000)
       \<or> ms = PNone \<and> (\<exists>r. v = PFloat (Fin r) \<and> r * 1000 < float_limit \<and> n = \<lfloor>r * 1000\<rfloor>))"
proof (cases "v = PNone")
  case True
  then show ?thesis by (cases ms) (auto simp: resolve_visibility_def)
next
  case False
  show ?thesis
  proof (cases "ms = PNone")
    case True
    have floor: "0 < r" if "1 \<le> \<lfloor>r * 1000\<rfloor>" for r :: rat
      using that by linarith
    show ?thesis using False True floor
      by (cases v rule: number_value.cases)
        (auto simp: resolve_visibility_def bindR_eq_Inr_iff positive_number_Inr milliseconds_def
           split: if_splits)
  next
    case ms: False
    then show ?thesis using False by (auto simp: resolve_visibility_def)
  qed
qed

text \<open>
  Worker options: \<open>validate_worker_options\<close> accepts exactly the configurations whose concurrency
  is a positive integer, whose intervals and request timeout are positive finite numbers, whose grace
  period is a finite number that is not negative, and of whose two visibility timeouts at most one is
  given; what it returns is the lease length in milliseconds, at least 1 (30000 when neither is
  given, and the whole milliseconds of the seconds given otherwise).
\<close>

theorem validate_worker_options_spec:
  "validate_worker_options c p h ms v t g = Inr n \<longleftrightarrow>
     (\<exists>i. c = PInt i \<and> 1 \<le> i)
     \<and> (\<exists>r. number_value p = Some r \<and> 0 < r) \<and> (\<exists>r. number_value h = Some r \<and> 0 < r)
     \<and> (\<exists>r. number_value t = Some r \<and> 0 < r) \<and> (\<exists>r. number_value g = Some r \<and> 0 \<le> r)
     \<and> 1 \<le> n \<and> (v = PNone \<and> (ms = PNone \<and> n = 30000 \<or> ms = PInt n)
       \<or> ms = PNone \<and> (\<exists>i. v = PInt i \<and> \<bar>of_int i\<bar> < (float_limit :: rat) \<and> n = i * 1000)
       \<or> ms = PNone \<and> (\<exists>r. v = PFloat (Fin r) \<and> r * 1000 < float_limit \<and> n = \<lfloor>r * 1000\<rfloor>))"
proof -
  have "(case c of PInt i \<Rightarrow> guardR (1 \<le> i) (ValueErr ''concurrency must be a positive integer'')
            | _ \<Rightarrow> Inl (ValueErr ''concurrency must be a positive integer'')) = Inr u
      \<longleftrightarrow> (\<exists>i. c = PInt i \<and> 1 \<le> i)" for u
    by (cases c) (auto simp: guardR_eq_iff)
  then show ?thesis
    unfolding validate_worker_options_def bindR_eq_Inr_iff positive_number_Inr non_negative_number_Inr
      resolve_visibility_Inr by auto
qed

subsection \<open>The signal custodian\<close>

datatype signum = SIGTERM | SIGINT

datatype sig_handler = Original nat | Loop_handler nat

text \<open>
  The process: its handlers, the owner (by the custodian's identity), and whether
  \<open>loop.add_signal_handler\<close> works for each signal.  A custodian keeps the handlers it replaced.
\<close>

record process =
  pr_handlers :: "signum \<Rightarrow> sig_handler"
  pr_owner :: "nat option"
  pr_supported :: "signum \<Rightarrow> bool"

record custodian =
  sc_id :: nat
  sc_enabled :: bool
  sc_loop :: bool
  sc_previous :: "(signum \<times> sig_handler) list"
  sc_installed :: bool

definition new_custodian :: "nat \<Rightarrow> bool \<Rightarrow> custodian" where
  "new_custodian i en = \<lparr>sc_id = i, sc_enabled = en, sc_loop = False, sc_previous = [], sc_installed = False\<rparr>"

definition restore_owner :: "custodian \<Rightarrow> process \<Rightarrow> process" where
  "restore_owner c p = (if pr_owner p = Some (sc_id c) then p\<lparr>pr_owner := None\<rparr> else p)"

text \<open>
  The \<open>try\<close> block: each signal's handler is remembered, then replaced; the first signal the loop does
  not support ends it with \<open>RuntimeError\<close> or \<open>NotImplementedError\<close> (\<open>False\<close>).
\<close>

fun install_loop :: "signum list \<Rightarrow> custodian \<Rightarrow> process \<Rightarrow> bool \<times> custodian \<times> process" where
  "install_loop [] c p = (True, c, p)"
| "install_loop (s # ss) c p =
     (let c1 = c\<lparr>sc_previous := AList.update s (pr_handlers p s) (sc_previous c)\<rparr> in
      if \<not> pr_supported p s then (False, c1, p)
      else install_loop ss c1 (p\<lparr>pr_handlers := (pr_handlers p)(s := Loop_handler (sc_id c))\<rparr>))"

definition custodian_install :: "bool \<Rightarrow> custodian \<Rightarrow> process \<Rightarrow> (exn + bool) \<times> custodian \<times> process" where
  "custodian_install main_thread c p =
     (if \<not> sc_enabled c then (Inr False, c, p)
      else if \<not> main_thread then (Inr False, c, p)
      else if pr_owner p \<noteq> None \<and> pr_owner p \<noteq> Some (sc_id c)
        then (Inl (RuntimeErr ''another worker owns the process signal handlers''), c, p)
      else (case install_loop [SIGTERM, SIGINT] c (p\<lparr>pr_owner := Some (sc_id c)\<rparr>) of
          (False, c1, p1) \<Rightarrow> (Inr False, c1\<lparr>sc_previous := []\<rparr>, restore_owner c1 p1)
        | (True, c1, p1) \<Rightarrow> (Inr True, c1\<lparr>sc_loop := True, sc_installed := True\<rparr>, p1)))"

definition put_back :: "(signum \<times> sig_handler) list \<Rightarrow> process \<Rightarrow> process" where
  "put_back prev p = fold (\<lambda>(s, h) q. q\<lparr>pr_handlers := (pr_handlers q)(s := h)\<rparr>) prev p"

definition custodian_restore :: "custodian \<Rightarrow> process \<Rightarrow> (exn + unit) \<times> custodian \<times> process" where
  "custodian_restore c p =
     (if \<not> sc_installed c then (Inr (), c, restore_owner c p)
      else if \<not> sc_loop c then (Inl (RuntimeErr ''installed signal custodian has no event loop''), c, p)
      else (Inr (), c\<lparr>sc_previous := [], sc_loop := False, sc_installed := False\<rparr>,
            restore_owner c (put_back (sc_previous c) p)))"

text \<open>
  Signal ownership is exclusive and undone: when another custodian owns the process, \<open>install\<close>
  raises \<open>RuntimeError\<close> and changes nothing; when no one does and the loop supports both signals, a
  fresh custodian takes both handlers, and \<open>restore\<close> puts the process back exactly as it was.
\<close>

theorem custodian_roundtrip:
  assumes "sc_enabled c" and "\<not> sc_installed c" and "sc_previous c = []"
  shows "(pr_owner p \<noteq> None \<and> pr_owner p \<noteq> Some (sc_id c) \<longrightarrow>
        custodian_install True c p = (Inl (RuntimeErr ''another worker owns the process signal handlers''), c, p))
    \<and> (pr_owner p = None \<and> pr_supported p SIGTERM \<and> pr_supported p SIGINT \<longrightarrow>
        (\<exists>c1 p1. custodian_install True c p = (Inr True, c1, p1) \<and> pr_owner p1 = Some (sc_id c)
          \<and> (\<forall>s. pr_handlers p1 s = Loop_handler (sc_id c))
          \<and> (\<exists>c2. custodian_restore c1 p1 = (Inr (), c2, p) \<and> \<not> sc_installed c2)))"
proof -
  have all: "(\<forall>s. P s) \<longleftrightarrow> P SIGTERM \<and> P SIGINT" for P
    by (metis signum.exhaust)
  have ext: "h(SIGTERM := h SIGTERM, SIGINT := h SIGINT) = h" for h :: "signum \<Rightarrow> sig_handler"
    by simp
  show ?thesis
    using assms by (auto simp: custodian_install_def custodian_restore_def put_back_def restore_owner_def all Let_def fun_upd_twist)
qed

theorem custodian_roundtrip_witness:
  "\<exists>c1 p1 c2. custodian_install True (new_custodian 1 True)
       \<lparr>pr_handlers = (\<lambda>_. Original 0), pr_owner = None, pr_supported = (\<lambda>_. True)\<rparr> = (Inr True, c1, p1)
     \<and> custodian_restore c1 p1
       = (Inr (), c2, \<lparr>pr_handlers = (\<lambda>_. Original 0), pr_owner = None, pr_supported = (\<lambda>_. True)\<rparr>)"
  using custodian_roundtrip[of "new_custodian 1 True"
      "\<lparr>pr_handlers = (\<lambda>_. Original 0), pr_owner = None, pr_supported = (\<lambda>_. True)\<rparr>"]
  by (auto simp: new_custodian_def)

text \<open>
  A failed installation leaves a handler behind: on a loop that supports \<open>SIGTERM\<close> but not \<open>SIGINT\<close>,
  \<open>install\<close> returns \<open>False\<close> with the worker's \<open>SIGTERM\<close> handler still installed, and \<open>restore\<close> does not
  put the process handler back, because what was remembered has been cleared.
\<close>

theorem partial_install_leaks:
  assumes "sc_enabled c" and "\<not> sc_installed c" and "pr_owner p = None"
    and "pr_supported p SIGTERM" and "\<not> pr_supported p SIGINT"
  shows "\<exists>c1 p1. custodian_install True c p = (Inr False, c1, p1)
    \<and> pr_handlers p1 SIGTERM = Loop_handler (sc_id c)
    \<and> (\<exists>c2 p2. custodian_restore c1 p1 = (Inr (), c2, p2) \<and> pr_handlers p2 SIGTERM = Loop_handler (sc_id c))"
  using assms by (auto simp: custodian_install_def custodian_restore_def restore_owner_def Let_def)

theorem partial_install_leaks_witness:
  "\<exists>c1 p1. custodian_install True (new_custodian 1 True)
       \<lparr>pr_handlers = (\<lambda>_. Original 0), pr_owner = None, pr_supported = (\<lambda>s. s = SIGTERM)\<rparr> = (Inr False, c1, p1)
     \<and> pr_handlers p1 SIGTERM = Loop_handler 1"
  using partial_install_leaks[of "new_custodian 1 True"
      "\<lparr>pr_handlers = (\<lambda>_. Original 0), pr_owner = None, pr_supported = (\<lambda>s. s = SIGTERM)\<rparr>"]
  by (auto simp: new_custodian_def)

end
