(* ===== verification/Worker.thy ===== *)
theory Worker
  imports Admission Completion Middleware Worker_Options
begin

section \<open>The worker runtime\<close>

text \<open>
  \<open>src/ojs/worker/runtime.py\<close> and \<open>shutdown_coordinator.py\<close>.  \<open>process_job\<close> is one execution, from
  the handler lookup to the delivery of its outcome.  The run as a whole is a step relation: between
  two awaits a coroutine is one step, so a state of \<open>worker\<close> is what any of them can observe, and the
  fetch loop, the heartbeat loop, the executions, \<open>stop\<close> and the shutdown coordinator interleave
  freely.  The transport's answers, the clock and the draws of \<open>uuid4\<close> are the labels of the steps.
\<close>

subsection \<open>One execution\<close>

definition failure :: "string \<Rightarrow> string \<Rightarrow> bool \<Rightarrow> terminal_outcome" where
  "failure code message retryable = Failed_outcome [(PStr ''code'', PStr code),
     (PStr ''message'', PStr message), (PStr ''retryable'', PBool retryable)]"

text \<open>A report whose result is not used: its exceptions propagate.\<close>

definition report_io :: "(string \<Rightarrow> pyval \<Rightarrow> ('w, unit) io) \<Rightarrow> (string \<Rightarrow> pydict \<Rightarrow> ('w, unit) io)
    \<Rightarrow> (rat \<Rightarrow> ('w, unit) io) \<Rightarrow> string \<Rightarrow> terminal_outcome \<Rightarrow> ('w, unit) io" where
  "report_io ack nack slp job_id x = (\<lambda>w. case report ack nack slp x (new_reporter job_id) w of
     (Inl e, _, w') \<Rightarrow> (Inl e, w') | (Inr _, _, w') \<Rightarrow> (Inr (), w'))"

definition handler_context :: "job \<Rightarrow> job_context" where
  "handler_context j = new_context j (max 1 (j_attempt j)) []"

definition process_job :: "(string \<times> 'w handler) list \<Rightarrow> 'w execution_middleware list
    \<Rightarrow> (string \<Rightarrow> pyval \<Rightarrow> ('w, unit) io) \<Rightarrow> (string \<Rightarrow> pydict \<Rightarrow> ('w, unit) io)
    \<Rightarrow> (rat \<Rightarrow> ('w, unit) io) \<Rightarrow> (exn \<Rightarrow> string) \<Rightarrow> job \<Rightarrow> ('w, unit) io" where
  "process_job handlers mws ack nack slp str_of j = (\<lambda>w.
     case map_of handlers (j_type j) of
       None \<Rightarrow> report_io ack nack slp (j_id j)
         (failure ''unknown_job_type'' (''No handler registered for job type: '' @ j_type j) False) w
     | Some hdl \<Rightarrow> (case execution_execute mws (handler_context j) hdl w of
         (Inr v, w1) \<Rightarrow> catchIO (report_io ack nack slp (j_id j) (Completed_outcome v)) is_exception
             (\<lambda>_. retIO ()) w1
       | (Inl e, w1) \<Rightarrow>
           if e = CancelledErr
           then bindIO (report_io ack nack slp (j_id j)
                  (failure ''cancelled'' ''Job cancelled during shutdown'' True)) (\<lambda>_. raiseIO e) w1
           else catchIO (report_io ack nack slp (j_id j) (failure ''handler_error'' (str_of e) True))
                  is_exception (\<lambda>_. retIO ()) w1))"

text \<open>The outcome an execution reports, from how its chain ended.\<close>

definition expected_outcome :: "(exn \<Rightarrow> string) \<Rightarrow> exn + pyval \<Rightarrow> terminal_outcome" where
  "expected_outcome str_of r = (case r of
     Inr v \<Rightarrow> Completed_outcome v
   | Inl e \<Rightarrow> if e = CancelledErr then failure ''cancelled'' ''Job cancelled during shutdown'' True
       else failure ''handler_error'' (str_of e) True)"

lemma report_io_ok:
  assumes "\<And>r w. ack j r w = (Inr (), sent (Completed_outcome r) w)"
    and "\<And>e w. nack j e w = (Inr (), sent (Failed_outcome e) w)"
  shows "report_io ack nack slp j x w = (Inr (), sent x w)"
  using assms by (cases x)
    (simp_all add: report_io_def report_def new_reporter_def deliver_def send_outcome_def numeral_3_eq_3 Let_def)

text \<open>
  C4. Every execution reports exactly the outcome of its handler: with a transport that accepts the
  report, a job whose type has no handler is refused as not retryable without running anything, and
  otherwise the chain runs once and the transport gets the result, the error (retryable) or the
  cancellation (retryable); the execution itself ends normally, except that a cancellation goes on.
\<close>

theorem process_job_outcome:
  assumes "\<And>r w. ack (j_id j) r w = (Inr (), sent (Completed_outcome r) w)"
    and "\<And>e w. nack (j_id j) e w = (Inr (), sent (Failed_outcome e) w)"
  shows "process_job handlers mws ack nack slp str_of j w =
    (case map_of handlers (j_type j) of
       None \<Rightarrow> (Inr (), sent (failure ''unknown_job_type''
                  (''No handler registered for job type: '' @ j_type j) False) w)
     | Some hdl \<Rightarrow> let (r, w1) = execution_execute mws (handler_context j) hdl w in
         (if r = Inl CancelledErr then Inl CancelledErr else Inr (), sent (expected_outcome str_of r) w1))"
  using report_io_ok[of ack "j_id j" sent nack slp] assms
  by (auto simp: process_job_def expected_outcome_def Let_def catchIO_def bindIO_def raiseIO_def retIO_def
      split: option.splits prod.splits sum.splits)

theorem process_job_outcome_witness:
  "process_job [(''t'', \<lambda>c. raiseIO (ValueErr ''bad''))] [] (scripted_ack (\<lambda>_. Inr ())) (scripted_nack (\<lambda>_. Inr ()))
      delivery_sleep (\<lambda>_. ''bad'') (jc_job sample_context) \<lparr>dw_sent = [], dw_sleeps = []\<rparr>
    = (Inr (), \<lparr>dw_sent = [(''j1'', failure ''handler_error'' ''bad'' True)], dw_sleeps = []\<rparr>)"
  using process_job_outcome[of "scripted_ack (\<lambda>_. Inr ())" "jc_job sample_context"
      "\<lambda>x w. w\<lparr>dw_sent := dw_sent w @ [(''j1'', x)]\<rparr>" "scripted_nack (\<lambda>_. Inr ())"
      "[(''t'', \<lambda>c. raiseIO (ValueErr ''bad''))]" "[]" delivery_sleep "\<lambda>_. ''bad''" "\<lparr>dw_sent = [], dw_sleeps = []\<rparr>"]
  by (simp add: scripted_ack_def scripted_nack_def scripted_send_def sample_context_def new_context_def
      raiseIO_def expected_outcome_def Let_def)

subsection \<open>The state of a worker\<close>

datatype worker_state = Idle | Running | Quiet | Terminate

text \<open>
  Where the fetch loop is: at its head, waiting for the poll interval, awaiting the transport with the
  permits it reserved, rejecting surplus leases, or over (with the exception that ended it).
\<close>

datatype fetch_phase =
    Fetch_head
  | Fetch_wait
  | Fetching "string list"
  | Rejecting "job list" "string list"
  | Fetch_over "exn option"

datatype beat_phase =
    Beat_head
  | Beating
  | Beat_wait
  | Beat_backoff
  | Beat_over

record worker =
  wk_state :: worker_state
  wk_run :: run_state
  wk_fetch :: fetch_phase
  wk_beat :: beat_phase
  wk_backoff :: rat

record worker_config =
  wc_concurrency :: int
  wc_visibility_ms :: int

definition worker_start :: "worker_config \<Rightarrow> exn + worker" where
  "worker_start cfg = bindR (new_run_state (wc_concurrency cfg)) (\<lambda>rs.
     Inr \<lparr>wk_state = Running, wk_run = rs, wk_fetch = Fetch_head, wk_beat = Beat_head, wk_backoff = 1\<rparr>)"

definition request_termination :: "worker \<Rightarrow> worker" where
  "request_termination w = w\<lparr>wk_state := Terminate, wk_run := request_shutdown (wk_run w)\<rparr>"

subsection \<open>The fetch loop\<close>

definition fetch_turn :: "(nat \<Rightarrow> string) \<Rightarrow> worker \<Rightarrow> worker option" where
  "fetch_turn uuid4 w =
     (if rs_shutdown (wk_run w) then Some (w\<lparr>wk_fetch := Fetch_over None\<rparr>)
      else if wk_state w = Quiet then Some (w\<lparr>wk_fetch := Fetch_wait\<rparr>)
      else (case reserve_available uuid4 (rs_admission (wk_run w)) of
          None \<Rightarrow> None
        | Some (permits, a) \<Rightarrow>
            let w' = w\<lparr>wk_run := (wk_run w)\<lparr>rs_admission := a\<rparr>\<rparr> in
            Some (if permits = [] then w'\<lparr>wk_fetch := Fetch_wait\<rparr> else w'\<lparr>wk_fetch := Fetching permits\<rparr>)))"

text \<open>The loop over the admitted jobs: the exception that ends it, and how many permits were used.\<close>

fun start_executions :: "int \<Rightarrow> rat \<Rightarrow> (job \<times> string) list \<Rightarrow> run_state \<Rightarrow> nat
    \<Rightarrow> exn option \<times> run_state \<times> nat" where
  "start_executions vis now [] rs used = (None, rs, used)"
| "start_executions vis now ((j, p) # xs) rs used =
     (case new_lease vis now of
        Inl e \<Rightarrow> (Some e, rs, used)
      | Inr l \<Rightarrow> (case rg_register (j_id j) p l rs of
          Inl e \<Rightarrow> (Some e, rs, used)
        | Inr rs' \<Rightarrow> start_executions vis now xs rs' (used + 1)))"

definition release_permits :: "string list \<Rightarrow> run_state \<Rightarrow> exn + run_state" where
  "release_permits ps rs = bindR (release_each la_release ps (rs_admission rs)) (\<lambda>a. Inr (rs\<lparr>rs_admission := a\<rparr>))"

text \<open>The \<open>finally\<close> clause, and the poll when the transport had no jobs.\<close>

definition fetch_finally :: "string list \<Rightarrow> bool \<Rightarrow> worker \<Rightarrow> worker" where
  "fetch_finally unused no_jobs w = (case release_permits unused (wk_run w) of
     Inl e \<Rightarrow> w\<lparr>wk_fetch := Fetch_over (Some e)\<rparr>
   | Inr rs \<Rightarrow> w\<lparr>wk_run := rs, wk_fetch := (if no_jobs then Fetch_wait else Fetch_head)\<rparr>)"

definition fetch_ok :: "worker_config \<Rightarrow> rat \<Rightarrow> job list \<Rightarrow> string list \<Rightarrow> worker \<Rightarrow> worker" where
  "fetch_ok cfg now jobs permits w =
     (case start_executions (wc_visibility_ms cfg) now (zip (take (length permits) jobs) permits) (wk_run w) 0 of
        (err, rs, used) \<Rightarrow>
          let w' = w\<lparr>wk_run := rs\<rparr>; surplus = drop (length permits) jobs in
          if err = None \<and> surplus \<noteq> [] then w'\<lparr>wk_fetch := Rejecting surplus (drop used permits)\<rparr>
          else fetch_finally (drop used permits) (jobs = []) w')"

definition fetch_failed :: "exn \<Rightarrow> string list \<Rightarrow> worker \<Rightarrow> worker" where
  "fetch_failed e permits w =
     (let w' = fetch_finally permits True w in
      if is_exception e then w'
      else (case wk_fetch w' of Fetch_over (Some e') \<Rightarrow> w' | _ \<Rightarrow> w'\<lparr>wk_fetch := Fetch_over (Some e)\<rparr>))"

text \<open>One surplus lease rejected; a delivery that fails ends the loop over them.\<close>

definition reject_step :: "exn option \<Rightarrow> worker \<Rightarrow> worker" where
  "reject_step delivery w = (case wk_fetch w of
     Rejecting (j # js) unused \<Rightarrow>
       (case delivery of
          None \<Rightarrow> if js = [] then fetch_finally unused False w else w\<lparr>wk_fetch := Rejecting js unused\<rparr>
        | Some e \<Rightarrow> if is_exception e then fetch_finally unused False w
            else (let w' = fetch_finally unused False w in w'\<lparr>wk_fetch := Fetch_over (Some e)\<rparr>))
   | _ \<Rightarrow> w)"

subsection \<open>The heartbeat loop\<close>

definition extended_ids :: "pydict \<Rightarrow> string list" where
  "extended_ids response = (case dget response ''jobs_extended'' of
     Some (PList xs) \<Rightarrow> map (\<lambda>v. case v of PStr s \<Rightarrow> s | _ \<Rightarrow> []) (filter (\<lambda>v. case v of PStr s \<Rightarrow> True | _ \<Rightarrow> False) xs)
   | _ \<Rightarrow> [])"

definition heartbeat_response :: "worker_config \<Rightarrow> rat \<Rightarrow> pydict \<Rightarrow> worker \<Rightarrow> worker" where
  "heartbeat_response cfg now response w =
     (let w1 = w\<lparr>wk_run := rg_extend_leases (wc_visibility_ms cfg) (Some (extended_ids response)) now (wk_run w),
                 wk_backoff := 1\<rparr>;
          server_state = dget_default response ''state'' PNone in
      if server_state = PStr ''terminate'' then (request_termination w1)\<lparr>wk_beat := Beat_over\<rparr>
      else let w2 = (if \<not> rs_shutdown (wk_run w1)
             then (if server_state = PStr ''quiet'' then w1\<lparr>wk_state := Quiet\<rparr>
                   else if server_state = PStr ''running'' then w1\<lparr>wk_state := Running\<rparr> else w1)
             else w1)
           in w2\<lparr>wk_beat := Beat_wait\<rparr>)"

definition heartbeat_failed :: "exn \<Rightarrow> worker \<Rightarrow> worker" where
  "heartbeat_failed e w =
     (if \<not> is_exception e then w\<lparr>wk_beat := Beat_over\<rparr>
      else if is_connection_error e \<or> is_api_error e then w\<lparr>wk_beat := Beat_backoff\<rparr>
      else w\<lparr>wk_beat := Beat_wait\<rparr>)"

text \<open>The end of a wait: interrupted by the shutdown, or timed out.\<close>

definition heartbeat_wake :: "worker \<Rightarrow> worker" where
  "heartbeat_wake w = (if rs_shutdown (wk_run w) then w\<lparr>wk_beat := Beat_over\<rparr>
     else (case wk_beat w of
         Beat_backoff \<Rightarrow> w\<lparr>wk_backoff := min (wk_backoff w * 2) 30, wk_beat := Beat_head\<rparr>
       | _ \<Rightarrow> w\<lparr>wk_beat := Beat_head\<rparr>))"

definition heartbeat_turn :: "worker \<Rightarrow> worker" where
  "heartbeat_turn w = (if rs_shutdown (wk_run w) then w\<lparr>wk_beat := Beat_over\<rparr> else w\<lparr>wk_beat := Beating\<rparr>)"

subsection \<open>Executions and shutdown\<close>

definition finish_execution :: "string \<Rightarrow> worker \<Rightarrow> exn + worker" where
  "finish_execution token w = bindR (rg_complete token (wk_run w)) (\<lambda>(_, rs). Inr (w\<lparr>wk_run := rs\<rparr>))"

text \<open>
  The coordinator, when a loop ended or \<open>start\<close> was cancelled: it requests the shutdown itself and
  cancels both loops (a fetch in flight gives its permits back).
\<close>

definition coordinator_shutdown :: "worker \<Rightarrow> worker" where
  "coordinator_shutdown w =
     (let w1 = w\<lparr>wk_run := request_shutdown (wk_run w), wk_beat := Beat_over\<rparr> in
      case wk_fetch w1 of
        Fetching permits \<Rightarrow> fetch_failed CancelledErr permits w1
      | Rejecting js unused \<Rightarrow> reject_step (Some CancelledErr) w1
      | Fetch_over e \<Rightarrow> w1
      | _ \<Rightarrow> w1\<lparr>wk_fetch := Fetch_over (Some CancelledErr)\<rparr>)"

text \<open>
  \<open>_drain_executions\<close>, once every remaining task has ended: each one completes its execution.  The
  grace timeout, the cancellation of the tasks it leaves and the wait for them decide when and how the
  tasks end, not what the end of one does to the worker, and are not in the definition.
\<close>

fun drain_executions :: "string list \<Rightarrow> worker \<Rightarrow> exn + worker" where
  "drain_executions [] w = Inr w"
| "drain_executions (t # ts) w = bindR (finish_execution t w) (drain_executions ts)"

definition worker_end :: "worker \<Rightarrow> worker" where
  "worker_end w = w\<lparr>wk_run := request_shutdown (wk_run w), wk_state := Idle\<rparr>"

inductive wstep :: "worker_config \<Rightarrow> worker \<Rightarrow> worker \<Rightarrow> bool" for cfg where
  fetch_head: "wk_fetch w = Fetch_head \<Longrightarrow> fresh_draws uuid4 (rs_admission (wk_run w)) \<Longrightarrow>
     fetch_turn uuid4 w = Some w' \<Longrightarrow> wstep cfg w w'"
| fetch_answer: "wk_fetch w = Fetching permits \<Longrightarrow> wstep cfg w (fetch_ok cfg now jobs permits w)"
| fetch_error: "wk_fetch w = Fetching permits \<Longrightarrow> wstep cfg w (fetch_failed e permits w)"
| reject: "wk_fetch w = Rejecting js unused \<Longrightarrow> wstep cfg w (reject_step delivery w)"
| fetch_wake: "wk_fetch w = Fetch_wait \<Longrightarrow> wstep cfg w (w\<lparr>wk_fetch := Fetch_head\<rparr>)"
| finish: "finish_execution token w = Inr w' \<Longrightarrow> wstep cfg w w'"
| beat_head: "wk_beat w = Beat_head \<Longrightarrow> wstep cfg w (heartbeat_turn w)"
| beat_answer: "wk_beat w = Beating \<Longrightarrow> wstep cfg w (heartbeat_response cfg now response w)"
| beat_error: "wk_beat w = Beating \<Longrightarrow> wstep cfg w (heartbeat_failed e w)"
| beat_wake: "wk_beat w = Beat_wait \<or> wk_beat w = Beat_backoff \<Longrightarrow> wstep cfg w (heartbeat_wake w)"
| stop: "wstep cfg w (request_termination w)"
| coordinate: "wstep cfg w (coordinator_shutdown w)"

inductive_cases wstepE: "wstep cfg w w'"

subsection \<open>The invariant\<close>

definition reserved :: "worker \<Rightarrow> string list" where
  "reserved w = (case wk_fetch w of Fetching ps \<Rightarrow> ps | Rejecting js ps \<Rightarrow> ps | _ \<Rightarrow> [])"

definition worker_tokens :: "worker \<Rightarrow> string list" where
  "worker_tokens w = rs_tokens (wk_run w)"

text \<open>
  Every permit is either reserved by the fetch in flight or owned by exactly one execution; the
  backoff stays between its bounds; \<open>TERMINATE\<close> means that shutdown was requested; and the fetch loop
  ends without an exception of its own.
\<close>

definition worker_ok :: "worker_config \<Rightarrow> worker \<Rightarrow> bool" where
  "worker_ok cfg w \<longleftrightarrow> run_ok (wk_run w) \<and> 1 \<le> wc_visibility_ms cfg
     \<and> int (la_capacity (rs_admission (wk_run w))) = wc_concurrency cfg
     \<and> distinct (reserved w) \<and> set (reserved w) \<inter> set (worker_tokens w) = {}
     \<and> set (la_permits (rs_admission (wk_run w))) = set (worker_tokens w) \<union> set (reserved w)
     \<and> 1 \<le> wk_backoff w \<and> wk_backoff w \<le> 30
     \<and> (wk_state w = Terminate \<longrightarrow> rs_shutdown (wk_run w))
     \<and> (\<forall>e. wk_fetch w = Fetch_over (Some e) \<longrightarrow> \<not> is_exception e)
     \<and> (\<forall>ps. wk_fetch w \<noteq> Rejecting [] ps)"

lemma rs_tokens_admission [simp]: "rs_tokens (rs\<lparr>rs_admission := a\<rparr>) = rs_tokens rs"
  by (simp add: rs_tokens_def)

lemma start_executions_ok:
  assumes "run_ok rs" "1 \<le> vis" "distinct (map snd xs)"
    and "set (map snd xs) \<inter> set (rs_tokens rs) = {}" "set (map snd xs) \<subseteq> set (la_permits (rs_admission rs))"
  shows "\<exists>rs'. start_executions vis now xs rs used = (None, rs', used + length xs) \<and> run_ok rs'
    \<and> rs_tokens rs' = rs_tokens rs @ map snd xs \<and> rs_admission rs' = rs_admission rs
    \<and> rs_shutdown rs' = rs_shutdown rs"
  using assms
proof (induction xs arbitrary: rs used)
  case Nil
  then show ?case by simp
next
  case (Cons x xs)
  obtain j p where x: "x = (j, p)" by (cases x)
  obtain l where l: "new_lease vis now = Inr l" using Cons.prems(2) by (simp add: new_lease_def)
  have "p \<in> set (la_permits (rs_admission rs))" "p \<notin> set (rs_tokens rs)" using Cons.prems x by auto
  then obtain rs1 where rs1: "rg_register (j_id j) p l rs = Inr rs1" "run_ok rs1"
      "rs_tokens rs1 = rs_tokens rs @ [p]" "rs_admission rs1 = rs_admission rs" "rs_shutdown rs1 = rs_shutdown rs"
    using rg_register_ok[OF Cons.prems(1)] by blast
  have "set (map snd xs) \<inter> set (rs_tokens rs1) = {}" using Cons.prems x rs1(3) by auto
  then obtain rs' where "start_executions vis now xs rs1 (used + 1) = (None, rs', used + 1 + length xs)"
      "run_ok rs'" "rs_tokens rs' = rs_tokens rs1 @ map snd xs" "rs_admission rs' = rs_admission rs1"
      "rs_shutdown rs' = rs_shutdown rs1"
    using Cons.IH[OF rs1(2) Cons.prems(2)] Cons.prems rs1(4) x by (metis (no_types, lifting) distinct.simps(2)
        insert_subset list.simps(15) list.simps(9) snd_conv)
  then show ?case using x l rs1 by simp
qed

lemma release_permits_ok:
  assumes "run_ok rs" "distinct ps" "set ps \<subseteq> set (la_permits (rs_admission rs))" "set ps \<inter> set (rs_tokens rs) = {}"
  shows "\<exists>rs'. release_permits ps rs = Inr rs' \<and> run_ok rs' \<and> rs_tokens rs' = rs_tokens rs
    \<and> rs_shutdown rs' = rs_shutdown rs \<and> la_capacity (rs_admission rs') = la_capacity (rs_admission rs)
    \<and> set (la_permits (rs_admission rs')) = set (la_permits (rs_admission rs)) - set ps"
proof -
  have ok: "admission_ok (rs_admission rs)" using assms(1) by (simp add: run_ok_def)
  obtain a where a: "release_each la_release ps (rs_admission rs) = Inr a" "admission_ok a"
      "la_capacity a = la_capacity (rs_admission rs)"
      "la_permits a = filter (\<lambda>t. t \<notin> set ps) (la_permits (rs_admission rs))"
    using lease_pool.release_each_held[OF ok assms(2,3)] by blast
  then have "run_ok (rs\<lparr>rs_admission := a\<rparr>)" using assms(1,4) by (auto simp: run_ok_def rs_tokens_def)
  then show ?thesis using a by (auto simp: release_permits_def)
qed

text \<open>The \<open>finally\<close> clause after an answer, whatever part of the permits was used.\<close>

lemma fetch_finally_ok:
  assumes "run_ok (wk_run w)" "distinct unused" "set unused \<inter> set (worker_tokens w) = {}"
    and "set (la_permits (rs_admission (wk_run w))) = set (worker_tokens w) \<union> set unused"
    and "int (la_capacity (rs_admission (wk_run w))) = wc_concurrency cfg" "1 \<le> wc_visibility_ms cfg"
    and "1 \<le> wk_backoff w" "wk_backoff w \<le> 30" "wk_state w = Terminate \<longrightarrow> rs_shutdown (wk_run w)"
  shows "worker_ok cfg (fetch_finally unused b w) \<and> wk_state (fetch_finally unused b w) = wk_state w
    \<and> rs_shutdown (wk_run (fetch_finally unused b w)) = rs_shutdown (wk_run w)
    \<and> wk_fetch (fetch_finally unused b w) = (if b then Fetch_wait else Fetch_head)
    \<and> worker_tokens (fetch_finally unused b w) = worker_tokens w"
proof -
  obtain rs' where rs': "release_permits unused (wk_run w) = Inr rs'" "run_ok rs'"
      "rs_tokens rs' = rs_tokens (wk_run w)" "rs_shutdown rs' = rs_shutdown (wk_run w)"
      "la_capacity (rs_admission rs') = la_capacity (rs_admission (wk_run w))"
      "set (la_permits (rs_admission rs')) = set (la_permits (rs_admission (wk_run w))) - set unused"
    using release_permits_ok[OF assms(1,2)] assms(3,4) by (auto simp: worker_tokens_def)
  have "set (la_permits (rs_admission rs')) = set (rs_tokens rs')"
    using rs'(3,6) assms(3,4) by (auto simp: worker_tokens_def)
  then show ?thesis using rs' assms
    by (auto simp: fetch_finally_def worker_ok_def reserved_def worker_tokens_def)
qed

lemma fetch_ok_ok:
  assumes w: "worker_ok cfg w" and f: "wk_fetch w = Fetching permits"
  shows "worker_ok cfg (fetch_ok cfg now jobs permits w)
    \<and> wk_state (fetch_ok cfg now jobs permits w) = wk_state w
    \<and> rs_shutdown (wk_run (fetch_ok cfg now jobs permits w)) = rs_shutdown (wk_run w)
    \<and> worker_tokens (fetch_ok cfg now jobs permits w) = worker_tokens w @ take (length jobs) permits
    \<and> (case wk_fetch (fetch_ok cfg now jobs permits w) of
          Rejecting js unused \<Rightarrow> js = drop (length permits) jobs \<and> unused = []
        | _ \<Rightarrow> length jobs \<le> length permits)"
proof -
  let ?xs = "zip (take (length permits) jobs) permits"
  let ?n = "length ?xs"
  have ok: "run_ok (wk_run w)" "1 \<le> wc_visibility_ms cfg" "distinct permits"
      "set permits \<inter> set (worker_tokens w) = {}"
      "set (la_permits (rs_admission (wk_run w))) = set (worker_tokens w) \<union> set permits"
      "int (la_capacity (rs_admission (wk_run w))) = wc_concurrency cfg"
    using w f by (simp_all add: worker_ok_def reserved_def)
  have snds: "map snd ?xs = take (length jobs) permits" "?n = min (length jobs) (length permits)"
    by (simp_all add: map_snd_zip_take min_def)
  have used: "drop ?n permits = drop (length jobs) permits" unfolding snds(2) by (simp add: min_def)
  have split: "set permits = set (take (length jobs) permits) \<union> set (drop (length jobs) permits)"
    "set (take (length jobs) permits) \<inter> set (drop (length jobs) permits) = {}"
    using ok(3) by (metis append_take_drop_id set_append) (metis append_take_drop_id distinct_append ok(3))
  obtain rs where rs: "start_executions (wc_visibility_ms cfg) now ?xs (wk_run w) 0 = (None, rs, ?n)"
      "run_ok rs" "rs_tokens rs = rs_tokens (wk_run w) @ take (length jobs) permits"
      "rs_admission rs = rs_admission (wk_run w)" "rs_shutdown rs = rs_shutdown (wk_run w)"
    using start_executions_ok[of "wk_run w" "wc_visibility_ms cfg" ?xs now 0] ok split(1) snds
    by (auto simp: worker_tokens_def)
  let ?w = "w\<lparr>wk_run := rs\<rparr>"
  have disj: "set (drop (length jobs) permits) \<inter> set (worker_tokens ?w) = {}"
    using rs(3) ok(4) split by (auto simp: worker_tokens_def)
  have permits: "set (la_permits (rs_admission rs)) = set (worker_tokens ?w) \<union> set (drop (length jobs) permits)"
    using rs(3,4) ok(5) split(1) by (auto simp: worker_tokens_def)
  show ?thesis
  proof (cases "drop (length permits) jobs = []")
    case True
    have "fetch_ok cfg now jobs permits w = fetch_finally (drop (length jobs) permits) (jobs = []) ?w"
      by (simp only: fetch_ok_def rs(1) prod.case Let_def True used simp_thms if_False)
    moreover have "worker_ok cfg (fetch_finally (drop (length jobs) permits) (jobs = []) ?w)
        \<and> wk_state (fetch_finally (drop (length jobs) permits) (jobs = []) ?w) = wk_state ?w
        \<and> rs_shutdown (wk_run (fetch_finally (drop (length jobs) permits) (jobs = []) ?w)) = rs_shutdown (wk_run ?w)
        \<and> wk_fetch (fetch_finally (drop (length jobs) permits) (jobs = []) ?w) = (if jobs = [] then Fetch_wait else Fetch_head)
        \<and> worker_tokens (fetch_finally (drop (length jobs) permits) (jobs = []) ?w) = worker_tokens ?w"
      by (rule fetch_finally_ok) (use w rs ok disj permits in \<open>simp_all add: worker_ok_def\<close>)
    ultimately show ?thesis using True rs(3,5) by (simp add: worker_tokens_def)
  next
    case False
    then have none: "drop (length jobs) permits = []" by simp
    have "fetch_ok cfg now jobs permits w
        = ?w\<lparr>wk_fetch := Rejecting (drop (length permits) jobs) (drop (length jobs) permits)\<rparr>"
      using False by (simp only: fetch_ok_def rs(1) prod.case Let_def used simp_thms if_True)
    then show ?thesis using False none w rs permits
      by (auto simp: worker_ok_def reserved_def worker_tokens_def)
  qed
qed

lemma fetch_failed_ok:
  assumes w: "worker_ok cfg w" and f: "wk_fetch w = Fetching permits"
  shows "worker_ok cfg (fetch_failed e permits w) \<and> wk_state (fetch_failed e permits w) = wk_state w
    \<and> rs_shutdown (wk_run (fetch_failed e permits w)) = rs_shutdown (wk_run w)
    \<and> worker_tokens (fetch_failed e permits w) = worker_tokens w"
proof -
  have "worker_ok cfg (fetch_finally permits True w) \<and> wk_state (fetch_finally permits True w) = wk_state w
    \<and> rs_shutdown (wk_run (fetch_finally permits True w)) = rs_shutdown (wk_run w)
    \<and> wk_fetch (fetch_finally permits True w) = Fetch_wait
    \<and> worker_tokens (fetch_finally permits True w) = worker_tokens w"
    using fetch_finally_ok[of w permits cfg True] w f by (auto simp: worker_ok_def reserved_def)
  then show ?thesis
    by (auto simp: fetch_failed_def Let_def worker_ok_def reserved_def worker_tokens_def split: fetch_phase.splits)
qed

lemma reject_step_ok:
  assumes w: "worker_ok cfg w" and f: "wk_fetch w = Rejecting js unused"
  shows "worker_ok cfg (reject_step d w) \<and> wk_state (reject_step d w) = wk_state w
    \<and> rs_shutdown (wk_run (reject_step d w)) = rs_shutdown (wk_run w)
    \<and> worker_tokens (reject_step d w) = worker_tokens w"
proof -
  have fin: "worker_ok cfg (fetch_finally unused False w) \<and> wk_state (fetch_finally unused False w) = wk_state w
    \<and> rs_shutdown (wk_run (fetch_finally unused False w)) = rs_shutdown (wk_run w)
    \<and> wk_fetch (fetch_finally unused False w) = Fetch_head
    \<and> worker_tokens (fetch_finally unused False w) = worker_tokens w"
    using fetch_finally_ok[of w unused cfg False] w f by (auto simp: worker_ok_def reserved_def)
  show ?thesis
  proof (cases js)
    case Nil
    then show ?thesis using w f by (simp add: reject_step_def)
  next
    case (Cons j js')
    show ?thesis
    proof (cases d)
      case None
      then show ?thesis using fin w f Cons
        by (auto simp: reject_step_def worker_ok_def reserved_def worker_tokens_def)
    next
      case (Some e)
      then show ?thesis using fin f Cons
        by (auto simp: reject_step_def Let_def worker_ok_def reserved_def worker_tokens_def)
    qed
  qed
qed

lemma fetch_turn_ok:
  assumes w: "worker_ok cfg w" and f: "wk_fetch w = Fetch_head" and u: "fresh_draws uuid4 (rs_admission (wk_run w))"
  shows "\<exists>w'. fetch_turn uuid4 w = Some w' \<and> worker_ok cfg w' \<and> wk_state w' = wk_state w
    \<and> rs_shutdown (wk_run w') = rs_shutdown (wk_run w) \<and> worker_tokens w' = worker_tokens w"
proof -
  have ok: "admission_ok (rs_admission (wk_run w))" using w by (simp add: worker_ok_def run_ok_def)
  let ?a = "rs_admission (wk_run w)"
  obtain ts where ts: "reserve_available uuid4 ?a = Some (ts, ?a\<lparr>la_permits := la_permits ?a @ ts, la_semaphore := 0\<rparr>)"
      "length ts = nat (la_available ?a)" "distinct ts" "set ts \<inter> set (la_permits ?a) = {}"
    using reserve_available_ok[OF ok u] by blast
  have a: "admission_ok (?a\<lparr>la_permits := la_permits ?a @ ts, la_semaphore := 0\<rparr>)"
    using admission_ok_reserved[OF ok ts(3,4,2)] .
  have disj: "set ts \<inter> set (rs_tokens (wk_run w)) = {}"
    using w ts(4) by (auto simp: worker_ok_def run_ok_def)
  show ?thesis
  proof (cases "rs_shutdown (wk_run w) \<or> wk_state w = Quiet")
    case True
    then show ?thesis using w f by (auto simp: fetch_turn_def worker_ok_def reserved_def worker_tokens_def)
  next
    case False
    let ?w = "w\<lparr>wk_run := (wk_run w)\<lparr>rs_admission := ?a\<lparr>la_permits := la_permits ?a @ ts, la_semaphore := 0\<rparr>\<rparr>,
                wk_fetch := (if ts = [] then Fetch_wait else Fetching ts)\<rparr>"
    have "fetch_turn uuid4 w = Some ?w" using False ts(1) by (simp add: fetch_turn_def Let_def)
    moreover have "worker_ok cfg ?w"
      using w f a disj ts(3) by (auto simp: worker_ok_def reserved_def worker_tokens_def run_ok_def rs_tokens_def)
    ultimately show ?thesis by (auto simp: worker_tokens_def)
  qed
qed

lemma worker_ok_beat [simp]: "worker_ok cfg (w\<lparr>wk_beat := b\<rparr>) \<longleftrightarrow> worker_ok cfg w"
  by (simp add: worker_ok_def reserved_def worker_tokens_def)

lemma worker_ok_state: "worker_ok cfg w \<Longrightarrow> s \<noteq> Terminate \<Longrightarrow> worker_ok cfg (w\<lparr>wk_state := s\<rparr>)"
  by (simp add: worker_ok_def reserved_def worker_tokens_def)

lemma worker_ok_backoff: "worker_ok cfg w \<Longrightarrow> 1 \<le> b \<Longrightarrow> b \<le> 30 \<Longrightarrow> worker_ok cfg (w\<lparr>wk_backoff := b\<rparr>)"
  by (simp add: worker_ok_def reserved_def worker_tokens_def)

lemma request_shutdown_keeps [simp]:
  "rs_tokens (request_shutdown rs) = rs_tokens rs" "rs_admission (request_shutdown rs) = rs_admission rs"
  "rs_shutdown (request_shutdown rs)"
  by (simp_all add: request_shutdown_def rs_tokens_def)

lemma worker_ok_termination: "worker_ok cfg w \<Longrightarrow> worker_ok cfg (request_termination w)"
  by (simp add: request_termination_def worker_ok_def reserved_def worker_tokens_def)

lemma worker_ok_extend:
  assumes "worker_ok cfg w"
  shows "worker_ok cfg (w\<lparr>wk_run := rg_extend_leases ms ids now (wk_run w)\<rparr>)"
  using assms run_ok_extend[of "wk_run w"] by (simp add: worker_ok_def reserved_def worker_tokens_def)

lemma heartbeat_keeps:
  assumes "worker_ok cfg w"
  shows "worker_ok cfg (heartbeat_response cfg' now r w)" "worker_ok cfg (heartbeat_failed e w)"
    "worker_ok cfg (heartbeat_wake w)" "worker_ok cfg (heartbeat_turn w)" "worker_ok cfg (request_termination w)"
proof -
  have "worker_ok cfg (w\<lparr>wk_run := rg_extend_leases ms ids now (wk_run w), wk_backoff := 1\<rparr>)" for ms ids
    by (intro worker_ok_backoff worker_ok_extend assms) simp_all
  then show "worker_ok cfg (heartbeat_response cfg' now r w)"
    by (simp add: heartbeat_response_def Let_def worker_ok_termination worker_ok_state)
  show "worker_ok cfg (heartbeat_failed e w)" "worker_ok cfg (heartbeat_turn w)" "worker_ok cfg (request_termination w)"
    using assms by (simp_all add: heartbeat_failed_def heartbeat_turn_def worker_ok_termination)
  have "1 \<le> wk_backoff w" using assms by (simp add: worker_ok_def)
  then have "worker_ok cfg (w\<lparr>wk_backoff := min (wk_backoff w * 2) 30\<rparr>)"
    by (intro worker_ok_backoff assms) auto
  then show "worker_ok cfg (heartbeat_wake w)"
    using assms by (simp add: heartbeat_wake_def split: beat_phase.splits)
qed

lemma finish_execution_ok:
  assumes w: "worker_ok cfg w"
  shows "\<exists>w'. finish_execution t w = Inr w' \<and> worker_ok cfg w' \<and> wk_state w' = wk_state w \<and> wk_fetch w' = wk_fetch w
    \<and> rs_shutdown (wk_run w') = rs_shutdown (wk_run w) \<and> worker_tokens w' = filter (\<lambda>x. x \<noteq> t) (worker_tokens w)"
proof (cases "t \<in> set (worker_tokens w)")
  case False
  then have "finish_execution t w = Inr w"
    by (simp add: finish_execution_def rg_complete_absent worker_tokens_def)
  moreover have "filter (\<lambda>x. x \<noteq> t) (worker_tokens w) = worker_tokens w" using False by (auto simp: filter_id_conv)
  ultimately show ?thesis using w by simp
next
  case True
  have run: "run_ok (wk_run w)" using w by (simp add: worker_ok_def)
  obtain rs where rs: "rg_complete t (wk_run w) = Inr (True, rs)" "run_ok rs"
      "rs_tokens rs = filter (\<lambda>x. x \<noteq> t) (rs_tokens (wk_run w))"
      "la_permits (rs_admission rs) = remove1 t (la_permits (rs_admission (wk_run w)))"
      "la_capacity (rs_admission rs) = la_capacity (rs_admission (wk_run w))"
      "rs_shutdown rs = rs_shutdown (wk_run w)"
    using rg_complete_held[OF run] True by (auto simp: worker_tokens_def)
  have "distinct (la_permits (rs_admission (wk_run w)))" using run by (simp add: run_ok_def admission_ok_def)
  then have "set (la_permits (rs_admission rs)) = set (rs_tokens rs) \<union> set (reserved w)"
    using w rs(3,4) True by (auto simp: worker_ok_def worker_tokens_def)
  then have "worker_ok cfg (w\<lparr>wk_run := rs\<rparr>)"
    using w rs by (auto simp: worker_ok_def reserved_def worker_tokens_def)
  then show ?thesis using rs by (auto simp: finish_execution_def worker_tokens_def)
qed

lemma coordinator_ok:
  assumes w: "worker_ok cfg w"
  shows "worker_ok cfg (coordinator_shutdown w) \<and> wk_state (coordinator_shutdown w) = wk_state w
    \<and> rs_shutdown (wk_run (coordinator_shutdown w))
    \<and> worker_tokens (coordinator_shutdown w) = worker_tokens w"
proof -
  let ?w = "w\<lparr>wk_run := request_shutdown (wk_run w), wk_beat := Beat_over\<rparr>"
  have ok: "worker_ok cfg ?w" "wk_fetch ?w = wk_fetch w" "worker_tokens ?w = worker_tokens w" "rs_shutdown (wk_run ?w)"
    using w by (auto simp: worker_ok_def reserved_def worker_tokens_def request_shutdown_def rs_tokens_def run_ok_def)
  show ?thesis
  proof (cases "wk_fetch w")
    case (Fetching ps)
    then show ?thesis using fetch_failed_ok[OF ok(1), of ps CancelledErr] ok
      by (simp add: coordinator_shutdown_def Let_def)
  next
    case (Rejecting js ps)
    then show ?thesis using reject_step_ok[OF ok(1), of js ps "Some CancelledErr"] ok
      by (simp add: coordinator_shutdown_def Let_def)
  qed (use ok in \<open>auto simp: coordinator_shutdown_def Let_def worker_ok_def reserved_def worker_tokens_def\<close>)
qed

lemma fetch_finally_reserved [simp]: "reserved (fetch_finally ps b w) = []"
  by (simp add: fetch_finally_def reserved_def split: sum.splits)

lemma fetch_failed_reserved [simp]: "reserved (fetch_failed e ps w) = []"
  using fetch_finally_reserved[of ps True w]
  by (auto simp: fetch_failed_def Let_def reserved_def split: fetch_phase.splits option.splits)

lemma coordinator_reserved: "worker_ok cfg w \<Longrightarrow> reserved (coordinator_shutdown w) = []"
proof (cases "wk_fetch w")
  case (Rejecting js ps)
  assume "worker_ok cfg w"
  then obtain j js' where "js = j # js'" using Rejecting by (cases js) (auto simp: worker_ok_def)
  then show ?thesis using Rejecting
    by (simp add: coordinator_shutdown_def reject_step_def Let_def reserved_def)
qed (simp_all add: coordinator_shutdown_def Let_def, simp_all add: reserved_def)

lemma wstep_ok:
  assumes "worker_ok cfg w" "wstep cfg w w'"
  shows "worker_ok cfg w'"
  using assms(2)
proof cases
  case (fetch_head uuid4)
  then show ?thesis using fetch_turn_ok[OF assms(1)] by fastforce
next
  case (fetch_answer permits now jobs)
  then show ?thesis using fetch_ok_ok[OF assms(1)] by blast
next
  case (fetch_error permits e)
  then show ?thesis using fetch_failed_ok[OF assms(1)] by blast
next
  case (reject js unused delivery)
  then show ?thesis using reject_step_ok[OF assms(1)] by blast
next
  case fetch_wake
  then show ?thesis using assms(1) by (auto simp: worker_ok_def reserved_def worker_tokens_def)
next
  case (finish token)
  then show ?thesis using finish_execution_ok[OF assms(1), of token] by simp
next
  case coordinate
  then show ?thesis using coordinator_ok[OF assms(1)] by blast
qed (use heartbeat_keeps[OF assms(1)] in auto)

text \<open>Shutdown is never taken back, and once it is requested no directive changes the public state.\<close>

lemma wstep_shutdown:
  assumes "worker_ok cfg w" "rs_shutdown (wk_run w)" "wstep cfg w w'"
  shows "rs_shutdown (wk_run w') \<and> (wk_state w' = wk_state w \<or> wk_state w' = Terminate)"
  using assms(3)
proof cases
  case (fetch_head uuid4)
  then show ?thesis using fetch_turn_ok[OF assms(1)] assms(2) by fastforce
next
  case (fetch_answer permits now jobs)
  then show ?thesis using fetch_ok_ok[OF assms(1)] assms(2) by blast
next
  case (fetch_error permits e)
  then show ?thesis using fetch_failed_ok[OF assms(1)] assms(2) by blast
next
  case (reject js unused delivery)
  then show ?thesis using reject_step_ok[OF assms(1)] assms(2) by blast
next
  case (finish token)
  then show ?thesis using finish_execution_ok[OF assms(1), of token] assms(2) by simp
next
  case coordinate
  then show ?thesis using coordinator_ok[OF assms(1)] by blast
qed (use assms(2) in \<open>auto simp: heartbeat_turn_def heartbeat_response_def heartbeat_failed_def heartbeat_wake_def
       request_termination_def request_shutdown_def Let_def\<close>)

definition worker_initial :: "worker_config \<Rightarrow> worker \<Rightarrow> bool" where
  "worker_initial cfg w \<longleftrightarrow> 1 \<le> wc_visibility_ms cfg \<and> worker_start cfg = Inr w"

lemma worker_initial_ok:
  assumes "worker_initial cfg w"
  shows "worker_ok cfg w"
proof -
  obtain rs where rs: "new_run_state (wc_concurrency cfg) = Inr rs"
      and w: "w = \<lparr>wk_state = Running, wk_run = rs, wk_fetch = Fetch_head, wk_beat = Beat_head, wk_backoff = 1\<rparr>"
    using assms by (auto simp: worker_initial_def worker_start_def bindR_eq_Inr_iff)
  have "int (la_capacity (rs_admission rs)) = wc_concurrency cfg" "la_permits (rs_admission rs) = []"
      "rs_tokens rs = []"
    using rs by (auto simp: new_run_state_def new_admission_def bindR_eq_Inr_iff rs_tokens_def split: if_splits)
  then show ?thesis
    using run_ok_new[OF rs] assms w by (simp add: worker_ok_def reserved_def worker_tokens_def worker_initial_def)
qed

interpretation worker_system: invariant_system "worker_initial cfg" "wstep cfg" "worker_ok cfg" for cfg
  by unfold_locales (auto intro: worker_initial_ok wstep_ok)

interpretation terminating_system: invariant_system "\<lambda>w. False" "wstep cfg"
  "\<lambda>w. worker_ok cfg w \<and> rs_shutdown (wk_run w) \<and> wk_state w = Terminate" for cfg
proof unfold_locales
  fix s t
  assume "worker_ok cfg s \<and> rs_shutdown (wk_run s) \<and> wk_state s = Terminate" "wstep cfg s t"
  then show "worker_ok cfg t \<and> rs_shutdown (wk_run t) \<and> wk_state t = Terminate"
    using wstep_ok[of cfg s t] wstep_shutdown[of cfg s t] by auto
qed simp

text \<open>
  C1. Capacity is never exceeded: in every reachable state of a run the executions have distinct
  permits, they and the permits of the fetch in flight together are exactly the permits taken, and
  there are never more of them than the configured concurrency; the heartbeat backoff stays between
  one and thirty seconds, and the fetch loop is never ended by an exception of its own.
\<close>

theorem capacity_invariant:
  assumes "reachable (worker_initial cfg) (wstep cfg) w"
  shows "distinct (worker_tokens w) \<and> set (reserved w) \<inter> set (worker_tokens w) = {}
    \<and> set (la_permits (rs_admission (wk_run w))) = set (worker_tokens w) \<union> set (reserved w)
    \<and> int (length (worker_tokens w) + length (reserved w)) \<le> wc_concurrency cfg
    \<and> 1 \<le> wk_backoff w \<and> wk_backoff w \<le> 30
    \<and> (\<forall>e. wk_fetch w = Fetch_over (Some e) \<longrightarrow> \<not> is_exception e)"
proof -
  have w: "worker_ok cfg w" using worker_system.reachable_inv[OF assms] .
  then have ok: "admission_ok (rs_admission (wk_run w))" "distinct (worker_tokens w)" "distinct (reserved w)"
      "set (reserved w) \<inter> set (worker_tokens w) = {}"
      "set (la_permits (rs_admission (wk_run w))) = set (worker_tokens w) \<union> set (reserved w)"
    by (auto simp: worker_ok_def run_ok_def worker_tokens_def)
  have "length (worker_tokens w) + length (reserved w) = card (set (worker_tokens w) \<union> set (reserved w))"
    using ok(2,3,4) by (simp add: card_Un_disjoint distinct_card Int_commute)
  also have "\<dots> = length (la_permits (rs_admission (wk_run w)))"
    using ok(1,5) by (metis admission_ok_def distinct_card)
  also have "\<dots> \<le> la_capacity (rs_admission (wk_run w))"
    using lease_pool.held_bound[OF ok(1)] .
  finally show ?thesis using w ok by (auto simp: worker_ok_def)
qed

theorem capacity_invariant_witness:
  "\<exists>w. worker_start \<lparr>wc_concurrency = 2, wc_visibility_ms = 30000\<rparr> = Inr w
     \<and> int (length (worker_tokens w) + length (reserved w)) \<le> 2"
proof -
  obtain w where w: "worker_start \<lparr>wc_concurrency = 2, wc_visibility_ms = 30000\<rparr> = Inr w"
    by (auto simp: worker_start_def new_run_state_def new_admission_def)
  then have "reachable (worker_initial \<lparr>wc_concurrency = 2, wc_visibility_ms = 30000\<rparr>)
      (wstep \<lparr>wc_concurrency = 2, wc_visibility_ms = 30000\<rparr>) w"
    by (intro reach_start) (simp add: worker_initial_def)
  then show ?thesis using capacity_invariant w by fastforce
qed

text \<open>
  C6. \<open>TERMINATE\<close> is one-way: once a reachable worker is in that state, every later state of the run is
  in it too and shutdown stays requested, whatever heartbeat responses, fetches and executions were
  still in flight.
\<close>

theorem terminate_one_way:
  assumes "reachable (worker_initial cfg) (wstep cfg) w" and "wk_state w = Terminate"
    and "(wstep cfg)\<^sup>*\<^sup>* w w'"
  shows "wk_state w' = Terminate \<and> rs_shutdown (wk_run w')"
proof -
  have "worker_ok cfg w" using worker_system.reachable_inv[OF assms(1)] .
  then show ?thesis
    using terminating_system.steps_inv[OF assms(3)] assms(2) by (auto simp: worker_ok_def)
qed

definition sample_config :: worker_config where
  "sample_config = \<lparr>wc_concurrency = 2, wc_visibility_ms = 30000\<rparr>"

definition sample_worker :: worker where
  "sample_worker = (case worker_start sample_config of Inr w \<Rightarrow> w | Inl _ \<Rightarrow> undefined)"

lemma sample_worker_start: "worker_start sample_config = Inr sample_worker"
  by (simp add: sample_worker_def worker_start_def new_run_state_def new_admission_def sample_config_def)

lemma sample_worker_reachable: "reachable (worker_initial sample_config) (wstep sample_config) sample_worker"
  using sample_worker_start by (intro reach_start) (simp add: worker_initial_def sample_config_def)

text \<open>The race the code guards against: a \<open>quiet\<close> response to a heartbeat sent before \<open>stop()\<close>.\<close>

theorem terminate_one_way_witness:
  "wk_state (heartbeat_response sample_config 0 [(PStr ''state'', PStr ''quiet'')]
     (request_termination (heartbeat_turn sample_worker))) = Terminate"
proof -
  let ?w0 = "heartbeat_turn sample_worker" and ?w1 = "request_termination (heartbeat_turn sample_worker)"
  have beat: "wk_beat sample_worker = Beat_head" "\<not> rs_shutdown (wk_run sample_worker)"
    by (simp_all add: sample_worker_def worker_start_def new_run_state_def new_admission_def sample_config_def)
  then have "wstep sample_config sample_worker ?w0" by (intro wstep.beat_head)
  moreover have "wstep sample_config ?w0 ?w1" by (rule wstep.stop)
  ultimately have r: "reachable (worker_initial sample_config) (wstep sample_config) ?w1"
    using sample_worker_reachable by (blast intro: reach_step)
  have "wk_beat ?w1 = Beating" "wk_state ?w1 = Terminate"
    using beat by (simp_all add: request_termination_def heartbeat_turn_def)
  moreover have "wstep sample_config ?w1 (heartbeat_response sample_config 0 [(PStr ''state'', PStr ''quiet'')] ?w1)"
    using \<open>wk_beat ?w1 = Beating\<close> by (rule wstep.beat_answer)
  ultimately show ?thesis using terminate_one_way[OF r] by blast
qed

lemma drain_ok:
  "worker_ok cfg w \<Longrightarrow> \<exists>w'. drain_executions ts w = Inr w' \<and> worker_ok cfg w' \<and> wk_fetch w' = wk_fetch w
     \<and> worker_tokens w' = filter (\<lambda>x. x \<notin> set ts) (worker_tokens w)"
proof (induction ts arbitrary: w)
  case (Cons t ts)
  obtain w1 where w1: "finish_execution t w = Inr w1" "worker_ok cfg w1" "wk_fetch w1 = wk_fetch w"
      "worker_tokens w1 = filter (\<lambda>x. x \<noteq> t) (worker_tokens w)"
    using finish_execution_ok[OF Cons.prems] by blast
  obtain w' where "drain_executions ts w1 = Inr w'" "worker_ok cfg w'" "wk_fetch w' = wk_fetch w1"
      "worker_tokens w' = filter (\<lambda>x. x \<notin> set ts) (worker_tokens w1)"
    using Cons.IH[OF w1(2)] by blast
  moreover have "filter (\<lambda>x. x \<notin> set ts) (filter (\<lambda>x. x \<noteq> t) (worker_tokens w))
      = filter (\<lambda>x. x \<notin> set (t # ts)) (worker_tokens w)"
    by (auto simp: filter_filter intro!: filter_cong)
  ultimately show ?case using w1 by simp
qed simp

text \<open>
  C7. Shutdown leaves nothing behind: when the coordinator has cancelled the loops in any reachable
  state, the fetch in flight has given its permits back, and once the remaining executions have ended
  there are no executions, every permit is free, the semaphore is full again and \<open>wait_empty\<close> returns.
\<close>

theorem shutdown_drains:
  assumes "reachable (worker_initial cfg) (wstep cfg) w"
  shows "\<exists>w'. drain_executions (worker_tokens (coordinator_shutdown w)) (coordinator_shutdown w) = Inr w'
    \<and> worker_tokens w' = [] \<and> la_permits (rs_admission (wk_run w')) = []
    \<and> int (la_semaphore (rs_admission (wk_run w'))) = wc_concurrency cfg \<and> rs_empty (wk_run w')"
proof -
  let ?w = "coordinator_shutdown w"
  have w: "worker_ok cfg ?w" using coordinator_ok worker_system.reachable_inv[OF assms] by blast
  have "reserved ?w = []"
    using worker_system.reachable_inv[OF assms] by (rule coordinator_reserved)
  obtain w' where w': "drain_executions (worker_tokens ?w) ?w = Inr w'" "worker_ok cfg w'"
      "wk_fetch w' = wk_fetch ?w" "worker_tokens w' = filter (\<lambda>x. x \<notin> set (worker_tokens ?w)) (worker_tokens ?w)"
    using drain_ok[OF w] by blast
  then have none: "worker_tokens w' = []" "reserved w' = []"
    using \<open>reserved ?w = []\<close> by (simp_all add: filter_empty_conv reserved_def)
  then have "la_permits (rs_admission (wk_run w')) = []" using w'(2) by (auto simp: worker_ok_def)
  then show ?thesis using w' none
    by (auto simp: worker_ok_def run_ok_def admission_ok_def worker_tokens_def rs_tokens_def)
qed

theorem shutdown_drains_witness:
  "\<exists>w'. drain_executions (worker_tokens (coordinator_shutdown sample_worker)) (coordinator_shutdown sample_worker) = Inr w'
    \<and> la_permits (rs_admission (wk_run w')) = []"
  using shutdown_drains[OF sample_worker_reachable] by blast

end
