(* ===== verification/Fake.thy ===== *)
theory Fake
  imports Worker Queues_Events Builtins
begin

section \<open>The in-memory transport\<close>

text \<open>
  \<open>src/ojs/transport/fake.py\<close>.  The store is the state; a job object is identified by its position in
  \<open>enqueued\<close>, so \<open>performed\<close> holds positions (Python keeps the same objects in both lists).  The clock
  reading of \<open>created_at\<close> and \<open>str\<close> of a value that is not a string are arguments.  A handler runs on
  its job and may change it.
\<close>

subsection \<open>The store\<close>

record fake_job =
  fj_id :: string
  fj_type :: string
  fj_queue :: string
  fj_args :: "pyval list"
  fj_meta :: pydict
  fj_state :: string
  fj_attempt :: int
  fj_options :: pydict
  fj_result :: pyval
  fj_errors :: "pydict list"
  fj_created_at :: string

text \<open>
  A registered handler is a function of its own job: it may change the job and raise.  A handler that
  enqueues or changes other jobs of the store while it runs is outside the model.
\<close>

type_synonym fake_handler = "fake_job \<Rightarrow> (exn + unit) \<times> fake_job"

record fake_store =
  fs_enqueued :: "fake_job list"
  fs_performed :: "nat list"
  fs_handlers :: "(string \<times> fake_handler) list"
  fs_next_id :: nat

definition new_store :: fake_store where
  "new_store = \<lparr>fs_enqueued = [], fs_performed = [], fs_handlers = [], fs_next_id = 0\<rparr>"

text \<open>The f-string \<open>fake-{n:06d}\<close>: six digits at least.\<close>

definition fake_id :: "nat \<Rightarrow> string" where
  "fake_id n = ''fake-'' @ replicate (6 - length (string_of_nat n)) CHR ''0'' @ string_of_nat n"

definition record_enqueue :: "string \<Rightarrow> string \<Rightarrow> pyval list \<Rightarrow> string \<Rightarrow> pydict option \<Rightarrow> pydict option
    \<Rightarrow> fake_store \<Rightarrow> fake_job \<times> fake_store" where
  "record_enqueue now job_type args queue meta options st =
     (let n = fs_next_id st + 1;
          j = \<lparr>fj_id = fake_id n, fj_type = job_type, fj_queue = queue, fj_args = args,
               fj_meta = (case meta of None \<Rightarrow> [] | Some m \<Rightarrow> m), fj_state = ''available'', fj_attempt = 0,
               fj_options = (case options of None \<Rightarrow> [] | Some p \<Rightarrow> p), fj_result = PNone, fj_errors = [],
               fj_created_at = now\<rparr>
      in (j, st\<lparr>fs_enqueued := fs_enqueued st @ [j], fs_next_id := n\<rparr>))"

definition register_handler :: "string \<Rightarrow> fake_handler \<Rightarrow> fake_store \<Rightarrow> fake_store" where
  "register_handler t h st = st\<lparr>fs_handlers := AList.update t h (fs_handlers st)\<rparr>"

definition clear_store :: "fake_store \<Rightarrow> fake_store" where
  "clear_store st = st\<lparr>fs_enqueued := [], fs_performed := []\<rparr>"

subsection \<open>Producer operations\<close>

text \<open>
  The \<open>Job\<close> that \<open>push\<close> builds: \<open>timeout_ms\<close> and the tags are whatever the body holds (a dataclass does
  not check its fields); the fields that are not listed have their defaults.
\<close>

record pushed_job =
  pj_id :: string
  pj_type :: string
  pj_state :: job_state
  pj_args :: "pyval list"
  pj_queue :: string
  pj_meta :: pydict
  pj_priority :: int
  pj_timeout_ms :: pyval
  pj_tags :: "pyval list"

definition dict_or_empty :: "pyval \<Rightarrow> pydict" where
  "dict_or_empty v = (case v of PDict d \<Rightarrow> d | _ \<Rightarrow> [])"

definition fake_push :: "(pyval \<Rightarrow> string) \<Rightarrow> string \<Rightarrow> pydict \<Rightarrow> (fake_store, pushed_job) io" where
  "fake_push str_of now body st =
     (let options = dict_or_empty (dget_default body ''options'' (PDict []));
          meta = dict_or_empty (dget_default body ''meta'' PNone);
          args = (case dget_default body ''args'' PNone of PList xs \<Rightarrow> xs | _ \<Rightarrow> []);
          (j, st') = record_enqueue now (py_str str_of (dget_default body ''type'' (PStr []))) args
             (py_str str_of (dget_default options ''queue'' (PStr ''default''))) (Some meta) (Some options) st
      in (bindR (py_int (dget_default options ''priority'' (PInt 0))) (\<lambda>priority.
          bindR (py_list (dget_default options ''tags'' (PList []))) (\<lambda>tags.
            Inr \<lparr>pj_id = fj_id j, pj_type = fj_type j, pj_state = Available, pj_args = fj_args j,
              pj_queue = fj_queue j, pj_meta = fj_meta j, pj_priority = priority,
              pj_timeout_ms = dget_default options ''timeout_ms'' PNone, pj_tags = tags\<rparr>)), st'))"

fun fake_push_batch :: "(pyval \<Rightarrow> string) \<Rightarrow> string \<Rightarrow> pydict list \<Rightarrow> (fake_store, pushed_job list) io" where
  "fake_push_batch str_of now [] st = (Inr [], st)"
| "fake_push_batch str_of now (b # bs) st = (case fake_push str_of now b st of
     (Inl e, st1) \<Rightarrow> (Inl e, st1)
   | (Inr j, st1) \<Rightarrow> (case fake_push_batch str_of now bs st1 of
       (Inl e, st2) \<Rightarrow> (Inl e, st2) | (Inr js, st2) \<Rightarrow> (Inr (j # js), st2)))"

subsection \<open>Lookup and state changes\<close>

fun find_job :: "string \<Rightarrow> fake_job list \<Rightarrow> nat option" where
  "find_job i [] = None"
| "find_job i (j # js) = (if fj_id j = i then Some 0 else map_option Suc (find_job i js))"

definition job_of_fake :: "job_state \<Rightarrow> fake_job \<Rightarrow> job" where
  "job_of_fake s j = \<lparr>j_id = fj_id j, j_type = fj_type j, j_state = s, j_args = fj_args j,
     j_queue = fj_queue j, j_meta = fj_meta j, j_priority = 0, j_attempt = fj_attempt j,
     j_max_attempts = 3, j_timeout_ms = None, j_tags = [], j_retry = None, j_unique = None,
     j_created_at = None, j_enqueued_at = None, j_started_at = None, j_completed_at = None,
     j_scheduled_at = None, j_expires_at = None, j_result = fj_result j, j_errors = fj_errors j\<rparr>"

definition fake_view :: "fake_job \<Rightarrow> exn + job" where
  "fake_view j = (case parse_state (fj_state j) of
     Some s \<Rightarrow> Inr (job_of_fake s j)
   | None \<Rightarrow> Inl (ValueErr (repr_str (fj_state j) @ '' is not a valid JobState'')))"

definition fake_info :: "string \<Rightarrow> (fake_store, job) io" where
  "fake_info i st = (case find_job i (fs_enqueued st) of
     None \<Rightarrow> (Inl (KeyErr i), st) | Some n \<Rightarrow> (fake_view (fs_enqueued st ! n), st))"

text \<open>A change of the job object that \<open>_find\<close> returned.\<close>

definition change_job :: "nat \<Rightarrow> (fake_job \<Rightarrow> fake_job) \<Rightarrow> fake_store \<Rightarrow> fake_store" where
  "change_job n f st = st\<lparr>fs_enqueued := (fs_enqueued st)[n := f (fs_enqueued st ! n)]\<rparr>"

definition fake_cancel :: "string \<Rightarrow> (fake_store, job) io" where
  "fake_cancel i st = (case find_job i (fs_enqueued st) of
     None \<Rightarrow> (Inl (KeyErr i), st)
   | Some n \<Rightarrow> let st' = change_job n (\<lambda>j. j\<lparr>fj_state := ''cancelled''\<rparr>) st
       in (fake_view (fs_enqueued st' ! n), st'))"

definition fake_answer :: "string \<Rightarrow> string \<Rightarrow> pyval" where
  "fake_answer i s = PDict [(PStr ''job_id'', PStr i), (PStr ''state'', PStr s)]"

definition fake_ack :: "string \<Rightarrow> pyval \<Rightarrow> (fake_store, pyval) io" where
  "fake_ack i result st = (case find_job i (fs_enqueued st) of
     None \<Rightarrow> (Inl (KeyErr i), st)
   | Some n \<Rightarrow> (Inr (fake_answer i ''completed''),
       change_job n (\<lambda>j. j\<lparr>fj_state := ''completed'', fj_result := result\<rparr>) st))"

definition fake_nack :: "string \<Rightarrow> pydict \<Rightarrow> (fake_store, pyval) io" where
  "fake_nack i error st = (case find_job i (fs_enqueued st) of
     None \<Rightarrow> (Inl (KeyErr i), st)
   | Some n \<Rightarrow> let s = (if truthy (dget_default error ''retryable'' (PBool True)) then ''retryable'' else ''discarded'')
       in (Inr (fake_answer i s), change_job n (\<lambda>j. j\<lparr>fj_errors := fj_errors j @ [error], fj_state := s\<rparr>) st))"

subsection \<open>Fetch and statistics\<close>

definition fetchable :: "string list \<Rightarrow> fake_job \<Rightarrow> bool" where
  "fetchable queues j \<longleftrightarrow> fj_queue j \<in> set queues \<and> fj_state j \<in> {''available'', ''retryable''}"

definition activate :: "fake_job \<Rightarrow> fake_job" where
  "activate j = j\<lparr>fj_state := ''active'', fj_attempt := fj_attempt j + 1\<rparr>"

lemma not_fetchable_activate [simp]: "\<not> fetchable queues (activate j)"
  by (simp add: fetchable_def activate_def)

text \<open>The loop over the store; \<open>n\<close> more jobs may be selected.\<close>

fun fetch_loop :: "string list \<Rightarrow> int \<Rightarrow> fake_job list \<Rightarrow> job list \<times> fake_job list" where
  "fetch_loop queues n [] = ([], [])"
| "fetch_loop queues n (j # js) =
     (if n \<le> 0 then ([], j # js)
      else if \<not> fetchable queues j then (case fetch_loop queues n js of (sel, js') \<Rightarrow> (sel, j # js'))
      else (case fetch_loop queues (n - 1) js of (sel, js') \<Rightarrow>
        (job_of_fake Active (activate j) # sel, activate j # js')))"

definition fake_fetch :: "string list \<Rightarrow> int \<Rightarrow> (fake_store, job list) io" where
  "fake_fetch queues count st = (case fetch_loop queues count (fs_enqueued st) of
     (sel, js) \<Rightarrow> (Inr sel, st\<lparr>fs_enqueued := js\<rparr>))"

definition fake_queue_stats :: "string \<Rightarrow> fake_store \<Rightarrow> queue_stats" where
  "fake_queue_stats q st =
     (let n = (\<lambda>s. int (length (filter (\<lambda>j. fj_state j = s) (filter (\<lambda>j. fj_queue j = q) (fs_enqueued st)))))
      in \<lparr>qs_queue = q, qs_status = ''active'', qs_available = n ''available'', qs_active = n ''active'',
          qs_scheduled = n ''scheduled'', qs_retryable = n ''retryable'', qs_discarded = n ''discarded'',
          qs_completed_last_hour = 0, qs_failed_last_hour = 0, qs_avg_duration_ms = Fin 0,
          qs_avg_wait_ms = Fin 0, qs_throughput_per_second = Fin 0, qs_computed_at = None\<rparr>)"

definition fake_unsupported :: "string \<Rightarrow> (fake_store, 'a) io" where
  "fake_unsupported capability = raiseIO (CapabilityErr (''FakeTransport does not implement '' @ capability
     @ ''; inject a transport that provides this capability.''))"

text \<open>The operations outside the fake's capabilities, each refused by the name of its capability.\<close>

definition fake_heartbeat :: "string \<Rightarrow> string list option \<Rightarrow> int option \<Rightarrow> (fake_store, pyval) io" where
  "fake_heartbeat worker_id active_jobs visibility_timeout_ms = fake_unsupported ''worker heartbeat''"

definition fake_list_queues :: "(fake_store, queue list) io" where
  "fake_list_queues = fake_unsupported ''queue listing''"

datatype fake_refused =
    Pause_queue string | Resume_queue string
  | Create_workflow | Get_workflow string | Cancel_workflow string
  | Manifest
  | List_dead_letter_jobs "string option" int int | Retry_dead_letter_job string | Delete_dead_letter_job string
  | List_cron_jobs int int | Register_cron_job pydict | Unregister_cron_job string
  | List_schemas int int | Register_schema pydict | Get_schema string | Delete_schema string
  | Progress pydict | Get_progress string

definition fake_refuse :: "fake_refused \<Rightarrow> (fake_store, 'a) io" where
  "fake_refuse opn = fake_unsupported (case opn of
     Pause_queue _ \<Rightarrow> ''queue pause''
   | Resume_queue _ \<Rightarrow> ''queue resume''
   | Create_workflow \<Rightarrow> ''workflow creation''
   | Get_workflow _ \<Rightarrow> ''workflow lookup''
   | Cancel_workflow _ \<Rightarrow> ''workflow cancellation''
   | Manifest \<Rightarrow> ''manifest''
   | List_dead_letter_jobs _ _ _ \<Rightarrow> ''dead-letter listing''
   | Retry_dead_letter_job _ \<Rightarrow> ''dead-letter retry''
   | Delete_dead_letter_job _ \<Rightarrow> ''dead-letter deletion''
   | List_cron_jobs _ _ \<Rightarrow> ''cron listing''
   | Register_cron_job _ \<Rightarrow> ''cron registration''
   | Unregister_cron_job _ \<Rightarrow> ''cron removal''
   | List_schemas _ _ \<Rightarrow> ''schema listing''
   | Register_schema _ \<Rightarrow> ''schema registration''
   | Get_schema _ \<Rightarrow> ''schema lookup''
   | Delete_schema _ \<Rightarrow> ''schema deletion''
   | Progress _ \<Rightarrow> ''progress reporting''
   | Get_progress _ \<Rightarrow> ''progress lookup'')"

definition fake_request :: "string \<Rightarrow> string \<Rightarrow> pydict option \<Rightarrow> (fake_store, pyval) io" where
  "fake_request method path body = fake_unsupported ''generic requests''"

definition fake_health :: "(fake_store, pyval) io" where
  "fake_health = retIO (PDict [(PStr ''status'', PStr ''ok''), (PStr ''transport'', PStr ''fake'')])"

subsection \<open>The store as a map\<close>

text \<open>
  The abstract store: the job with each id.  \<open>find_job\<close> looks it up, and a change of one job is an
  update of the map; the id of a job is never changed.
\<close>

definition fake_abs :: "fake_store \<Rightarrow> string \<Rightarrow> fake_job option" where
  "fake_abs st = map_of (map (\<lambda>j. (fj_id j, j)) (fs_enqueued st))"

lemma find_job_map:
  "find_job i js = Some n \<Longrightarrow> n < length js \<and> fj_id (js ! n) = i \<and> map_of (map (\<lambda>j. (fj_id j, j)) js) i = Some (js ! n)"
  "find_job i js = None \<longleftrightarrow> map_of (map (\<lambda>j. (fj_id j, j)) js) i = None"
  by (induction js arbitrary: n) (auto split: if_splits)

lemma find_job_abs:
  "find_job i (fs_enqueued st) = Some n \<Longrightarrow> fake_abs st i = Some (fs_enqueued st ! n)"
  "find_job i (fs_enqueued st) = None \<longleftrightarrow> fake_abs st i = None"
  using find_job_map[of i "fs_enqueued st"] by (auto simp: fake_abs_def)

lemma map_of_change:
  assumes "find_job i js = Some n" "fj_id j' = i"
  shows "map_of (map (\<lambda>j. (fj_id j, j)) (js[n := j'])) = (map_of (map (\<lambda>j. (fj_id j, j)) js))(i \<mapsto> j')"
  using assms
proof (induction js arbitrary: n)
  case (Cons j js)
  then show ?case by (cases "fj_id j = i") (auto simp: fun_upd_twist split: if_splits)
qed simp

lemma abs_change:
  assumes "find_job i (fs_enqueued st) = Some n" "\<And>j. fj_id (f j) = fj_id j" "fake_abs st i = Some j"
  shows "fake_abs (change_job n f st) = (fake_abs st)(i \<mapsto> f j)"
proof -
  have "fs_enqueued st ! n = j" using find_job_abs(1)[OF assms(1)] assms(3) by simp
  moreover have "fj_id (f j) = i" using calculation assms(2) find_job_map(1)[OF assms(1)] by simp
  ultimately show ?thesis using map_of_change[OF assms(1)] by (simp add: change_job_def fake_abs_def)
qed

lemma nat_of_digits_zeros [simp]: "nat_of_digits (replicate k CHR ''0'' @ s) = nat_of_digits s"
  by (induction k) (simp_all add: nat_of_digits_def digit_val_def)

lemma fake_id_inj [simp]: "fake_id m = fake_id n \<longleftrightarrow> m = n"
proof
  have "nat_of_digits (drop 5 (fake_id k)) = k" for k by (simp add: fake_id_def)
  then show "fake_id m = fake_id n \<Longrightarrow> m = n" by metis
qed simp

text \<open>What a reported outcome makes of a job.\<close>

definition settle_job :: "terminal_outcome \<Rightarrow> fake_job \<Rightarrow> fake_job" where
  "settle_job x j = (case x of
     Completed_outcome r \<Rightarrow> j\<lparr>fj_state := ''completed'', fj_result := r\<rparr>
   | Failed_outcome e \<Rightarrow> j\<lparr>fj_errors := fj_errors j @ [e],
       fj_state := (if truthy (dget_default e ''retryable'' (PBool True)) then ''retryable'' else ''discarded'')\<rparr>)"

definition fake_ack_unit :: "string \<Rightarrow> pyval \<Rightarrow> (fake_store, unit) io" where
  "fake_ack_unit i r = bindIO (fake_ack i r) (\<lambda>_. retIO ())"

definition fake_nack_unit :: "string \<Rightarrow> pydict \<Rightarrow> (fake_store, unit) io" where
  "fake_nack_unit i e = bindIO (fake_nack i e) (\<lambda>_. retIO ())"

lemma fake_send:
  "send_outcome fake_ack_unit fake_nack_unit i x st = (case find_job i (fs_enqueued st) of
     None \<Rightarrow> (Inl (KeyErr i), st) | Some n \<Rightarrow> (Inr (), change_job n (settle_job x) st))"
  by (cases x) (auto simp: send_outcome_def fake_ack_unit_def fake_nack_unit_def fake_ack_def fake_nack_def
      settle_job_def bindIO_def retIO_def change_job_def Let_def split: option.splits)

lemma settle_job_id [simp]: "fj_id (settle_job x j) = fj_id j"
  by (cases x) (simp_all add: settle_job_def)

lemma fake_send_abs:
  "fake_abs st i = Some j \<Longrightarrow> \<exists>st'. send_outcome fake_ack_unit fake_nack_unit i x st = (Inr (), st')
     \<and> fake_abs st' = (fake_abs st)(i \<mapsto> settle_job x j)"
  using abs_change[of i st _ "settle_job x" j] find_job_abs(2)[of i st]
  by (cases "find_job i (fs_enqueued st)") (auto simp: fake_send)

lemma fake_send_missing:
  "fake_abs st i = None \<Longrightarrow> send_outcome fake_ack_unit fake_nack_unit i x st = (Inl (KeyErr i), st)"
  using find_job_abs(2)[of i st] by (auto simp: fake_send)

text \<open>The fake transport keeps what a transport promises to the reporter.\<close>

definition settled_view :: "terminal_outcome \<Rightarrow> fake_job option \<Rightarrow> bool" where
  "settled_view x v \<longleftrightarrow> (\<exists>j. v = Some (settle_job x j))"

lemma fake_send_frame: "k \<noteq> i \<Longrightarrow> fake_abs (snd (send_outcome fake_ack_unit fake_nack_unit i x st)) k = fake_abs st k"
  using fake_send_abs[of st i _ x] fake_send_missing[of st i x] by (cases "fake_abs st i") force+

lemma fake_send_settles:
  "send_outcome fake_ack_unit fake_nack_unit i x st = (Inr u, st') \<Longrightarrow> settled_view x (fake_abs st' i)"
  using fake_send_abs[of st i _ x] fake_send_missing[of st i x]
  by (cases "fake_abs st i") (auto simp: settled_view_def)

interpretation fake_sink: completion_sink fake_ack_unit fake_nack_unit fake_abs settled_view
  using fake_send_settles[where x = "Completed_outcome _"] fake_send_settles[where x = "Failed_outcome _"]
    fake_send_frame[where x = "Completed_outcome _"] fake_send_frame[where x = "Failed_outcome _"]
  by unfold_locales (simp_all add: send_outcome_def)

subsection \<open>Well-formed stores\<close>

definition fake_states :: "string set" where
  "fake_states = {''available'', ''active'', ''completed'', ''cancelled'', ''retryable'', ''discarded''}"

text \<open>
  Ids were issued in order and are not above the counter, and every state is one a \<open>Job\<close> can have.
\<close>

definition store_ok :: "fake_store \<Rightarrow> bool" where
  "store_ok st \<longleftrightarrow> (\<exists>ns. map fj_id (fs_enqueued st) = map fake_id ns \<and> sorted_wrt (<) ns
        \<and> (\<forall>n \<in> set ns. 1 \<le> n \<and> n \<le> fs_next_id st))
     \<and> (\<forall>j \<in> set (fs_enqueued st). fj_state j \<in> fake_states)"

lemma fake_states_parse: "s \<in> fake_states \<Longrightarrow> \<exists>v. parse_state s = Some v"
  using parse_state_value[of Available] parse_state_value[of Active] parse_state_value[of Completed]
    parse_state_value[of Cancelled] parse_state_value[of Retryable] parse_state_value[of Discarded]
  by (auto simp: fake_states_def)

lemma store_ok_fresh: "store_ok st \<Longrightarrow> fake_abs st (fake_id (fs_next_id st + 1)) = None"
proof -
  assume "store_ok st"
  then obtain ns where ns: "map fj_id (fs_enqueued st) = map fake_id ns" "\<forall>n \<in> set ns. n \<le> fs_next_id st"
    by (auto simp: store_ok_def)
  have "fake_id (fs_next_id st + 1) \<notin> set (map fj_id (fs_enqueued st))"
    unfolding ns(1) using ns(2) by force
  then show ?thesis by (auto simp: fake_abs_def map_of_eq_None_iff image_image)
qed

lemma store_ok_distinct: "store_ok st \<Longrightarrow> distinct (map fj_id (fs_enqueued st))"
proof -
  assume "store_ok st"
  then obtain ns where "map fj_id (fs_enqueued st) = map fake_id ns" "sorted_wrt (<) ns"
    by (auto simp: store_ok_def)
  moreover have "distinct ns" using calculation(2) by (simp add: strict_sorted_iff)
  ultimately show ?thesis by (simp add: distinct_map inj_on_def)
qed

lemma store_ok_view: "store_ok st \<Longrightarrow> j \<in> set (fs_enqueued st) \<Longrightarrow> \<exists>s. fake_view j = Inr (job_of_fake s j) \<and> state_value s = fj_state j"
  using fake_states_parse[of "fj_state j"] by (auto simp: store_ok_def fake_view_def parse_state_iff)

lemma store_ok_new: "store_ok new_store"
  by (simp add: store_ok_def new_store_def)

lemma store_ok_clear: "store_ok st \<Longrightarrow> store_ok (clear_store st)"
  by (auto simp: store_ok_def clear_store_def)

lemma store_ok_register: "store_ok st \<Longrightarrow> store_ok (register_handler t h st)"
  by (simp add: store_ok_def register_handler_def)

lemma store_ok_record:
  assumes "store_ok st"
  shows "store_ok (snd (record_enqueue now t args q m p st))"
proof -
  obtain ns where ns: "map fj_id (fs_enqueued st) = map fake_id ns" "sorted_wrt (<) ns"
      "\<forall>n \<in> set ns. 1 \<le> n \<and> n \<le> fs_next_id st"
    using assms by (auto simp: store_ok_def)
  let ?st = "snd (record_enqueue now t args q m p st)"
  have "map fj_id (fs_enqueued ?st) = map fake_id (ns @ [fs_next_id st + 1])"
    using ns(1) by (simp add: record_enqueue_def Let_def)
  moreover have "sorted_wrt (<) (ns @ [fs_next_id st + 1])" using ns by (auto simp: sorted_wrt_append)
  moreover have "\<forall>n \<in> set (ns @ [fs_next_id st + 1]). 1 \<le> n \<and> n \<le> fs_next_id ?st"
    using ns(3) by (auto simp: record_enqueue_def Let_def)
  ultimately have "\<exists>ns. map fj_id (fs_enqueued ?st) = map fake_id ns \<and> sorted_wrt (<) ns
      \<and> (\<forall>n \<in> set ns. 1 \<le> n \<and> n \<le> fs_next_id ?st)" by blast
  then show ?thesis using assms by (auto simp: store_ok_def record_enqueue_def Let_def fake_states_def)
qed

lemma fake_push_store: "snd (fake_push str_of now body st) = snd (record_enqueue now
    (py_str str_of (dget_default body ''type'' (PStr [])))
    (case dget_default body ''args'' PNone of PList xs \<Rightarrow> xs | _ \<Rightarrow> [])
    (py_str str_of (dget_default (dict_or_empty (dget_default body ''options'' (PDict []))) ''queue'' (PStr ''default'')))
    (Some (dict_or_empty (dget_default body ''meta'' PNone)))
    (Some (dict_or_empty (dget_default body ''options'' (PDict [])))) st)"
  by (simp add: fake_push_def Let_def split: prod.splits)

lemma store_ok_push: "store_ok st \<Longrightarrow> store_ok (snd (fake_push str_of now body st))"
  unfolding fake_push_store by (rule store_ok_record)

text \<open>Changes in place: the ids stay, and the new state and attempt are legal.\<close>

lemma store_ok_update:
  assumes "store_ok st" "map fj_id js = map fj_id (fs_enqueued st)"
    and "\<forall>j \<in> set js. fj_state j \<in> fake_states"
  shows "store_ok (st\<lparr>fs_enqueued := js\<rparr>)"
  using assms by (auto simp: store_ok_def)

lemma store_ok_change:
  assumes "store_ok st" "find_job i (fs_enqueued st) = Some n"
    and "\<And>j. fj_id (f j) = fj_id j \<and> fj_state (f j) \<in> fake_states"
  shows "store_ok (change_job n f st)"
proof -
  have n: "n < length (fs_enqueued st)" using find_job_map(1)[OF assms(2)] by simp
  have "map fj_id ((fs_enqueued st)[n := f (fs_enqueued st ! n)]) = map fj_id (fs_enqueued st)"
    using n assms(3) by (simp add: map_update list_update_same_conv)
  moreover have "\<forall>j \<in> set ((fs_enqueued st)[n := f (fs_enqueued st ! n)]). fj_state j \<in> fake_states"
  proof
    fix j assume "j \<in> set ((fs_enqueued st)[n := f (fs_enqueued st ! n)])"
    then consider "j = f (fs_enqueued st ! n)" | "j \<in> set (fs_enqueued st)"
      using set_update_subset_insert by fastforce
    then show "fj_state j \<in> fake_states"
      using assms(1,3) n by cases (auto simp: store_ok_def)
  qed
  ultimately show ?thesis using store_ok_update[OF assms(1)] by (simp add: change_job_def)
qed

lemma store_ok_settle: "store_ok st \<Longrightarrow> store_ok (snd (send_outcome fake_ack_unit fake_nack_unit i x st))"
  using store_ok_change[of st i _ "settle_job x"]
  by (cases x) (auto simp: fake_send settle_job_def fake_states_def split: option.splits)

lemma store_ok_cancel: "store_ok st \<Longrightarrow> store_ok (snd (fake_cancel i st))"
  using store_ok_change[of st i _ "\<lambda>j. j\<lparr>fj_state := ''cancelled''\<rparr>"]
  by (auto simp: fake_cancel_def Let_def fake_states_def split: option.splits)

subsection \<open>Fetching\<close>

definition chosen :: "(fake_job \<Rightarrow> bool) \<Rightarrow> nat \<Rightarrow> fake_job list \<Rightarrow> nat list" where
  "chosen P n js = take n (filter (\<lambda>i. P (js ! i)) [0..<length js])"

lemma filter_upt_Cons:
  "filter (\<lambda>i. P ((j # js) ! i)) [0..<length (j # js)]
     = (if P j then [0] else []) @ map Suc (filter (\<lambda>i. P (js ! i)) [0..<length js])"
  by (simp add: upt_conv_Cons filter_map comp_def map_Suc_upt[symmetric] del: upt_Suc map_Suc_upt)

lemma chosen_Cons:
  "chosen P n (j # js) = (if P j then (case n of 0 \<Rightarrow> [] | Suc m \<Rightarrow> 0 # map Suc (chosen P m js)) else map Suc (chosen P n js))"
  unfolding chosen_def filter_upt_Cons by (cases n) (simp_all add: take_map)

lemma chosen_props: "distinct (chosen P n js)" "sorted (chosen P n js)" "length (chosen P n js) \<le> n"
  "i \<in> set (chosen P n js) \<Longrightarrow> i < length js \<and> P (js ! i)"
  by (auto simp: chosen_def sorted_wrt_take sorted_filter[of id, simplified] dest!: in_set_takeD)

definition mark :: "('a \<Rightarrow> 'a) \<Rightarrow> nat list \<Rightarrow> 'a list \<Rightarrow> 'a list" where
  "mark f is js = map (\<lambda>(i, j). if i \<in> set is then f j else j) (enumerated js)"

lemma enumerated_Cons: "enumerated (j # js) = (0, j) # map (\<lambda>(i, x). (Suc i, x)) (enumerated js)"
  unfolding enumerated_def
  by (simp add: upt_conv_Cons map_Suc_upt[symmetric] zip_map1 del: upt_Suc map_Suc_upt)

lemma mark_Cons:
  "mark f (0 # map Suc is) (j # js) = f j # mark f is js" "mark f (map Suc is) (j # js) = j # mark f is js"
  "mark f [] js = js" "mark f is [] = []"
  by (auto simp: mark_def enumerated_Cons split_def image_iff intro!: map_cong nth_equalityI)

lemma fetch_loop_chosen:
  "fetch_loop queues n js = (map (\<lambda>i. job_of_fake Active (activate (js ! i))) (chosen (fetchable queues) (nat n) js),
     mark activate (chosen (fetchable queues) (nat n) js) js)"
proof (induction queues n js rule: fetch_loop.induct)
  case (1 queues n)
  then show ?case by (simp add: chosen_def mark_Cons)
next
  case (2 queues n j js)
  show ?case
  proof (cases "n \<le> 0")
    case True
    then show ?thesis by (simp add: chosen_def mark_Cons)
  next
    case False
    then obtain m where m: "nat n = Suc m" "nat (n - 1) = m" by (metis Suc_nat_eq_nat_zadd1 add.commute diff_add_cancel
      linorder_not_le nat_diff_distrib' zle_diff1_eq)
    show ?thesis using 2 False m
      by (cases "fetchable queues j") (simp_all add: chosen_Cons mark_Cons comp_def del: One_nat_def)
  qed
qed

lemma mark_nth [simp]:
  "length (mark f is js) = length js"
  "i < length js \<Longrightarrow> mark f is js ! i = (if i \<in> set is then f (js ! i) else js ! i)"
  by (auto simp: mark_def)

lemma mark_ids: "(\<And>j. g (f j) = g j) \<Longrightarrow> map g (mark f is js) = map g js"
  by (auto intro!: nth_equalityI)

lemma mark_all:
  assumes "\<forall>j \<in> set js. P j" "\<And>j. P j \<Longrightarrow> P (f j)"
  shows "\<forall>j \<in> set (mark f is js). P j"
proof
  fix j assume "j \<in> set (mark f is js)"
  then obtain i where "i < length js" "j = (if i \<in> set is then f (js ! i) else js ! i)"
    by (metis in_set_conv_nth mark_nth)
  then show "P j" using assms by (auto split: if_splits)
qed

lemma store_ok_fetch: "store_ok st \<Longrightarrow> store_ok (snd (fake_fetch queues count st))"
proof -
  let ?is = "chosen (fetchable queues) (nat count) (fs_enqueued st)"
  let ?js = "mark activate ?is (fs_enqueued st)"
  assume st: "store_ok st"
  have "\<forall>j \<in> set (fs_enqueued st). fj_state j \<in> fake_states"
    using st by (simp add: store_ok_def)
  then have "\<forall>j \<in> set ?js. fj_state j \<in> fake_states"
    by (rule mark_all) (simp add: activate_def fake_states_def)
  then have "store_ok (st\<lparr>fs_enqueued := ?js\<rparr>)"
    by (intro store_ok_update[OF st] mark_ids) (simp_all add: activate_def)
  then show ?thesis by (simp add: fake_fetch_def fetch_loop_chosen)
qed

text \<open>
  A fetch leases exactly the first jobs it may: the result is the first \<open>count\<close> jobs, in the order
  of the store, that are in one of the queues and available or retryable; each of them is active with
  one attempt more, both in the result and in the store, and no other job changes.
\<close>

theorem fake_fetch_spec:
  "let is = chosen (fetchable queues) (nat count) (fs_enqueued st) in
     \<exists>st'. fake_fetch queues count st
         = (Inr (map (\<lambda>i. job_of_fake Active (activate (fs_enqueued st ! i))) is), st')
       \<and> sorted is \<and> distinct is \<and> length is \<le> nat count
       \<and> (\<forall>i \<in> set is. i < length (fs_enqueued st) \<and> fetchable queues (fs_enqueued st ! i)
            \<and> \<not> fetchable queues (fs_enqueued st' ! i))
       \<and> length (fs_enqueued st') = length (fs_enqueued st)
       \<and> (\<forall>i < length (fs_enqueued st).
            fs_enqueued st' ! i = (if i \<in> set is then activate (fs_enqueued st ! i) else fs_enqueued st ! i))"
proof -
  let ?is = "chosen (fetchable queues) (nat count) (fs_enqueued st)"
  let ?js = "mark activate ?is (fs_enqueued st)"
  have "i < length (fs_enqueued st) \<and> fetchable queues (fs_enqueued st ! i) \<and> \<not> fetchable queues (?js ! i)"
    if i: "i \<in> set ?is" for i
  proof -
    have "i < length (fs_enqueued st)" "fetchable queues (fs_enqueued st ! i)" using chosen_props(4)[OF i] by auto
    then show ?thesis using i by simp
  qed
  moreover have "\<forall>i < length (fs_enqueued st). ?js ! i = (if i \<in> set ?is then activate (fs_enqueued st ! i) else fs_enqueued st ! i)"
    by simp
  ultimately show ?thesis unfolding Let_def
    by (intro exI[of _ "st\<lparr>fs_enqueued := ?js\<rparr>"])
      (use chosen_props(1-3) in \<open>auto simp: fake_fetch_def fetch_loop_chosen simp del: mark_nth(2)\<close>)
qed

theorem fake_fetch_spec_witness:
  "\<exists>j st'. fake_fetch [''q''] 5 (snd (record_enqueue ''now'' ''t'' [] ''q'' None None new_store)) = (Inr [j], st')
     \<and> j_attempt j = 1"
proof -
  let ?st = "snd (record_enqueue ''now'' ''t'' [] ''q'' None None new_store)"
  have "chosen (fetchable [''q'']) (nat 5) (fs_enqueued ?st) = [0]"
    by (simp add: chosen_def record_enqueue_def new_store_def fetchable_def Let_def)
  then show ?thesis
    using fake_fetch_spec[of "[''q'']" 5 ?st]
    by (auto simp: Let_def record_enqueue_def new_store_def activate_def job_of_fake_def)
qed

subsection \<open>The store refines the map\<close>

lemma abs_nth: "find_job i (fs_enqueued st) = Some n \<Longrightarrow> fake_abs st i = Some j \<Longrightarrow> fs_enqueued st ! n = j \<and> n < length (fs_enqueued st)"
  using find_job_abs(1)[of i st n] find_job_map(1)[of i "fs_enqueued st" n] by simp

lemma abs_obtain:
  assumes "fake_abs st i = Some j"
  obtains n where "find_job i (fs_enqueued st) = Some n" "fs_enqueued st ! n = j" "n < length (fs_enqueued st)" "j \<in> set (fs_enqueued st)"
proof -
  obtain n where n: "find_job i (fs_enqueued st) = Some n" using assms find_job_abs(2)[of i st] by (cases "find_job i (fs_enqueued st)") auto
  then show ?thesis using that abs_nth[OF n assms] by (metis nth_mem)
qed

lemma fake_cancel_abs:
  assumes "fake_abs st i = Some j"
  shows "\<exists>st'. fake_cancel i st = (Inr (job_of_fake Cancelled (j\<lparr>fj_state := ''cancelled''\<rparr>)), st')
     \<and> fake_abs st' = (fake_abs st)(i \<mapsto> j\<lparr>fj_state := ''cancelled''\<rparr>)"
proof -
  obtain n where n: "find_job i (fs_enqueued st) = Some n" "fs_enqueued st ! n = j" "n < length (fs_enqueued st)"
    using abs_obtain[OF assms] by blast
  have "parse_state ''cancelled'' = Some Cancelled" using parse_state_value[of Cancelled] by simp
  then have "fake_cancel i st = (Inr (job_of_fake Cancelled (j\<lparr>fj_state := ''cancelled''\<rparr>)),
      change_job n (\<lambda>j. j\<lparr>fj_state := ''cancelled''\<rparr>) st)"
    using n by (simp add: fake_cancel_def Let_def change_job_def fake_view_def)
  then show ?thesis using abs_change[OF n(1) _ assms, of "\<lambda>j. j\<lparr>fj_state := ''cancelled''\<rparr>"] by simp
qed

lemma fake_push_abs:
  assumes "store_ok st"
  shows "\<exists>j. fake_abs st (fj_id j) = None \<and> fake_abs (snd (fake_push str_of now body st)) = (fake_abs st)(fj_id j \<mapsto> j)
     \<and> fj_state j = ''available'' \<and> fj_attempt j = 0
     \<and> (\<forall>p. fst (fake_push str_of now body st) = Inr p \<longrightarrow> pj_id p = fj_id j \<and> pj_type p = fj_type j
          \<and> pj_args p = fj_args j \<and> pj_queue p = fj_queue j \<and> pj_meta p = fj_meta j)"
proof -
  let ?t = "py_str str_of (dget_default body ''type'' (PStr []))"
  let ?a = "case dget_default body ''args'' PNone of PList xs \<Rightarrow> xs | _ \<Rightarrow> []"
  let ?o = "dict_or_empty (dget_default body ''options'' (PDict []))"
  let ?q = "py_str str_of (dget_default ?o ''queue'' (PStr ''default''))"
  let ?m = "dict_or_empty (dget_default body ''meta'' PNone)"
  obtain j st' where j: "record_enqueue now ?t ?a ?q (Some ?m) (Some ?o) st = (j, st')"
    by (cases "record_enqueue now ?t ?a ?q (Some ?m) (Some ?o) st")
  have fresh: "fake_abs st (fj_id j) = None" and st': "fs_enqueued st' = fs_enqueued st @ [j]"
    and fields: "fj_state j = ''available''" "fj_attempt j = 0"
    using j store_ok_fresh[OF assms] by (auto simp: record_enqueue_def Let_def)
  have "fake_abs st' = (fake_abs st)(fj_id j \<mapsto> j)"
    using fresh st' by (auto simp: fake_abs_def map_of_append map_add_def fun_eq_iff split: option.splits)
  moreover have "snd (fake_push str_of now body st) = st'" using j by (simp add: fake_push_store)
  moreover have "\<forall>p. fst (fake_push str_of now body st) = Inr p \<longrightarrow> pj_id p = fj_id j \<and> pj_type p = fj_type j
      \<and> pj_args p = fj_args j \<and> pj_queue p = fj_queue j \<and> pj_meta p = fj_meta j"
    using j by (auto simp: fake_push_def bindR_eq_Inr_iff Let_def)
  ultimately show ?thesis using fresh fields by blast
qed

text \<open>
  C27. The store refines a map from ids to jobs: \<open>push\<close> adds one entry under an id that was not there
  (and answers with it), \<open>info\<close> reads the entry, \<open>cancel\<close>, \<open>ack\<close> and \<open>nack\<close> update it to the cancelled,
  completed, retryable or discarded job, and an operation on an absent id raises \<open>KeyError\<close> and
  changes nothing.
\<close>

theorem fake_store_refines_map:
  assumes "store_ok st"
  shows "(\<exists>j. fake_abs st (fj_id j) = None \<and> fake_abs (snd (fake_push str_of now body st)) = (fake_abs st)(fj_id j \<mapsto> j)
        \<and> fj_state j = ''available'' \<and> fj_attempt j = 0
        \<and> (\<forall>p. fst (fake_push str_of now body st) = Inr p \<longrightarrow> pj_id p = fj_id j \<and> pj_type p = fj_type j
             \<and> pj_args p = fj_args j \<and> pj_queue p = fj_queue j \<and> pj_meta p = fj_meta j))
   \<and> (case fake_abs st i of
        None \<Rightarrow> fake_info i st = (Inl (KeyErr i), st) \<and> fake_cancel i st = (Inl (KeyErr i), st)
          \<and> send_outcome fake_ack_unit fake_nack_unit i x st = (Inl (KeyErr i), st)
      | Some j \<Rightarrow> (\<exists>s. fake_info i st = (Inr (job_of_fake s j), st) \<and> state_value s = fj_state j)
          \<and> (\<exists>st'. fake_cancel i st = (Inr (job_of_fake Cancelled (j\<lparr>fj_state := ''cancelled''\<rparr>)), st')
               \<and> fake_abs st' = (fake_abs st)(i \<mapsto> j\<lparr>fj_state := ''cancelled''\<rparr>))
          \<and> (\<exists>st'. send_outcome fake_ack_unit fake_nack_unit i x st = (Inr (), st')
               \<and> fake_abs st' = (fake_abs st)(i \<mapsto> settle_job x j)))"
proof (cases "fake_abs st i")
  case None
  then show ?thesis using fake_push_abs[OF assms] fake_send_missing find_job_abs(2)[of i st]
    by (simp add: fake_info_def fake_cancel_def)
next
  case (Some j)
  obtain n where n: "find_job i (fs_enqueued st) = Some n" "fs_enqueued st ! n = j" "j \<in> set (fs_enqueued st)"
    using abs_obtain[OF Some] by blast
  have "\<exists>s. fake_info i st = (Inr (job_of_fake s j), st) \<and> state_value s = fj_state j"
    using store_ok_view[OF assms n(3)] n by (auto simp: fake_info_def)
  then show ?thesis using Some fake_push_abs[OF assms] fake_cancel_abs[OF Some] fake_send_abs[OF Some] by simp
qed

theorem fake_store_refines_map_witness:
  "fake_info ''x'' new_store = (Inl (KeyErr ''x''), new_store)"
  using fake_store_refines_map[OF store_ok_new, of "\<lambda>_. []" "''now''" "[]" "''x''"]
  by (simp add: fake_abs_def new_store_def)

end
