(* ===== verification/Enqueue.thy ===== *)
theory Enqueue
  imports Middleware
begin

section \<open>The enqueue pipeline\<close>

text \<open>
  \<open>src/ojs/client/enqueue_pipeline.py\<close>: validation of requests, the single enqueue and the batch
  enqueue around one atomic push.  The sink is an argument: what it answers may depend on everything
  it was sent, and what it was sent is the list of \<open>sink_call\<close>s.  A batch runs every chain to its call
  of the terminal, pushes once, and resumes the chains with the jobs; the chains of one batch share
  nothing but the sink, so the order of their steps does not matter.
\<close>

subsection \<open>Validation\<close>

definition is_lower :: "char \<Rightarrow> bool" where
  "is_lower c \<longleftrightarrow> 97 \<le> (of_char c :: nat) \<and> (of_char c :: nat) \<le> 122"

definition is_alnum :: "char \<Rightarrow> bool" where
  "is_alnum c \<longleftrightarrow> is_lower c \<or> is_digit c"

definition is_sep :: "char \<Rightarrow> bool" where
  "is_sep c \<longleftrightarrow> c = CHR ''-'' \<or> c = CHR ''.''"

definition Ident :: rexp where
  "Ident = Seq (Cls is_lower) (Rep (Cls (\<lambda>c. is_alnum c \<or> c = CHR ''_'')))"

definition TYPE_PATTERN :: rexp where
  "TYPE_PATTERN = Seq Ident (Rep (Seq (Chr CHR ''.'') Ident))"

definition QUEUE_PATTERN :: rexp where
  "QUEUE_PATTERN = Seq (Cls is_alnum)
     (Rep (Seq (Rep (Cls is_alnum)) (Seq (Opt (Cls is_sep)) (Plus1 (Cls is_alnum)))))"

text \<open>The pattern the error message documents.\<close>

definition QUEUE_MESSAGE_PATTERN :: rexp where
  "QUEUE_MESSAGE_PATTERN = Seq (Cls is_alnum) (Rep (Cls (\<lambda>c. is_alnum c \<or> is_sep c)))"

definition validate_request :: "job_request \<Rightarrow> exn + unit" where
  "validate_request r = (let t = jr_type r; q = jr_queue r in
     if t = [] \<or> str_strip t = [] then Inl (ValidationErr ''job_type must not be empty'')
     else if 255 < length t then Inl (ValidationErr
       (''job_type must not exceed 255 characters, got '' @ string_of_nat (length t)))
     else if \<not> fullmatch TYPE_PATTERN t then Inl (ValidationErr
       (''invalid job_type '' @ repr_str t @ '': must match pattern ^[a-z][a-z0-9_]*('' @ [CHR 0x5C] @ ''.[a-z][a-z0-9_]*)*$''))
     else if q = [] \<or> str_strip q = [] then Inl (ValidationErr ''queue must not be empty'')
     else if 128 < length q then Inl (ValidationErr
       (''queue must not exceed 128 characters, got '' @ string_of_nat (length q)))
     else if \<not> fullmatch QUEUE_PATTERN q then Inl (ValidationErr
       (''invalid queue '' @ repr_str q @ '': must match pattern ^[a-z0-9][a-z0-9'' @ [CHR 0x5C] @ ''-.]*$''))
     else Inr ())"

subsection \<open>One request\<close>

datatype sink_call = Push job_request | Push_batch "job_request list"

type_synonym sink = "sink_call list \<Rightarrow> job_request \<Rightarrow> exn + job"
type_synonym batch_sink = "sink_call list \<Rightarrow> job_request list \<Rightarrow> exn + job list"

text \<open>The chain run to its end, each call of the terminal validated and pushed.\<close>

primrec run_chain :: "sink \<Rightarrow> echain \<Rightarrow> sink_call list \<Rightarrow> (exn + job option) \<times> sink_call list" where
  "run_chain push (Finish x) tr = (x, tr)"
| "run_chain push (Next r k) tr = (case validate_request r of
     Inl e \<Rightarrow> run_chain push (k (Inl e)) tr
   | Inr _ \<Rightarrow> run_chain push (k (map_sum id Some (push tr r))) (tr @ [Push r]))"

definition enqueue :: "sink \<Rightarrow> enqueue_middleware list \<Rightarrow> job_request \<Rightarrow> sink_call list
    \<Rightarrow> (exn + job) \<times> sink_call list" where
  "enqueue push ms r tr = (case validate_request r of
     Inl e \<Rightarrow> (Inl e, tr)
   | Inr _ \<Rightarrow> (case run_chain push (enqueue_execute ms r) tr of
       (Inl e, tr') \<Rightarrow> (Inl e, tr')
     | (Inr None, tr') \<Rightarrow> (Inl (OJSErr ''Enqueue middleware rejected the request''), tr')
     | (Inr (Some j), tr') \<Rightarrow> (Inr j, tr')))"

subsection \<open>A batch\<close>

definition reinvoked_error :: exn where
  "reinvoked_error = OJSErr (''Batch enqueue terminal re-invoked before its single ''
     @ ''atomic transport attempt settled; whole-batch transport retry is not supported.'')"

text \<open>Once the terminal of an item has been reached, every further call of it raises.\<close>

primrec settle :: "exn \<Rightarrow> echain \<Rightarrow> exn + job option" where
  "settle err (Finish x) = x"
| "settle err (Next r k) = settle err (k (Inl err))"

text \<open>An item when every gate is set: its chain has ended, or it waits at the terminal.\<close>

datatype batch_item = Settled "exn + job option" | Waiting job_request "exn + job option \<Rightarrow> echain"

definition to_terminal :: "echain \<Rightarrow> batch_item" where
  "to_terminal c = (case c of Finish x \<Rightarrow> Settled x
     | Next r k \<Rightarrow> (case validate_request r of
         Inl e \<Rightarrow> Settled (settle e (k (Inl e)))
       | Inr _ \<Rightarrow> Waiting r k))"

definition start_item :: "enqueue_middleware list \<Rightarrow> job_request \<Rightarrow> batch_item" where
  "start_item ms r = (case validate_request r of
     Inl e \<Rightarrow> Settled (Inl e) | Inr _ \<Rightarrow> to_terminal (enqueue_execute ms r))"

text \<open>\<open>chain_errors[index]\<close> and \<open>final_results[index]\<close>: a cancelled chain leaves neither.\<close>

definition chain_error :: "exn + job option \<Rightarrow> exn option" where
  "chain_error x = (case x of Inl e \<Rightarrow> if is_exception e then Some e else None | Inr _ \<Rightarrow> None)"

definition final_result :: "exn + job option \<Rightarrow> job option" where
  "final_result x = (case x of Inr (Some j) \<Rightarrow> Some j | _ \<Rightarrow> None)"

definition gate_error :: "nat \<times> batch_item \<Rightarrow> exn option" where
  "gate_error p = (case p of (i, Settled x) \<Rightarrow>
       (if chain_error x = None \<and> final_result x = None
        then Some (OJSErr (''Enqueue middleware rejected batch item at index '' @ string_of_nat i))
        else chain_error x)
   | (_, Waiting _ _) \<Rightarrow> None)"

definition first_error :: "exn option list \<Rightarrow> exn option" where
  "first_error xs = (case filter (\<lambda>x. x \<noteq> None) xs of [] \<Rightarrow> None | e # _ \<Rightarrow> e)"

definition pending_requests :: "batch_item list \<Rightarrow> job_request list" where
  "pending_requests items = concat (map (\<lambda>i. case i of Waiting r _ \<Rightarrow> [r] | Settled _ \<Rightarrow> []) items)"

text \<open>The waiting items take the dispatched jobs in order, and their chains run to the end.\<close>

fun resume_items :: "batch_item list \<Rightarrow> job list \<Rightarrow> (exn + job option) list" where
  "resume_items [] js = []"
| "resume_items (Settled x # is) js = x # resume_items is js"
| "resume_items (Waiting r k # is) (j # js) = settle reinvoked_error (k (Inr (Some j))) # resume_items is js"
| "resume_items (Waiting r k # is) [] = []"

definition batch_results :: "(exn + job option) list \<Rightarrow> exn + job list" where
  "batch_results xs = (case first_error (map chain_error xs) of
     Some e \<Rightarrow> Inl e
   | None \<Rightarrow> Inr (map the (filter (\<lambda>r. r \<noteq> None) (map final_result xs))))"

definition enqueue_batch :: "batch_sink \<Rightarrow> enqueue_middleware list \<Rightarrow> job_request list \<Rightarrow> sink_call list
    \<Rightarrow> (exn + job list) \<times> sink_call list" where
  "enqueue_batch push_batch ms reqs tr = (if reqs = [] then (Inr [], tr) else
     let items = map (start_item ms) reqs;
         pending = pending_requests items in
     (case first_error (map gate_error (enumerated items)) of
        Some e \<Rightarrow> (Inl e, tr)
      | None \<Rightarrow>
          if pending = [] then (batch_results (resume_items items []), tr)
          else (case push_batch tr pending of
              Inl e \<Rightarrow> (Inl e, tr @ [Push_batch pending])
            | Inr dispatched \<Rightarrow>
                (if length dispatched \<noteq> length pending
                 then Inl (OJSErr (''Batch enqueue transport returned a different number of jobs (''
                    @ string_of_nat (length dispatched) @ '' != '' @ string_of_nat (length pending) @ '')''))
                 else batch_results (resume_items items dispatched), tr @ [Push_batch pending]))))"

subsection \<open>What the patterns accept\<close>

lemma kstar_concat: "w \<in> kstar A \<longleftrightarrow> (\<exists>us. set us \<subseteq> A \<and> w = concat us)"
proof
  assume "w \<in> kstar A"
  then show "\<exists>us. set us \<subseteq> A \<and> w = concat us"
  proof (induction rule: kstar.induct)
    case kstar_Nil
    show ?case by (rule exI[of _ "[]"]) simp
  next
    case (kstar_app u v)
    then obtain us where "set us \<subseteq> A" "v = concat us" by blast
    then show ?case using kstar_app(1) by (intro exI[of _ "u # us"]) simp
  qed
next
  assume "\<exists>us. set us \<subseteq> A \<and> w = concat us"
  then obtain us where "set us \<subseteq> A" "w = concat us" by blast
  then show "w \<in> kstar A"
    by (induction us arbitrary: w) (auto intro: kstar_Nil kstar_app)
qed

definition ident_name :: "string \<Rightarrow> bool" where
  "ident_name s \<longleftrightarrow> s \<noteq> [] \<and> is_lower (hd s) \<and> (\<forall>c \<in> set (tl s). is_alnum c \<or> c = CHR ''_'')"

definition dotted :: "string list \<Rightarrow> string" where
  "dotted xs = (case xs of [] \<Rightarrow> [] | y # ys \<Rightarrow> y @ concat (map ((#) CHR ''.'') ys))"

lemma Ident_lang: "s \<in> lang Ident \<longleftrightarrow> ident_name s"
proof -
  have "s \<in> lang Ident \<longleftrightarrow> (\<exists>c v. s = c # v \<and> is_lower c \<and> v \<in> lang (Rep (Cls (\<lambda>c. is_alnum c \<or> c = CHR ''_''))))"
    unfolding Ident_def by (rule lang_Seq_Cls)
  then show ?thesis unfolding lang_Rep_Cls by (cases s) (auto simp: ident_name_def)
qed

lemma TYPE_PATTERN_lang: "s \<in> lang TYPE_PATTERN \<longleftrightarrow> (\<exists>xs. xs \<noteq> [] \<and> list_all ident_name xs \<and> s = dotted xs)"
proof -
  have A: "lang (Seq (Chr CHR ''.'') Ident) = {CHR ''.'' # x | x. ident_name x}"
    using Ident_lang by (auto simp: conc_def Chr_def)
  have parts: "set us \<subseteq> {CHR ''.'' # x | x. ident_name x}
      \<longleftrightarrow> (\<exists>ys. us = map ((#) CHR ''.'') ys \<and> list_all ident_name ys)" for us
  proof (induction us)
    case (Cons u us)
    then show ?case by (auto simp: Cons_eq_map_conv)
  qed simp
  have "s \<in> lang TYPE_PATTERN \<longleftrightarrow> (\<exists>x us. s = x @ concat us \<and> ident_name x \<and> set us \<subseteq> {CHR ''.'' # x | x. ident_name x})"
    unfolding TYPE_PATTERN_def lang.simps(5)[of Ident] lang.simps(6) A conc_def kstar_concat
    using Ident_lang by auto
  also have "\<dots> \<longleftrightarrow> (\<exists>x ys. s = dotted (x # ys) \<and> ident_name x \<and> list_all ident_name ys)"
    unfolding parts by (auto simp: dotted_def)
  also have "\<dots> \<longleftrightarrow> (\<exists>xs. xs \<noteq> [] \<and> list_all ident_name xs \<and> s = dotted xs)"
    by (metis list.exhaust list.pred_inject(2) list.distinct(1))
  finally show ?thesis .
qed

text \<open>What may follow the first character of a queue name.\<close>

fun queue_tail :: "string \<Rightarrow> bool" where
  "queue_tail [] = True"
| "queue_tail (c # s) = (if is_alnum c then queue_tail s
     else is_sep c \<and> s \<noteq> [] \<and> is_alnum (hd s) \<and> queue_tail s)"

lemma queue_tail_alnums: "\<forall>c \<in> set a. is_alnum c \<Longrightarrow> queue_tail (a @ s) = queue_tail s"
  by (induction a) auto

lemma is_sep_not_alnum: "is_sep c \<Longrightarrow> \<not> is_alnum c"
  by (auto simp: is_sep_def is_alnum_def is_lower_def is_digit_def)

definition queue_chunk :: rexp where
  "queue_chunk = Seq (Rep (Cls is_alnum)) (Seq (Opt (Cls is_sep)) (Plus1 (Cls is_alnum)))"

lemma queue_chunk_lang:
  "u \<in> lang queue_chunk \<longleftrightarrow> (\<exists>a b p. u = a @ b @ p \<and> (\<forall>c \<in> set a. is_alnum c)
     \<and> (b = [] \<or> (\<exists>c. b = [c] \<and> is_sep c)) \<and> p \<noteq> [] \<and> (\<forall>c \<in> set p. is_alnum c))"
proof -
  have "u \<in> lang queue_chunk \<longleftrightarrow> (\<exists>a b p. u = a @ b @ p \<and> a \<in> lang (Rep (Cls is_alnum))
      \<and> b \<in> lang (Opt (Cls is_sep)) \<and> p \<in> lang (Plus1 (Cls is_alnum)))"
    unfolding queue_chunk_def lang.simps(5) conc_def by blast
  moreover have "b \<in> lang (Opt (Cls is_sep)) \<longleftrightarrow> b = [] \<or> (\<exists>c. b = [c] \<and> is_sep c)" for b
    by (auto simp: Opt_def)
  ultimately show ?thesis unfolding lang_Rep_Cls lang_Plus1_Cls by simp
qed

lemma queue_chunks: "w \<in> lang (Rep queue_chunk) \<longleftrightarrow> queue_tail w"
proof
  assume "w \<in> lang (Rep queue_chunk)"
  then have "w \<in> kstar (lang queue_chunk)" by simp
  then show "queue_tail w"
  proof (induction rule: kstar.induct)
    case (kstar_app u v)
    then obtain a b p where u: "u = a @ b @ p" "\<forall>c \<in> set a. is_alnum c" "p \<noteq> []" "\<forall>c \<in> set p. is_alnum c"
        and b: "b = [] \<or> (\<exists>c. b = [c] \<and> is_sep c)"
      unfolding queue_chunk_lang by blast
    have p: "queue_tail (p @ v)" using u kstar_app.IH by (simp add: queue_tail_alnums)
    have "is_alnum (hd (p @ v))" using u by simp
    then have "queue_tail (b @ p @ v)" using b p is_sep_not_alnum u(3) by auto
    then show ?case using u(1,2) by (simp add: queue_tail_alnums)
  qed simp
next
  have single: "[c] \<in> lang queue_chunk" if "is_alnum c" for c
    unfolding queue_chunk_lang using that by (intro exI[of _ "[]"] exI[of _ "[c]"]) simp
  have pair: "[c, d] \<in> lang queue_chunk" if "is_sep c" "is_alnum d" for c d
    unfolding queue_chunk_lang using that by (intro exI[of _ "[]"] exI[of _ "[c]"] exI[of _ "[d]"]) simp
  show "queue_tail w \<Longrightarrow> w \<in> lang (Rep queue_chunk)"
  proof (induction w rule: length_induct)
    case (1 w)
    show ?case
    proof (cases w)
      case Nil
      then show ?thesis by (simp add: kstar_Nil)
    next
      case (Cons c s)
      show ?thesis
      proof (cases "is_alnum c")
        case True
        then have "s \<in> kstar (lang queue_chunk)" using 1 Cons by simp
        then show ?thesis using kstar_app[OF single[OF True]] Cons by fastforce
      next
        case False
        then obtain d s' where s: "s = d # s'" "is_sep c" "is_alnum d" "queue_tail s'"
          using 1(2) Cons by (cases s) auto
        then have "s' \<in> kstar (lang queue_chunk)" using 1(1) Cons by simp
        then show ?thesis using kstar_app[OF pair[OF s(2,3)]] Cons s(1) by fastforce
      qed
    qed
  qed
qed

definition queue_name :: "string \<Rightarrow> bool" where
  "queue_name q \<longleftrightarrow> q \<noteq> [] \<and> is_alnum (hd q) \<and> is_alnum (last q) \<and> (\<forall>c \<in> set q. is_alnum c \<or> is_sep c)
     \<and> successively (\<lambda>a b. \<not> (is_sep a \<and> is_sep b)) q"

lemma queue_tail_iff:
  "queue_tail s \<longleftrightarrow> s = [] \<or> is_alnum (last s) \<and> (\<forall>c \<in> set s. is_alnum c \<or> is_sep c)
     \<and> successively (\<lambda>a b. \<not> (is_sep a \<and> is_sep b)) s"
proof (induction s)
  case (Cons c s)
  show ?case
  proof (cases s)
    case Nil
    then show ?thesis using is_sep_not_alnum by auto
  next
    case (Cons d t)
    then show ?thesis using Cons.IH is_sep_not_alnum by (auto simp: successively_Cons)
  qed
qed simp

lemma QUEUE_PATTERN_lang: "q \<in> lang QUEUE_PATTERN \<longleftrightarrow> queue_name q"
proof -
  have "q \<in> lang QUEUE_PATTERN \<longleftrightarrow> (\<exists>c s. q = c # s \<and> is_alnum c \<and> s \<in> lang (Rep queue_chunk))"
    unfolding QUEUE_PATTERN_def queue_chunk_def[symmetric] by (rule lang_Seq_Cls)
  also have "\<dots> \<longleftrightarrow> queue_name q"
    unfolding queue_chunks queue_tail_iff queue_name_def
    by (cases q) (auto simp: successively_Cons dest: is_sep_not_alnum)
  finally show ?thesis .
qed

lemma QUEUE_MESSAGE_lang:
  "q \<in> lang QUEUE_MESSAGE_PATTERN \<longleftrightarrow> q \<noteq> [] \<and> is_alnum (hd q) \<and> (\<forall>c \<in> set q. is_alnum c \<or> is_sep c)"
proof -
  have "q \<in> lang QUEUE_MESSAGE_PATTERN \<longleftrightarrow>
      (\<exists>c s. q = c # s \<and> is_alnum c \<and> s \<in> lang (Rep (Cls (\<lambda>c. is_alnum c \<or> is_sep c))))"
    unfolding QUEUE_MESSAGE_PATTERN_def by (rule lang_Seq_Cls)
  then show ?thesis unfolding lang_Rep_Cls by (cases q) auto
qed

lemma alnum_not_space: "is_alnum c \<Longrightarrow> \<not> is_space c"
  by (auto simp: is_alnum_def is_lower_def is_digit_def is_space_def Let_def)

lemma ident_not_blank: "ident_name x \<Longrightarrow> str_strip (dotted (x # xs)) \<noteq> []"
  using alnum_not_space[of "hd x"]
  by (cases x) (auto simp: str_strip_eq_Nil_iff ident_name_def dotted_def is_alnum_def)

text \<open>
  C15. Request validation accepts exactly the well-formed names: the type is a dotted sequence of
  identifiers of at most 255 characters, and the queue has at most 128 letters, digits and
  separators, starts and ends with a letter or digit, and has no two separators in a row.
\<close>

theorem validate_request_iff:
  "validate_request r = Inr () \<longleftrightarrow>
     length (jr_type r) \<le> 255 \<and> (\<exists>xs. xs \<noteq> [] \<and> list_all ident_name xs \<and> jr_type r = dotted xs)
     \<and> length (jr_queue r) \<le> 128 \<and> queue_name (jr_queue r)"
proof -
  have type: "jr_type r \<noteq> [] \<and> str_strip (jr_type r) \<noteq> []"
    if a: "xs \<noteq> []" "list_all ident_name xs" "jr_type r = dotted xs" for xs
  proof -
    obtain x ys where xs: "xs = x # ys" using a(1) by (cases xs) auto
    then have "str_strip (jr_type r) \<noteq> []" using a ident_not_blank by simp
    moreover have "str_strip [] = []" by (simp add: str_strip_def)
    ultimately show ?thesis by metis
  qed
  have queue: "jr_queue r \<noteq> [] \<and> str_strip (jr_queue r) \<noteq> []" if "queue_name (jr_queue r)"
    using that alnum_not_space hd_in_set by (auto simp: queue_name_def str_strip_eq_Nil_iff)
  show ?thesis
    using type queue
    by (auto simp: validate_request_def Let_def fullmatch_lang TYPE_PATTERN_lang QUEUE_PATTERN_lang not_less)
qed

text \<open>
  The queue pattern in the error message is not the one that is checked: every name the check
  accepts matches the documented pattern, but names that end with a separator match it and are
  refused.
\<close>

theorem queue_message_pattern_wider:
  "(\<forall>q. queue_name q \<longrightarrow> q \<in> lang QUEUE_MESSAGE_PATTERN)
   \<and> ''mail-'' \<in> lang QUEUE_MESSAGE_PATTERN \<and> \<not> fullmatch QUEUE_PATTERN ''mail-''"
proof -
  have "\<not> queue_name ''mail-''" "''mail-'' \<in> lang QUEUE_MESSAGE_PATTERN"
    unfolding QUEUE_MESSAGE_lang by (simp_all add: queue_name_def is_alnum_def is_lower_def is_digit_def is_sep_def)
  then show ?thesis
    unfolding fullmatch_lang QUEUE_PATTERN_lang QUEUE_MESSAGE_lang by (simp add: queue_name_def)
qed

theorem queue_message_pattern_wider_witness:
  "queue_name ''mail'' \<and> ''mail'' \<in> lang QUEUE_MESSAGE_PATTERN"
  using queue_message_pattern_wider
  by (auto simp: queue_name_def is_alnum_def is_lower_def is_sep_def successively_Cons)

theorem validate_request_iff_witness: "validate_request (new_request ''email.send'' []) = Inr ()"
proof -
  have "list_all ident_name [''email'', ''send''] \<and> ''email.send'' = dotted [''email'', ''send'']"
    by (simp add: ident_name_def dotted_def is_alnum_def is_lower_def)
  then have "\<exists>xs. xs \<noteq> [] \<and> list_all ident_name xs \<and> ''email.send'' = dotted xs" by blast
  then show ?thesis
    using validate_request_iff[of "new_request ''email.send'' []"]
    by (simp add: new_request_def queue_name_def is_alnum_def is_lower_def successively_Cons is_sep_def)
qed

subsection \<open>What is pushed\<close>

lemma run_chain_pushes:
  "\<exists>new. snd (run_chain push c tr) = tr @ map Push new \<and> (\<forall>q \<in> set new. validate_request q = Inr ())"
proof (induction c arbitrary: tr)
  case (Finish x)
  show ?case by (rule exI[of _ "[]"]) simp
next
  case (Next r k)
  show ?case
  proof (cases "validate_request r")
    case (Inl e)
    then show ?thesis using Next[of "k (Inl e)"] by simp
  next
    case (Inr u)
    let ?x = "map_sum id Some (push tr r)"
    obtain new where "snd (run_chain push (k ?x) (tr @ [Push r])) = (tr @ [Push r]) @ map Push new"
        "\<forall>q \<in> set new. validate_request q = Inr ()"
      using Next[of "k ?x"] by blast
    then show ?thesis using Inr by (intro exI[of _ "r # new"]) simp
  qed
qed

lemma sample_valid: "validate_request (new_request ''a'' []) = Inr ()"
  by code_simp

lemma enqueue_no_middleware:
  "validate_request r = Inr () \<Longrightarrow> enqueue push [] r tr = (push tr r, tr @ [Push r])"
  by (cases "push tr r") (auto simp: enqueue_def)

text \<open>
  Only valid requests leave the client: whatever the middleware does to a request, however often
  it calls the transport and whatever the transport answers, every request \<open>enqueue\<close> pushes passes
  validation.  An invalid request raises its error before any middleware runs, and without middleware
  a valid one is pushed exactly once and the answer of the transport is the result.
\<close>

theorem enqueue_pushes_valid:
  "(\<exists>new. snd (enqueue push ms r tr) = tr @ map Push new \<and> (\<forall>q \<in> set new. validate_request q = Inr ()))
   \<and> (\<forall>e. validate_request r = Inl e \<longrightarrow> enqueue push ms r tr = (Inl e, tr))
   \<and> (validate_request r = Inr () \<longrightarrow> enqueue push [] r tr = (push tr r, tr @ [Push r]))"
proof (cases "validate_request r")
  case (Inl e)
  then show ?thesis by (auto simp: enqueue_def intro: exI[of _ "[]"])
next
  case (Inr u)
  have "snd (enqueue push ms r tr) = snd (run_chain push (enqueue_execute ms r) tr)"
    using Inr by (auto simp: enqueue_def split: prod.splits sum.splits option.splits)
  then show ?thesis using Inr run_chain_pushes[of push "enqueue_execute ms r" tr] enqueue_no_middleware by simp
qed

theorem enqueue_pushes_valid_witness:
  "snd (enqueue (\<lambda>_ _. Inl CancelledErr) [] (new_request ''a'' []) []) = [Push (new_request ''a'' [])]"
  using enqueue_pushes_valid[of "\<lambda>_ _. Inl CancelledErr" "[]" "new_request ''a'' []" "[]"] sample_valid
  by simp

lemma to_terminal_waiting: "to_terminal c = Waiting q k \<Longrightarrow> validate_request q = Inr ()"
  by (cases c) (auto simp: to_terminal_def split: sum.splits)

lemma start_item_waiting: "start_item ms r = Waiting q k \<Longrightarrow> validate_request q = Inr ()"
  by (auto simp: start_item_def to_terminal_waiting split: sum.splits)

lemma pending_valid:
  assumes "q \<in> set (pending_requests (map (start_item ms) reqs))"
  shows "validate_request q = Inr ()"
proof -
  obtain r k where "Waiting q k = start_item ms r"
    using assms by (auto simp: pending_requests_def split: batch_item.splits)
  then have "start_item ms r = Waiting q k" ..
  then show ?thesis by (rule start_item_waiting)
qed

lemma pending_length: "length (pending_requests items) \<le> length items"
  by (induction items) (auto simp: pending_requests_def split: batch_item.splits)

lemma first_error_None: "first_error xs = None \<longleftrightarrow> (\<forall>x \<in> set xs. x = None)"
  by (induction xs) (auto simp: first_error_def split: list.splits)

lemma first_error_Some: "first_error xs = Some e \<Longrightarrow> Some e \<in> set xs"
proof (induction xs)
  case (Cons x xs)
  then show ?case by (cases x) (auto simp: first_error_def)
qed (simp add: first_error_def)

text \<open>
  C2. A batch is atomic: \<open>enqueue_batch\<close> makes at most one push, every request in it passes validation
  and there are at most as many as were given; and when an item is refused before its terminal (a
  validation error, an error of its middleware, or a result of \<open>None\<close>), nothing is pushed and the
  call raises that item's error.
\<close>

theorem enqueue_batch_atomic:
  "(snd (enqueue_batch push ms reqs tr) = tr
    \<or> (\<exists>ps. snd (enqueue_batch push ms reqs tr) = tr @ [Push_batch ps] \<and> ps \<noteq> []
        \<and> length ps \<le> length reqs \<and> (\<forall>q \<in> set ps. validate_request q = Inr ())))
   \<and> (\<forall>i < length reqs. \<forall>e. gate_error (i, start_item ms (reqs ! i)) = Some e \<longrightarrow>
        (\<exists>i' < length reqs. \<exists>e'. gate_error (i', start_item ms (reqs ! i')) = Some e'
           \<and> enqueue_batch push ms reqs tr = (Inl e', tr)))"
proof -
  let ?items = "map (start_item ms) reqs"
  have valid: "\<forall>q \<in> set (pending_requests ?items). validate_request q = Inr ()" using pending_valid by blast
  have len: "length (pending_requests ?items) \<le> length reqs" using pending_length[of ?items] by simp
  have first: "snd (enqueue_batch push ms reqs tr) = tr \<or>
      (snd (enqueue_batch push ms reqs tr) = tr @ [Push_batch (pending_requests ?items)]
        \<and> pending_requests ?items \<noteq> [])"
    by (auto simp: enqueue_batch_def Let_def split: option.splits sum.splits)
  have second: "\<exists>i' < length reqs. \<exists>e'. gate_error (i', start_item ms (reqs ! i')) = Some e'
      \<and> enqueue_batch push ms reqs tr = (Inl e', tr)"
    if i: "i < length reqs" "gate_error (i, start_item ms (reqs ! i)) = Some e" for i e
  proof -
    have "Some e \<in> set (map gate_error (enumerated ?items))"
      using i nth_mem[of i "map gate_error (enumerated ?items)"] by simp
    then have "first_error (map gate_error (enumerated ?items)) \<noteq> None"
      unfolding first_error_None by blast
    then obtain e' where e': "first_error (map gate_error (enumerated ?items)) = Some e'" by blast
    then have "Some e' \<in> set (map gate_error (enumerated ?items))" by (rule first_error_Some)
    then obtain i' where "i' < length reqs" "gate_error (i', start_item ms (reqs ! i')) = Some e'"
      by (auto simp: in_set_conv_nth simp del: set_map)
    then show ?thesis using e' i(1) by (auto simp: enqueue_batch_def Let_def)
  qed
  show ?thesis using first second valid len by blast
qed

theorem enqueue_batch_atomic_witness:
  "\<exists>e. enqueue_batch (\<lambda>_ _. Inr []) [] [new_request ''a'' [], new_request '''' []] [] = (Inl e, [])"
proof -
  have "gate_error (1, start_item [] ([new_request ''a'' [], new_request '''' []] ! 1))
      = Some (ValidationErr ''job_type must not be empty'')"
    by (simp add: start_item_def validate_request_def new_request_def gate_error_def chain_error_def final_result_def)
  then show ?thesis
    using conjunct2[OF enqueue_batch_atomic[of "\<lambda>_ _. Inr []" "[]" "[new_request ''a'' [], new_request '''' []]" "[]"],
        rule_format, of 1] by auto
qed

text \<open>Middleware that passes everything through leaves the items waiting with their own requests.\<close>

lemma start_item_through:
  "validate_request r = Inr () \<Longrightarrow> start_item (replicate n pass_through) r = Waiting r Finish"
  by (simp add: start_item_def to_terminal_def pass_through_chain)

lemma resume_waiting:
  "length js = length rs \<Longrightarrow> resume_items (map (\<lambda>r. Waiting r Finish) rs) js = map (Inr \<circ> Some) js"
  by (induction rs js rule: list_induct2') auto

lemma batch_results_some: "batch_results (map (Inr \<circ> Some) js) = Inr js"
proof -
  have "first_error (map chain_error (map (Inr \<circ> Some) js)) = None"
    unfolding first_error_None by (auto simp: chain_error_def)
  moreover have "map the (filter (\<lambda>r. r \<noteq> None) (map final_result (map (Inr \<circ> Some) js))) = js"
    by (induction js) (simp_all add: final_result_def)
  ultimately show ?thesis by (simp add: batch_results_def)
qed

text \<open>
  A plain batch: with middleware that passes requests through, valid requests and a transport
  that answers with one job per request, \<open>enqueue_batch\<close> pushes exactly the requests, once and in
  order, and returns the transport's jobs in that order.
\<close>

theorem enqueue_batch_plain:
  assumes "\<And>r. r \<in> set reqs \<Longrightarrow> validate_request r = Inr ()" and "reqs \<noteq> []"
    and "push tr reqs = Inr jobs" and "length jobs = length reqs"
  shows "enqueue_batch push (replicate n pass_through) reqs tr = (Inr jobs, tr @ [Push_batch reqs])"
proof -
  have items: "map (start_item (replicate n pass_through)) reqs = map (\<lambda>r. Waiting r Finish) reqs"
    using assms(1) start_item_through by simp
  have pend: "pending_requests (map (\<lambda>r. Waiting r Finish) reqs) = reqs"
    by (simp add: pending_requests_def comp_def)
  have "gate_error (i, (map (\<lambda>r. Waiting r Finish) reqs) ! i) = None" if "i < length reqs" for i
    using that by (simp add: gate_error_def)
  then have "first_error (map gate_error (enumerated (map (\<lambda>r. Waiting r Finish) reqs))) = None"
    unfolding first_error_None by (auto simp: in_set_conv_nth)
  then show ?thesis
    using assms(2-4) by (simp add: enqueue_batch_def Let_def items pend resume_waiting batch_results_some)
qed

theorem enqueue_batch_plain_witness:
  "enqueue_batch (\<lambda>_ rs. Inr (map (\<lambda>r. jc_job sample_context) rs)) [pass_through] [new_request ''a'' []] []
     = (Inr [jc_job sample_context], [Push_batch [new_request ''a'' []]])"
proof -
  have "validate_request (new_request ''a'' []) = Inr ()" by (rule sample_valid)
  then show ?thesis
    using enqueue_batch_plain[of "[new_request ''a'' []]" "\<lambda>_ rs. Inr (map (\<lambda>r. jc_job sample_context) rs)" "[]"
        "[jc_job sample_context]" 1] by simp
qed

text \<open>
  A batch of one agrees with a single enqueue: when the middleware calls the terminal at most once
  per call, the push succeeds and the chain ends with a job, \<open>enqueue\<close> returns that job and
  \<open>enqueue_batch\<close> returns the list of it.
\<close>

theorem batch_of_one:
  assumes "validate_request r = Inr ()" and "enqueue_execute ms r = Next q k" and "validate_request q = Inr ()"
    and "push tr q = Inr j" and "k (Inr (Some j)) = Finish (Inr (Some j'))"
  shows "fst (enqueue push ms r tr) = Inr j'
    \<and> fst (enqueue_batch (\<lambda>t qs. mapR (push t) qs) ms [r] tr) = Inr [j']"
  using assms
  by (simp add: enqueue_def enqueue_batch_def start_item_def to_terminal_def Let_def enumerated_def
      gate_error_def first_error_def pending_requests_def batch_results_def chain_error_def final_result_def)

theorem batch_of_one_witness:
  "fst (enqueue_batch (\<lambda>t qs. mapR (\<lambda>q. Inr (jc_job sample_context)) qs) [pass_through] [new_request ''a'' []] [])
     = Inr [jc_job sample_context]"
proof -
  have "validate_request (new_request ''a'' []) = Inr ()" by (rule sample_valid)
  then show ?thesis
    using batch_of_one[of "new_request ''a'' []" "[pass_through]" "new_request ''a'' []" Finish
        "\<lambda>_ _. Inr (jc_job sample_context)" "[]"] by (simp add: pass_through_def)
qed

end
