(* ===== verification/Client.thy ===== *)
theory Client
  imports Http Fake Enqueue Workflows
begin

section \<open>The client\<close>

text \<open>
  \<open>src/ojs/client/async_client.py\<close>, \<open>sync_runner.py\<close> and the sinks of \<open>enqueue_pipeline.py\<close>, over the
  abstract transport of \<open>src/ojs/transport/base.py\<close>.  A transport is a record of its operations over a
  world of its own; a client's world is that world and the store of the fake transport the context
  variable holds, if any.  The pipeline runs its chain directly on this world; it is shown to agree with
  the trace semantics of the enqueue theory, whose facts then hold of the client.
\<close>

subsection \<open>The abstract transport\<close>

record 'w transport =
  tp_push :: "pydict \<Rightarrow> ('w, job) io"
  tp_push_batch :: "pydict list \<Rightarrow> ('w, job list) io"
  tp_info :: "string \<Rightarrow> ('w, job) io"
  tp_cancel :: "string \<Rightarrow> ('w, job) io"
  tp_fetch :: "string list \<Rightarrow> int \<Rightarrow> string option \<Rightarrow> int \<Rightarrow> ('w, job list) io"
  tp_ack :: "string \<Rightarrow> pyval \<Rightarrow> ('w, pyval) io"
  tp_nack :: "string \<Rightarrow> pydict \<Rightarrow> ('w, pyval) io"
  tp_heartbeat :: "string \<Rightarrow> string list option \<Rightarrow> int option \<Rightarrow> ('w, pyval) io"
  tp_list_queues :: "('w, queue list) io"
  tp_queue_stats :: "string \<Rightarrow> ('w, queue_stats) io"
  tp_pause_queue :: "string \<Rightarrow> ('w, pyval) io"
  tp_resume_queue :: "string \<Rightarrow> ('w, pyval) io"
  tp_create_workflow :: "workflow_definition \<Rightarrow> ('w, workflow) io"
  tp_get_workflow :: "string \<Rightarrow> ('w, workflow) io"
  tp_cancel_workflow :: "string \<Rightarrow> ('w, pyval) io"
  tp_manifest :: "('w, pyval) io"
  tp_list_dead_letter_jobs :: "string option \<Rightarrow> int \<Rightarrow> int \<Rightarrow> ('w, pyval) io"
  tp_retry_dead_letter_job :: "string \<Rightarrow> ('w, job) io"
  tp_delete_dead_letter_job :: "string \<Rightarrow> ('w, pyval) io"
  tp_list_cron_jobs :: "int \<Rightarrow> int \<Rightarrow> ('w, pyval) io"
  tp_register_cron_job :: "pydict \<Rightarrow> ('w, pyval) io"
  tp_unregister_cron_job :: "string \<Rightarrow> ('w, pyval) io"
  tp_list_schemas :: "int \<Rightarrow> int \<Rightarrow> ('w, pyval) io"
  tp_register_schema :: "pydict \<Rightarrow> ('w, pyval) io"
  tp_get_schema :: "string \<Rightarrow> ('w, pyval) io"
  tp_delete_schema :: "string \<Rightarrow> ('w, pyval) io"
  tp_progress :: "pydict \<Rightarrow> ('w, pyval) io"
  tp_health :: "('w, pyval) io"
  tp_close :: "('w, unit) io"
  tp_request :: "string \<Rightarrow> string \<Rightarrow> pydict option \<Rightarrow> ('w, pyval) io"

text \<open>The two transports of the SDK whose operations all end, as such records.\<close>

definition http_transport :: "(http_world, unit) io \<Rightarrow> http_env \<Rightarrow> http_world transport" where
  "http_transport close_client env = \<lparr>tp_push = http_push env, tp_push_batch = http_push_batch env,
     tp_info = http_info env, tp_cancel = http_cancel env, tp_fetch = http_fetch env, tp_ack = http_ack env,
     tp_nack = http_nack env, tp_heartbeat = http_heartbeat env, tp_list_queues = http_list_queues env,
     tp_queue_stats = http_queue_stats env, tp_pause_queue = http_pause_queue env,
     tp_resume_queue = http_resume_queue env, tp_create_workflow = http_create_workflow env,
     tp_get_workflow = http_get_workflow env, tp_cancel_workflow = http_cancel_workflow env,
     tp_manifest = http_manifest env, tp_list_dead_letter_jobs = http_list_dead_letter env,
     tp_retry_dead_letter_job = http_retry_dead_letter env, tp_delete_dead_letter_job = http_delete_dead_letter env,
     tp_list_cron_jobs = http_list_cron env, tp_register_cron_job = http_register_cron env,
     tp_unregister_cron_job = http_unregister_cron env, tp_list_schemas = http_list_schemas env,
     tp_register_schema = http_register_schema env, tp_get_schema = http_get_schema env,
     tp_delete_schema = http_delete_schema env, tp_progress = http_progress env, tp_health = http_health env,
     tp_close = close_client, tp_request = http_request_any env\<rparr>"

text \<open>
  The job \<open>FakeTransport.push\<close> builds from the body of a request, whose timeout is an integer or absent
  and whose tags are strings, with its defaults filled in.
\<close>

definition job_of_pushed :: "pushed_job \<Rightarrow> job" where
  "job_of_pushed p = \<lparr>j_id = pj_id p, j_type = pj_type p, j_state = pj_state p, j_args = pj_args p,
     j_queue = pj_queue p, j_meta = pj_meta p, j_priority = pj_priority p, j_attempt = 0,
     j_max_attempts = 3, j_timeout_ms = as_strict_int (pj_timeout_ms p), j_tags = List.map_filter as_str (pj_tags p),
     j_retry = None, j_unique = None, j_created_at = None, j_enqueued_at = None, j_started_at = None,
     j_completed_at = None, j_scheduled_at = None, j_expires_at = None, j_result = PNone, j_errors = []\<rparr>"

definition fake_transport :: "(pyval \<Rightarrow> string) \<Rightarrow> string \<Rightarrow> fake_store transport" where
  "fake_transport str_of now = \<lparr>tp_push = (\<lambda>b. bindIO (fake_push str_of now b) (\<lambda>p. retIO (job_of_pushed p))),
     tp_push_batch = (\<lambda>bs. bindIO (fake_push_batch str_of now bs) (\<lambda>ps. retIO (map job_of_pushed ps))),
     tp_info = fake_info, tp_cancel = fake_cancel, tp_fetch = (\<lambda>qs n _ _. fake_fetch qs n), tp_ack = fake_ack,
     tp_nack = fake_nack, tp_heartbeat = fake_heartbeat, tp_list_queues = fake_list_queues,
     tp_queue_stats = (\<lambda>q st. (Inr (fake_queue_stats q st), st)), tp_pause_queue = (\<lambda>q. fake_refuse (Pause_queue q)),
     tp_resume_queue = (\<lambda>q. fake_refuse (Resume_queue q)), tp_create_workflow = (\<lambda>_. fake_refuse Create_workflow),
     tp_get_workflow = (\<lambda>i. fake_refuse (Get_workflow i)), tp_cancel_workflow = (\<lambda>i. fake_refuse (Cancel_workflow i)),
     tp_manifest = fake_refuse Manifest,
     tp_list_dead_letter_jobs = (\<lambda>q l k. fake_refuse (List_dead_letter_jobs q l k)),
     tp_retry_dead_letter_job = (\<lambda>i. fake_refuse (Retry_dead_letter_job i)),
     tp_delete_dead_letter_job = (\<lambda>i. fake_refuse (Delete_dead_letter_job i)),
     tp_list_cron_jobs = (\<lambda>l k. fake_refuse (List_cron_jobs l k)), tp_register_cron_job = (\<lambda>b. fake_refuse (Register_cron_job b)),
     tp_unregister_cron_job = (\<lambda>n. fake_refuse (Unregister_cron_job n)),
     tp_list_schemas = (\<lambda>l k. fake_refuse (List_schemas l k)), tp_register_schema = (\<lambda>b. fake_refuse (Register_schema b)),
     tp_get_schema = (\<lambda>u. fake_refuse (Get_schema u)), tp_delete_schema = (\<lambda>u. fake_refuse (Delete_schema u)),
     tp_progress = (\<lambda>b. fake_refuse (Progress b)), tp_health = fake_health, tp_close = retIO (),
     tp_request = fake_request\<rparr>"

subsection \<open>Sinks\<close>

record 'w client_world =
  cw_fake :: "fake_store option"
  cw_remote :: 'w

text \<open>A call of the client's own transport, and one of the fake transport that is active.\<close>

definition on_remote :: "('w, 'a) io \<Rightarrow> ('w client_world, 'a) io" where
  "on_remote m w = (case m (cw_remote w) of (x, r) \<Rightarrow> (x, w\<lparr>cw_remote := r\<rparr>))"

definition on_fake :: "fake_store \<Rightarrow> (fake_store, 'a) io \<Rightarrow> ('w client_world, 'a) io" where
  "on_fake st m w = (case m st of (x, st') \<Rightarrow> (x, w\<lparr>cw_fake := Some st'\<rparr>))"

record 'w client =
  cl_transport :: "'w transport"
  cl_middleware :: "enqueue_middleware list"
  cl_allow_fake :: bool
  cl_fake :: "fake_store transport"

definition sink_push :: "'w transport \<Rightarrow> job_request \<Rightarrow> ('w, job) io" where
  "sink_push tp r = tp_push tp (request_to_dict r)"

definition sink_push_batch :: "'w transport \<Rightarrow> job_request list \<Rightarrow> ('w, job list) io" where
  "sink_push_batch tp rs = tp_push_batch tp (map request_to_dict rs)"

definition selected_fake :: "'w client \<Rightarrow> 'w client_world \<Rightarrow> fake_store option" where
  "selected_fake cl w = (if cl_allow_fake cl then cw_fake w else None)"

definition contextual_push :: "'w client \<Rightarrow> job_request \<Rightarrow> ('w client_world, job) io" where
  "contextual_push cl r w = (case selected_fake cl w of
     Some st \<Rightarrow> on_fake st (sink_push (cl_fake cl) r) w
   | None \<Rightarrow> on_remote (sink_push (cl_transport cl) r) w)"

definition contextual_push_batch :: "'w client \<Rightarrow> job_request list \<Rightarrow> ('w client_world, job list) io" where
  "contextual_push_batch cl rs w = (case selected_fake cl w of
     Some st \<Rightarrow> on_fake st (sink_push_batch (cl_fake cl) rs) w
   | None \<Rightarrow> on_remote (sink_push_batch (cl_transport cl) rs) w)"

subsection \<open>Enqueueing\<close>

definition new_client :: "'w transport \<Rightarrow> bool \<Rightarrow> fake_store transport \<Rightarrow> 'w client" where
  "new_client tp given fake = \<lparr>cl_transport = tp, cl_middleware = [], cl_allow_fake = \<not> given, cl_fake = fake\<rparr>"

definition add_enqueue_middleware :: "enqueue_middleware \<Rightarrow> 'w client \<Rightarrow> 'w client" where
  "add_enqueue_middleware m cl = cl\<lparr>cl_middleware := chain_add m (cl_middleware cl)\<rparr>"

text \<open>The chain run on the world: the terminal validates the candidate and pushes it.\<close>

primrec dispatch_chain :: "'w client \<Rightarrow> echain \<Rightarrow> ('w client_world, job option) io" where
  "dispatch_chain cl (Finish x) w = (x, w)"
| "dispatch_chain cl (Next r k) w = (case validate_request r of
     Inl e \<Rightarrow> dispatch_chain cl (k (Inl e)) w
   | Inr _ \<Rightarrow> (case contextual_push cl r w of (x, w') \<Rightarrow> dispatch_chain cl (k (map_sum id Some x)) w'))"

definition pipeline_enqueue :: "'w client \<Rightarrow> job_request \<Rightarrow> ('w client_world, job) io" where
  "pipeline_enqueue cl r w = (case validate_request r of
     Inl e \<Rightarrow> (Inl e, w)
   | Inr _ \<Rightarrow> (case dispatch_chain cl (enqueue_execute (cl_middleware cl) r) w of
       (Inl e, w') \<Rightarrow> (Inl e, w')
     | (Inr None, w') \<Rightarrow> (Inl (OJSErr ''Enqueue middleware rejected the request''), w')
     | (Inr (Some j), w') \<Rightarrow> (Inr j, w')))"

record enqueue_options =
  eo_queue :: string
  eo_meta :: "pydict option"
  eo_priority :: int
  eo_timeout_ms :: "int option"
  eo_delay_until :: "string option"
  eo_expires_at :: "string option"
  eo_retry :: "retry_policy option"
  eo_unique :: "unique_policy option"
  eo_tags :: "string list option"
  eo_schema :: "string option"

text \<open>\<open>args or []\<close>.\<close>

definition or_empty :: "'a list option \<Rightarrow> 'a list" where
  "or_empty x = (case x of None \<Rightarrow> [] | Some xs \<Rightarrow> xs)"

definition client_request :: "string \<Rightarrow> pyval list option \<Rightarrow> enqueue_options \<Rightarrow> job_request" where
  "client_request t args p = \<lparr>jr_type = t, jr_args = or_empty args, jr_queue = eo_queue p, jr_meta = eo_meta p,
     jr_priority = eo_priority p, jr_timeout_ms = eo_timeout_ms p, jr_delay_until = eo_delay_until p,
     jr_expires_at = eo_expires_at p, jr_retry = eo_retry p, jr_unique = eo_unique p, jr_tags = eo_tags p,
     jr_schema = eo_schema p\<rparr>"

definition client_enqueue :: "'w client \<Rightarrow> string \<Rightarrow> pyval list option \<Rightarrow> enqueue_options
    \<Rightarrow> ('w client_world, job) io" where
  "client_enqueue cl t args p = pipeline_enqueue cl (client_request t args p)"

text \<open>
  The batch: its chains run to the gate and its results are gathered as in the enqueue theory; the one
  push goes to the sink that is selected when it happens.
\<close>

definition sink_effect :: "'w client \<Rightarrow> sink_call \<Rightarrow> 'w client_world \<Rightarrow> 'w client_world" where
  "sink_effect cl c w = (case c of Push r \<Rightarrow> snd (contextual_push cl r w)
     | Push_batch rs \<Rightarrow> snd (contextual_push_batch cl rs w))"

definition replay_calls :: "'w client \<Rightarrow> sink_call list \<Rightarrow> 'w client_world \<Rightarrow> 'w client_world" where
  "replay_calls cl tr w = fold (sink_effect cl) tr w"

definition client_enqueue_batch :: "'w client \<Rightarrow> job_request list \<Rightarrow> ('w client_world, job list) io" where
  "client_enqueue_batch cl reqs w =
     (case enqueue_batch (\<lambda>tr rs. fst (contextual_push_batch cl rs (replay_calls cl tr w))) (cl_middleware cl) reqs [] of
        (x, tr) \<Rightarrow> (x, replay_calls cl tr w))"

subsection \<open>The other operations\<close>

definition client_get_job :: "'w client \<Rightarrow> string \<Rightarrow> ('w client_world, job) io" where
  "client_get_job cl i = on_remote (tp_info (cl_transport cl) i)"

definition client_cancel_job :: "'w client \<Rightarrow> string \<Rightarrow> ('w client_world, job) io" where
  "client_cancel_job cl i = on_remote (tp_cancel (cl_transport cl) i)"

definition client_fetch :: "'w client \<Rightarrow> string list \<Rightarrow> int \<Rightarrow> string option \<Rightarrow> int \<Rightarrow> ('w client_world, job list) io" where
  "client_fetch cl queues count worker_id visibility =
     on_remote (tp_fetch (cl_transport cl) queues count worker_id visibility)"

definition client_ack :: "'w client \<Rightarrow> string \<Rightarrow> pyval \<Rightarrow> ('w client_world, pyval) io" where
  "client_ack cl i r = on_remote (tp_ack (cl_transport cl) i r)"

definition client_nack :: "'w client \<Rightarrow> string \<Rightarrow> pydict \<Rightarrow> ('w client_world, pyval) io" where
  "client_nack cl i e = on_remote (tp_nack (cl_transport cl) i e)"

definition client_list_queues :: "'w client \<Rightarrow> ('w client_world, queue list) io" where
  "client_list_queues cl = on_remote (tp_list_queues (cl_transport cl))"

definition client_queue_stats :: "'w client \<Rightarrow> string \<Rightarrow> ('w client_world, queue_stats) io" where
  "client_queue_stats cl q = on_remote (tp_queue_stats (cl_transport cl) q)"

definition client_pause_queue :: "'w client \<Rightarrow> string \<Rightarrow> ('w client_world, pyval) io" where
  "client_pause_queue cl q = on_remote (tp_pause_queue (cl_transport cl) q)"

definition client_resume_queue :: "'w client \<Rightarrow> string \<Rightarrow> ('w client_world, pyval) io" where
  "client_resume_queue cl q = on_remote (tp_resume_queue (cl_transport cl) q)"

definition client_workflow :: "'w client \<Rightarrow> workflow_definition \<Rightarrow> ('w client_world, workflow) io" where
  "client_workflow cl d = on_remote (tp_create_workflow (cl_transport cl) d)"

definition client_get_workflow :: "'w client \<Rightarrow> string \<Rightarrow> ('w client_world, workflow) io" where
  "client_get_workflow cl i = on_remote (tp_get_workflow (cl_transport cl) i)"

definition client_cancel_workflow :: "'w client \<Rightarrow> string \<Rightarrow> ('w client_world, pyval) io" where
  "client_cancel_workflow cl i = on_remote (tp_cancel_workflow (cl_transport cl) i)"

definition client_manifest :: "'w client \<Rightarrow> ('w client_world, pyval) io" where
  "client_manifest cl = on_remote (tp_manifest (cl_transport cl))"

definition client_list_dead_letter_jobs :: "'w client \<Rightarrow> string option \<Rightarrow> int \<Rightarrow> int \<Rightarrow> ('w client_world, pyval) io" where
  "client_list_dead_letter_jobs cl queue limit offset =
     on_remote (tp_list_dead_letter_jobs (cl_transport cl) queue limit offset)"

definition client_retry_dead_letter_job :: "'w client \<Rightarrow> string \<Rightarrow> ('w client_world, job) io" where
  "client_retry_dead_letter_job cl i = on_remote (tp_retry_dead_letter_job (cl_transport cl) i)"

definition client_delete_dead_letter_job :: "'w client \<Rightarrow> string \<Rightarrow> ('w client_world, pyval) io" where
  "client_delete_dead_letter_job cl i = on_remote (tp_delete_dead_letter_job (cl_transport cl) i)"

definition client_list_cron_jobs :: "'w client \<Rightarrow> int \<Rightarrow> int \<Rightarrow> ('w client_world, pyval) io" where
  "client_list_cron_jobs cl limit offset = on_remote (tp_list_cron_jobs (cl_transport cl) limit offset)"

record cron_options =
  co_timezone :: "string option"
  co_queue :: "string option"
  co_meta :: "pydict option"
  co_priority :: "int option"
  co_retry :: "retry_policy option"
  co_tags :: "string list option"

definition cron_job_options :: "cron_options \<Rightarrow> pydict" where
  "cron_job_options p =
     opt_entry (co_queue p \<noteq> None) ''queue'' (opt_str (co_queue p))
     @ opt_entry (co_priority p \<noteq> None) ''priority'' (PInt (the (co_priority p)))
     @ opt_entry (co_retry p \<noteq> None) ''retry'' (retry_to_dict (the (co_retry p)))
     @ opt_entry (co_tags p \<noteq> None) ''tags'' (pstrs (the (co_tags p)))"

definition cron_job_body :: "string \<Rightarrow> string \<Rightarrow> string \<Rightarrow> pyval list option \<Rightarrow> cron_options \<Rightarrow> pydict" where
  "cron_job_body name cron t args p =
     [(PStr ''name'', PStr name), (PStr ''cron'', PStr cron), (PStr ''type'', PStr t),
      (PStr ''args'', PList (or_empty args))]
     @ opt_entry (co_timezone p \<noteq> None) ''timezone'' (opt_str (co_timezone p))
     @ opt_entry (co_meta p \<noteq> None) ''meta'' (PDict (the (co_meta p)))
     @ opt_entry (cron_job_options p \<noteq> []) ''options'' (PDict (cron_job_options p))"

definition client_register_cron_job :: "'w client \<Rightarrow> string \<Rightarrow> string \<Rightarrow> string \<Rightarrow> pyval list option \<Rightarrow> cron_options
    \<Rightarrow> ('w client_world, pyval) io" where
  "client_register_cron_job cl name cron t args p =
     on_remote (tp_register_cron_job (cl_transport cl) (cron_job_body name cron t args p))"

definition client_unregister_cron_job :: "'w client \<Rightarrow> string \<Rightarrow> ('w client_world, pyval) io" where
  "client_unregister_cron_job cl name = on_remote (tp_unregister_cron_job (cl_transport cl) name)"

definition client_list_schemas :: "'w client \<Rightarrow> int \<Rightarrow> int \<Rightarrow> ('w client_world, pyval) io" where
  "client_list_schemas cl limit offset = on_remote (tp_list_schemas (cl_transport cl) limit offset)"

definition client_register_schema :: "'w client \<Rightarrow> string \<Rightarrow> string \<Rightarrow> string \<Rightarrow> pydict \<Rightarrow> ('w client_world, pyval) io" where
  "client_register_schema cl uri t version schema =
     on_remote (tp_register_schema (cl_transport cl) [(PStr ''uri'', PStr uri), (PStr ''type'', PStr t),
        (PStr ''version'', PStr version), (PStr ''schema'', PDict schema)])"

definition client_get_schema :: "'w client \<Rightarrow> string \<Rightarrow> ('w client_world, pyval) io" where
  "client_get_schema cl uri = on_remote (tp_get_schema (cl_transport cl) uri)"

definition client_delete_schema :: "'w client \<Rightarrow> string \<Rightarrow> ('w client_world, pyval) io" where
  "client_delete_schema cl uri = on_remote (tp_delete_schema (cl_transport cl) uri)"

definition client_health :: "'w client \<Rightarrow> ('w client_world, pyval) io" where
  "client_health cl = on_remote (tp_health (cl_transport cl))"

definition client_close :: "'w client \<Rightarrow> ('w client_world, unit) io" where
  "client_close cl = on_remote (tp_close (cl_transport cl))"

subsection \<open>Agreement with the trace semantics\<close>

text \<open>The client's sink as a function of the calls made so far, replayed from the world at the start.\<close>

definition client_sink :: "'w client \<Rightarrow> 'w client_world \<Rightarrow> sink" where
  "client_sink cl w tr r = fst (contextual_push cl r (replay_calls cl tr w))"

lemma replay_calls_snoc: "replay_calls cl (tr @ [Push r]) w = snd (contextual_push cl r (replay_calls cl tr w))"
  by (simp add: replay_calls_def sink_effect_def)

lemma dispatch_chain_trace:
  "(case run_chain (client_sink cl w) c tr of (x, tr') \<Rightarrow>
      dispatch_chain cl c (replay_calls cl tr w) = (x, replay_calls cl tr' w))"
proof (induction c arbitrary: tr)
  case (Finish x)
  show ?case by simp
next
  case (Next r k)
  show ?case
  proof (cases "validate_request r")
    case (Inl e)
    then show ?thesis using Next[OF rangeI[of k "Inl e"], of tr] by simp
  next
    case (Inr u)
    let ?x = "map_sum id Some (client_sink cl w tr r)"
    have "contextual_push cl r (replay_calls cl tr w) = (client_sink cl w tr r, replay_calls cl (tr @ [Push r]) w)"
      by (simp add: client_sink_def replay_calls_snoc prod_eq_iff)
    then show ?thesis using Inr Next[OF rangeI[of k ?x], of "tr @ [Push r]"] by simp
  qed
qed

lemma pipeline_trace:
  "case enqueue (client_sink cl w) (cl_middleware cl) r [] of (x, tr) \<Rightarrow>
     pipeline_enqueue cl r w = (x, replay_calls cl tr w)
     \<and> (\<exists>qs. tr = map Push qs \<and> list_all (\<lambda>q. validate_request q = Inr ()) qs)"
proof (cases "validate_request r")
  case (Inl e)
  then show ?thesis by (auto simp: enqueue_def pipeline_enqueue_def replay_calls_def)
next
  case (Inr u)
  obtain x tr where run: "run_chain (client_sink cl w) (enqueue_execute (cl_middleware cl) r) [] = (x, tr)"
    by fastforce
  obtain new where new: "tr = map Push new" "\<forall>q \<in> set new. validate_request q = Inr ()"
    using run_chain_pushes[of "client_sink cl w" "enqueue_execute (cl_middleware cl) r" "[]"] run by auto
  have "dispatch_chain cl (enqueue_execute (cl_middleware cl) r) w = (x, replay_calls cl tr w)"
    using dispatch_chain_trace[where cl = cl and w = w and c = "enqueue_execute (cl_middleware cl) r" and tr = "[]"] run
    by (simp add: replay_calls_def)
  then show ?thesis using Inr run new
    by (auto simp: enqueue_def pipeline_enqueue_def list_all_iff split: sum.splits option.splits)
qed

subsection \<open>Where the requests go\<close>

text \<open>
  A transport by itself as a sink: the state after pushing the wire forms of some requests in order, and
  the answer to the next push.
\<close>

definition pushes :: "'s transport \<Rightarrow> job_request list \<Rightarrow> 's \<Rightarrow> 's" where
  "pushes tp qs s = fold (\<lambda>q s'. snd (tp_push tp (request_to_dict q) s')) qs s"

fun pushed_requests :: "sink_call list \<Rightarrow> job_request list" where
  "pushed_requests [] = []"
| "pushed_requests (Push q # tr) = q # pushed_requests tr"
| "pushed_requests (Push_batch qs # tr) = pushed_requests tr"

definition pushing :: "'s transport \<Rightarrow> 's \<Rightarrow> sink" where
  "pushing tp s tr q = fst (tp_push tp (request_to_dict q) (pushes tp (pushed_requests tr) s))"

lemma pushed_requests_map [simp]: "pushed_requests (map Push qs) = qs"
  by (induction qs) simp_all

lemma run_chain_cong:
  assumes "\<And>qs q. push (map Push qs) q = push' (map Push qs) q"
  shows "run_chain push c (map Push qs) = run_chain push' c (map Push qs)"
proof (induction c arbitrary: qs)
  case (Next r k)
  show ?case
  proof (cases "validate_request r")
    case (Inl e)
    then show ?thesis using Next[OF rangeI[of k "Inl e"], of qs] by simp
  next
    case (Inr u)
    have "map Push qs @ [Push r] = map Push (qs @ [r])" by simp
    then show ?thesis using Inr assms[of qs r] Next[OF rangeI[of k "map_sum id Some (push' (map Push qs) r)"], of "qs @ [r]"]
      by (simp only: run_chain.simps sum.case)
  qed
qed simp

lemma enqueue_cong:
  assumes "\<And>qs q. push (map Push qs) q = push' (map Push qs) q"
  shows "enqueue push ms r [] = enqueue push' ms r []"
proof -
  have "run_chain push (enqueue_execute ms r) [] = run_chain push' (enqueue_execute ms r) []"
    using run_chain_cong[where push = push and push' = push' and qs = "[]", OF assms] unfolding list.map .
  then show ?thesis by (simp only: enqueue_def)
qed

lemma push_fake:
  "selected_fake cl w = Some st \<Longrightarrow> contextual_push cl q w = (case tp_push (cl_fake cl) (request_to_dict q) st of
     (x, st') \<Rightarrow> (x, w\<lparr>cw_fake := Some st'\<rparr>))"
  by (simp add: contextual_push_def on_fake_def sink_push_def)

lemma push_remote:
  "selected_fake cl w = None \<Longrightarrow> contextual_push cl q w = (case tp_push (cl_transport cl) (request_to_dict q) (cw_remote w) of
     (x, s) \<Rightarrow> (x, w\<lparr>cw_remote := s\<rparr>))"
  by (simp add: contextual_push_def on_remote_def sink_push_def)

lemma replay_fake:
  "selected_fake cl w = Some st \<Longrightarrow>
    replay_calls cl (map Push qs) w = w\<lparr>cw_fake := Some (pushes (cl_fake cl) qs st)\<rparr>"
proof (induction qs arbitrary: w st)
  case Nil
  then show ?case by (simp add: replay_calls_def pushes_def selected_fake_def split: if_splits)
next
  case (Cons q qs)
  obtain x st' where push: "tp_push (cl_fake cl) (request_to_dict q) st = (x, st')" by fastforce
  have "selected_fake cl (w\<lparr>cw_fake := Some st'\<rparr>) = Some st'"
    using Cons.prems by (simp add: selected_fake_def split: if_splits)
  then show ?case using Cons.IH push push_fake[OF Cons.prems, of q]
    by (simp add: replay_calls_def sink_effect_def pushes_def)
qed

lemma replay_remote:
  "selected_fake cl w = None \<Longrightarrow>
    replay_calls cl (map Push qs) w = w\<lparr>cw_remote := pushes (cl_transport cl) qs (cw_remote w)\<rparr>"
proof (induction qs arbitrary: w)
  case Nil
  then show ?case by (simp add: replay_calls_def pushes_def)
next
  case (Cons q qs)
  obtain x s' where push: "tp_push (cl_transport cl) (request_to_dict q) (cw_remote w) = (x, s')" by fastforce
  have "selected_fake cl (w\<lparr>cw_remote := s'\<rparr>) = None" using Cons.prems by (simp add: selected_fake_def split: if_splits)
  then show ?case using Cons.IH push push_remote[OF Cons.prems, of q]
    by (simp add: replay_calls_def sink_effect_def pushes_def)
qed

lemma sink_fake: "selected_fake cl w = Some st \<Longrightarrow> client_sink cl w (map Push qs) q = pushing (cl_fake cl) st (map Push qs) q"
  using push_fake[of cl "replay_calls cl (map Push qs) w" "pushes (cl_fake cl) qs st" q]
  by (simp add: client_sink_def pushing_def replay_fake selected_fake_def split: if_splits prod.splits)

lemma sink_remote: "selected_fake cl w = None \<Longrightarrow>
    client_sink cl w (map Push qs) q = pushing (cl_transport cl) (cw_remote w) (map Push qs) q"
  using push_remote[of cl "replay_calls cl (map Push qs) w" q]
  by (auto simp: client_sink_def pushing_def replay_remote selected_fake_def split: if_splits prod.splits)

text \<open>
  C8. Every enqueue goes to exactly one transport.  A client that was given no transport of its own, while a
  fake transport is active, changes the fake store only, and any other client its own transport's state
  only; either way the state afterwards is the one that pushing, in order, the wire forms of some valid
  requests leads to.  What the call returns or raises is what the enqueue chain makes of the answers of
  these very pushes.  A request that is invalid raises its error and pushes nothing; without middleware a
  valid request is pushed once, and the call returns or raises the answer.  (Enqueue middleware acts on
  the program by calling \<open>next\<close>, returning and raising; it does not switch the fake mode.)
\<close>

theorem pipeline_one_sink:
  "\<exists>qs. list_all (\<lambda>q. validate_request q = Inr ()) qs
     \<and> (case (if cl_allow_fake cl then cw_fake w else None) of
          Some st \<Rightarrow> snd (pipeline_enqueue cl r w) = w\<lparr>cw_fake := Some (pushes (cl_fake cl) qs st)\<rparr>
            \<and> enqueue (pushing (cl_fake cl) st) (cl_middleware cl) r [] = (fst (pipeline_enqueue cl r w), map Push qs)
        | None \<Rightarrow> snd (pipeline_enqueue cl r w) = w\<lparr>cw_remote := pushes (cl_transport cl) qs (cw_remote w)\<rparr>
            \<and> enqueue (pushing (cl_transport cl) (cw_remote w)) (cl_middleware cl) r [] = (fst (pipeline_enqueue cl r w), map Push qs))
     \<and> (case validate_request r of
          Inl e \<Rightarrow> qs = [] \<and> fst (pipeline_enqueue cl r w) = Inl e
        | Inr _ \<Rightarrow> (cl_middleware cl = [] \<longrightarrow> qs = [r] \<and> fst (pipeline_enqueue cl r w)
            = (case (if cl_allow_fake cl then cw_fake w else None) of
                 Some st \<Rightarrow> fst (tp_push (cl_fake cl) (request_to_dict r) st)
               | None \<Rightarrow> fst (tp_push (cl_transport cl) (request_to_dict r) (cw_remote w)))))"
proof -
  obtain qs where qs: "enqueue (client_sink cl w) (cl_middleware cl) r [] = (fst (pipeline_enqueue cl r w), map Push qs)"
      "snd (pipeline_enqueue cl r w) = replay_calls cl (map Push qs) w" "list_all (\<lambda>q. validate_request q = Inr ()) qs"
    using pipeline_trace[where cl = cl and w = w and r = r] by auto
  have sel: "(if cl_allow_fake cl then cw_fake w else None) = selected_fake cl w" by (simp add: selected_fake_def)
  have sinks: "case selected_fake cl w of
        Some st \<Rightarrow> snd (pipeline_enqueue cl r w) = w\<lparr>cw_fake := Some (pushes (cl_fake cl) qs st)\<rparr>
          \<and> enqueue (pushing (cl_fake cl) st) (cl_middleware cl) r [] = (fst (pipeline_enqueue cl r w), map Push qs)
      | None \<Rightarrow> snd (pipeline_enqueue cl r w) = w\<lparr>cw_remote := pushes (cl_transport cl) qs (cw_remote w)\<rparr>
          \<and> enqueue (pushing (cl_transport cl) (cw_remote w)) (cl_middleware cl) r [] = (fst (pipeline_enqueue cl r w), map Push qs)"
  proof (cases "selected_fake cl w")
    case None
    then show ?thesis using qs replay_remote[OF None] enqueue_cong[where push = "client_sink cl w"
        and push' = "pushing (cl_transport cl) (cw_remote w)", OF sink_remote[OF None]] by simp
  next
    case (Some st)
    then show ?thesis using qs replay_fake[OF Some] enqueue_cong[where push = "client_sink cl w"
        and push' = "pushing (cl_fake cl) st", OF sink_fake[OF Some]] by simp
  qed
  have plain: "qs = [r] \<and> fst (pipeline_enqueue cl r w) = client_sink cl w [] r"
    if "cl_middleware cl = []" "validate_request r = Inr ()"
    using qs(1) that by (cases "client_sink cl w [] r") (auto simp: enqueue_def Cons_eq_map_conv map_eq_Cons_conv)
  have "client_sink cl w [] r = (case selected_fake cl w of
      Some st \<Rightarrow> fst (tp_push (cl_fake cl) (request_to_dict r) st)
    | None \<Rightarrow> fst (tp_push (cl_transport cl) (request_to_dict r) (cw_remote w)))"
    using sink_fake[of cl w _ "[]" r] sink_remote[of cl w "[]" r] by (simp add: pushing_def pushes_def split: option.split)
  then show ?thesis unfolding sel using qs(1,3) sinks plain
    by (intro exI[of _ qs]) (auto simp: enqueue_def split: sum.split)
qed

text \<open>A client without a transport of its own in fake mode: the remote world is not touched.\<close>

lemma snd_bind_ret: "snd (bindIO m (\<lambda>x. retIO (f x)) s) = snd (m s)"
  by (simp add: bindIO_def retIO_def split: prod.split sum.split)

theorem pipeline_one_sink_witness:
  "\<exists>st'. snd (pipeline_enqueue (new_client (fake_transport (\<lambda>_. []) []) False (fake_transport (\<lambda>_. []) [])) (new_request ''a'' [])
     \<lparr>cw_fake = Some new_store, cw_remote = new_store\<rparr>) = \<lparr>cw_fake = Some st', cw_remote = new_store\<rparr>
   \<and> length (fs_enqueued st') = 1"
  using pipeline_one_sink[where cl = "new_client (fake_transport (\<lambda>_. []) []) False (fake_transport (\<lambda>_. []) [])"
      and w = "\<lparr>cw_fake = Some new_store, cw_remote = new_store\<rparr>" and r = "new_request ''a'' []"] sample_valid
  by (auto simp: new_client_def pushes_def fake_transport_def snd_bind_ret fake_push_store record_enqueue_def
      new_store_def Let_def)

subsection \<open>Fake mode\<close>

lemma pipeline_plain:
  "cl_middleware cl = [] \<Longrightarrow> validate_request r = Inr () \<Longrightarrow> pipeline_enqueue cl r = contextual_push cl r"
proof (rule ext)
  fix w
  assume plain: "cl_middleware cl = []" "validate_request r = Inr ()"
  obtain x w' where "contextual_push cl r w = (x, w')" by fastforce
  with plain show "pipeline_enqueue cl r w = contextual_push cl r w"
    by (cases x) (simp_all add: pipeline_enqueue_def)
qed

lemma request_options_default:
  "dict_or_empty (dget_default (request_to_dict r) ''options'' (PDict [])) = request_options r"
  "dict_or_empty (dget_default (request_to_dict r) ''meta'' PNone) = or_empty (jr_meta r)"
proof -
  show "dict_or_empty (dget_default (request_to_dict r) ''options'' (PDict [])) = request_options r"
    by (cases "request_options r = []")
      (simp_all add: request_to_dict_def dget_default_def dget_append dict_or_empty_def split: option.splits)
  show "dict_or_empty (dget_default (request_to_dict r) ''meta'' PNone) = or_empty (jr_meta r)"
    by (cases "jr_meta r") (simp_all add: dget_default_def request_body dict_or_empty_def or_empty_def)
qed

lemma request_option_defaults:
  "dget_default (request_options r) ''queue'' (PStr ''default'') = PStr (jr_queue r)"
  "dget_default (request_options r) ''priority'' (PInt 0) = PInt (jr_priority r)"
  "dget_default (request_options r) ''timeout_ms'' PNone = (case jr_timeout_ms r of None \<Rightarrow> PNone | Some t \<Rightarrow> PInt t)"
  "dget_default (request_options r) ''tags'' (PList []) = pstrs (or_empty (jr_tags r))"
  by (auto simp: dget_default_def request_option_fields or_empty_def pstrs_def split: option.splits)

lemma map_filter_strs: "List.map_filter as_str (map PStr xs) = xs"
  by (induction xs) (simp_all add: List.map_filter_simps)

lemma fake_push_request:
  "\<exists>p. fst (fake_push str_of now (request_to_dict r) st) = Inr p \<and> pj_type p = jr_type r \<and> pj_args p = jr_args r
     \<and> pj_queue p = jr_queue r \<and> pj_meta p = or_empty (jr_meta r) \<and> pj_state p = Available
     \<and> j_priority (job_of_pushed p) = jr_priority r \<and> j_timeout_ms (job_of_pushed p) = jr_timeout_ms r
     \<and> j_tags (job_of_pushed p) = or_empty (jr_tags r)"
  by (simp add: fake_push_def record_enqueue_def Let_def request_options_default request_option_defaults request_body(1,2)
      py_int_def py_list_def py_str_def pstrs_def job_of_pushed_def map_filter_strs split: option.splits)

lemma job_of_pushed_fields [simp]:
  "j_id (job_of_pushed p) = pj_id p" "j_type (job_of_pushed p) = pj_type p" "j_args (job_of_pushed p) = pj_args p"
  "j_queue (job_of_pushed p) = pj_queue p" "j_meta (job_of_pushed p) = pj_meta p" "j_state (job_of_pushed p) = pj_state p"
  by (simp_all add: job_of_pushed_def)

lemma remote_keeps_fake: "cw_fake (snd (on_remote m w)) = cw_fake w"
  by (simp add: on_remote_def split: prod.splits)

text \<open>
  Fake mode, end to end: while a fake transport is active, an enqueue without middleware of a client
  that was given no transport of its own adds exactly one available job to the fake store, under a new
  id and with the type, queue, arguments and metadata of the call, returns a job with these, the
  priority, the timeout and the tags, and leaves the real transport alone; and reading the job back goes
  to the real transport all the same.
\<close>

theorem client_fake_mode:
  assumes "store_ok st" and "cw_fake w = Some st" and "cl_allow_fake cl" and "cl_middleware cl = []"
    and "cl_fake cl = fake_transport str_of now" and "validate_request (client_request t args p) = Inr ()"
  shows "\<exists>j f st'. client_enqueue cl t args p w = (Inr j, w\<lparr>cw_fake := Some st'\<rparr>)
    \<and> fake_abs st (j_id j) = None \<and> fake_abs st' = (fake_abs st)(j_id j \<mapsto> f)
    \<and> fj_state f = ''available'' \<and> fj_type f = t \<and> fj_queue f = eo_queue p \<and> fj_args f = or_empty args
    \<and> fj_meta f = or_empty (eo_meta p)
    \<and> j_type j = t \<and> j_queue j = eo_queue p \<and> j_args j = or_empty args \<and> j_meta j = or_empty (eo_meta p)
    \<and> j_state j = Available \<and> j_priority j = eo_priority p \<and> j_timeout_ms j = eo_timeout_ms p
    \<and> j_tags j = or_empty (eo_tags p)
    \<and> fst (client_get_job cl (j_id j) (w\<lparr>cw_fake := Some st'\<rparr>)) = fst (tp_info (cl_transport cl) (j_id j) (cw_remote w))"
proof -
  let ?r = "client_request t args p"
  let ?b = "request_to_dict ?r"
  obtain q where q: "fst (fake_push str_of now ?b st) = Inr q" "pj_type q = t" "pj_args q = or_empty args"
    "pj_queue q = eo_queue p" "pj_meta q = or_empty (eo_meta p)" "pj_state q = Available"
    "j_priority (job_of_pushed q) = eo_priority p" "j_timeout_ms (job_of_pushed q) = eo_timeout_ms p"
    "j_tags (job_of_pushed q) = or_empty (eo_tags p)"
    using fake_push_request[of str_of now ?r st] by (auto simp: client_request_def)
  obtain f where f: "fake_abs st (fj_id f) = None"
    "fake_abs (snd (fake_push str_of now ?b st)) = (fake_abs st)(fj_id f \<mapsto> f)" "fj_state f = ''available''"
    "pj_id q = fj_id f" "fj_type f = t" "fj_args f = or_empty args" "fj_queue f = eo_queue p"
    "fj_meta f = or_empty (eo_meta p)"
    using fake_push_abs[OF assms(1), of str_of now ?b] q by auto
  obtain st' where push: "fake_push str_of now ?b st = (Inr q, st')"
    using q(1) by (cases "fake_push str_of now ?b st") auto
  have "client_enqueue cl t args p w = (Inr (job_of_pushed q), w\<lparr>cw_fake := Some st'\<rparr>)"
    using pipeline_plain[OF assms(4,6)] assms push
    by (simp add: client_enqueue_def contextual_push_def selected_fake_def on_fake_def sink_push_def fake_transport_def
        bindIO_def retIO_def)
  moreover have "fst (client_get_job cl i (w\<lparr>cw_fake := Some st'\<rparr>)) = fst (tp_info (cl_transport cl) i (cw_remote w))" for i
    by (simp add: client_get_job_def on_remote_def split: prod.splits)
  ultimately show ?thesis using q f push
    by (intro exI[of _ "job_of_pushed q"] exI[of _ f] exI[of _ st']) simp
qed

definition plain_options :: enqueue_options where
  "plain_options = \<lparr>eo_queue = ''default'', eo_meta = None, eo_priority = 0, eo_timeout_ms = None,
     eo_delay_until = None, eo_expires_at = None, eo_retry = None, eo_unique = None, eo_tags = None, eo_schema = None\<rparr>"

theorem client_fake_mode_witness:
  "\<exists>j w'. client_enqueue (new_client (fake_transport (\<lambda>_. []) []) False (fake_transport (\<lambda>_. []) [])) ''a'' None plain_options
     \<lparr>cw_fake = Some new_store, cw_remote = new_store\<rparr> = (Inr j, w') \<and> j_type j = ''a'' \<and> cw_remote w' = new_store"
proof -
  have "client_request ''a'' None plain_options = new_request ''a'' []"
    by (simp add: client_request_def plain_options_def new_request_def or_empty_def)
  then have ok: "validate_request (client_request ''a'' None plain_options) = Inr ()" using sample_valid by simp
  show ?thesis
    using client_fake_mode[OF store_ok_new _ _ _ _ ok, of "\<lparr>cw_fake = Some new_store, cw_remote = new_store\<rparr>"
        "new_client (fake_transport (\<lambda>_. []) []) False (fake_transport (\<lambda>_. []) [])" "\<lambda>_. []" "[]"]
    by (auto simp: new_client_def)
qed

text \<open>
  Registering a cron job sends one body: name, expression and type as given, the arguments (an empty
  list when none are given), and every other setting exactly when it was given, those of the job under
  \<open>options\<close>, which is left out when there are none.  A retry policy is sent as its wire form.
\<close>

theorem cron_body_complete:
  "client_register_cron_job cl name cron t args p = on_remote (tp_register_cron_job (cl_transport cl) (cron_job_body name cron t args p))
   \<and> dget (cron_job_body name cron t args p) ''name'' = Some (PStr name)
   \<and> dget (cron_job_body name cron t args p) ''cron'' = Some (PStr cron)
   \<and> dget (cron_job_body name cron t args p) ''type'' = Some (PStr t)
   \<and> dget (cron_job_body name cron t args p) ''args'' = Some (PList (case args of None \<Rightarrow> [] | Some xs \<Rightarrow> xs))
   \<and> dget (cron_job_body name cron t args p) ''timezone'' = map_option PStr (co_timezone p)
   \<and> dget (cron_job_body name cron t args p) ''meta'' = map_option PDict (co_meta p)
   \<and> (case dget (cron_job_body name cron t args p) ''options'' of
        None \<Rightarrow> co_queue p = None \<and> co_priority p = None \<and> co_retry p = None \<and> co_tags p = None
      | Some v \<Rightarrow> (\<exists>d. v = PDict d \<and> dget d ''queue'' = map_option PStr (co_queue p)
          \<and> dget d ''priority'' = map_option PInt (co_priority p)
          \<and> dget d ''retry'' = map_option retry_to_dict (co_retry p)
          \<and> dget d ''tags'' = map_option pstrs (co_tags p)))"
proof -
  have empty: "cron_job_options p = [] \<longleftrightarrow> co_queue p = None \<and> co_priority p = None \<and> co_retry p = None \<and> co_tags p = None"
    by (simp add: cron_job_options_def opt_entry_def)
  have fields: "dget (cron_job_options p) ''queue'' = map_option PStr (co_queue p)"
    "dget (cron_job_options p) ''priority'' = map_option PInt (co_priority p)"
    "dget (cron_job_options p) ''retry'' = map_option retry_to_dict (co_retry p)"
    "dget (cron_job_options p) ''tags'' = map_option pstrs (co_tags p)"
    by (auto simp: cron_job_options_def dget_append opt_str_def split: option.splits)
  have options: "dget (cron_job_body name cron t args p) ''options''
      = (if cron_job_options p = [] then None else Some (PDict (cron_job_options p)))"
    by (simp add: cron_job_body_def dget_append)
  show ?thesis
    unfolding options client_register_cron_job_def using empty fields
    by (auto simp: cron_job_body_def dget_append opt_str_def or_empty_def split: option.splits)
qed

subsection \<open>The synchronous client\<close>

text \<open>
  \<open>SyncRunner\<close>: the flags its lock protects.  Whether a thread starts in time, and stops when it is
  joined, is the answer of the system to the call.  Submissions are serialized, so calls from several
  threads are a sequence of calls.
\<close>

datatype loop_start = Loop_ready | Loop_late | Loop_missing

record sync_runner =
  sr_loop :: bool
  sr_closed :: bool

definition new_runner :: sync_runner where
  "new_runner = \<lparr>sr_loop = False, sr_closed = False\<rparr>"

definition start_loop :: "loop_start \<Rightarrow> sync_runner \<Rightarrow> (exn + unit) \<times> sync_runner" where
  "start_loop boot r = (if sr_loop r then (Inr (), r)
     else case boot of
       Loop_ready \<Rightarrow> (Inr (), r\<lparr>sr_loop := True\<rparr>)
     | Loop_late \<Rightarrow> (Inl (RuntimeErr ''SyncClient event-loop thread failed to start''), r)
     | Loop_missing \<Rightarrow> (Inl (RuntimeErr ''SyncClient event loop was not initialized''), r))"

definition ensure_loop :: "loop_start \<Rightarrow> sync_runner \<Rightarrow> (exn + unit) \<times> sync_runner" where
  "ensure_loop boot r = (if sr_closed r then (Inl (RuntimeErr ''SyncClient is closed''), r) else start_loop boot r)"

definition runner_run :: "loop_start \<Rightarrow> ('w, 'a) io \<Rightarrow> sync_runner \<Rightarrow> 'w \<Rightarrow> (exn + 'a) \<times> sync_runner \<times> 'w" where
  "runner_run boot op r w = (case ensure_loop boot r of
     (Inl e, r') \<Rightarrow> (Inl e, r', w)
   | (Inr _, r') \<Rightarrow> (case op w of (x, w') \<Rightarrow> (x, r', w')))"

definition runner_close :: "loop_start \<Rightarrow> bool \<Rightarrow> ('w, unit) io \<Rightarrow> sync_runner \<Rightarrow> 'w \<Rightarrow> (exn + unit) \<times> sync_runner \<times> 'w" where
  "runner_close boot stops op r w = (if sr_closed r then (Inr (), r, w)
     else case start_loop boot r of
       (Inl e, r') \<Rightarrow> (Inl e, r', w)
     | (Inr _, r') \<Rightarrow> (case op w of (x, w') \<Rightarrow>
         (if stops then x else Inl (RuntimeErr ''SyncClient event-loop thread did not stop''),
          r'\<lparr>sr_closed := True\<rparr>, w')))"

record 'w sync_client =
  sc_client :: "'w client"
  sc_runner :: sync_runner
  sc_closed :: bool

definition new_sync_client :: "'w client \<Rightarrow> 'w sync_client" where
  "new_sync_client cl = \<lparr>sc_client = cl, sc_runner = new_runner, sc_closed = False\<rparr>"

text \<open>Every method but \<open>close\<close> submits the coroutine of the client's method of that name.\<close>

definition sync_call :: "loop_start \<Rightarrow> ('w client \<Rightarrow> ('w client_world, 'a) io) \<Rightarrow> 'w sync_client \<Rightarrow> 'w client_world
    \<Rightarrow> (exn + 'a) \<times> 'w sync_client \<times> 'w client_world" where
  "sync_call boot method sc w = (case runner_run boot (method (sc_client sc)) (sc_runner sc) w of
     (x, r, w') \<Rightarrow> (x, sc\<lparr>sc_runner := r\<rparr>, w'))"

subsubsection \<open>The methods of the synchronous client\<close>

definition sync_enqueue :: "loop_start \<Rightarrow> string \<Rightarrow> pyval list option \<Rightarrow> enqueue_options \<Rightarrow> 'w sync_client
    \<Rightarrow> 'w client_world \<Rightarrow> (exn + job) \<times> 'w sync_client \<times> 'w client_world" where
  "sync_enqueue boot t args p = sync_call boot (\<lambda>cl. client_enqueue cl t args p)"

definition sync_enqueue_batch :: "loop_start \<Rightarrow> job_request list \<Rightarrow> 'w sync_client \<Rightarrow> 'w client_world
    \<Rightarrow> (exn + job list) \<times> 'w sync_client \<times> 'w client_world" where
  "sync_enqueue_batch boot reqs = sync_call boot (\<lambda>cl. client_enqueue_batch cl reqs)"

definition sync_get_job :: "loop_start \<Rightarrow> string \<Rightarrow> 'w sync_client \<Rightarrow> 'w client_world
    \<Rightarrow> (exn + job) \<times> 'w sync_client \<times> 'w client_world" where
  "sync_get_job boot i = sync_call boot (\<lambda>cl. client_get_job cl i)"

definition sync_cancel_job :: "loop_start \<Rightarrow> string \<Rightarrow> 'w sync_client \<Rightarrow> 'w client_world
    \<Rightarrow> (exn + job) \<times> 'w sync_client \<times> 'w client_world" where
  "sync_cancel_job boot i = sync_call boot (\<lambda>cl. client_cancel_job cl i)"

definition sync_fetch :: "loop_start \<Rightarrow> string list \<Rightarrow> int \<Rightarrow> string option \<Rightarrow> int \<Rightarrow> 'w sync_client \<Rightarrow> 'w client_world
    \<Rightarrow> (exn + job list) \<times> 'w sync_client \<times> 'w client_world" where
  "sync_fetch boot queues n worker_id visibility = sync_call boot (\<lambda>cl. client_fetch cl queues n worker_id visibility)"

definition sync_ack :: "loop_start \<Rightarrow> string \<Rightarrow> pyval \<Rightarrow> 'w sync_client \<Rightarrow> 'w client_world
    \<Rightarrow> (exn + pyval) \<times> 'w sync_client \<times> 'w client_world" where
  "sync_ack boot i r = sync_call boot (\<lambda>cl. client_ack cl i r)"

definition sync_nack :: "loop_start \<Rightarrow> string \<Rightarrow> pydict \<Rightarrow> 'w sync_client \<Rightarrow> 'w client_world
    \<Rightarrow> (exn + pyval) \<times> 'w sync_client \<times> 'w client_world" where
  "sync_nack boot i e = sync_call boot (\<lambda>cl. client_nack cl i e)"

definition sync_health :: "loop_start \<Rightarrow> 'w sync_client \<Rightarrow> 'w client_world
    \<Rightarrow> (exn + pyval) \<times> 'w sync_client \<times> 'w client_world" where
  "sync_health boot = sync_call boot client_health"

definition sync_list_queues :: "loop_start \<Rightarrow> 'w sync_client \<Rightarrow> 'w client_world
    \<Rightarrow> (exn + queue list) \<times> 'w sync_client \<times> 'w client_world" where
  "sync_list_queues boot = sync_call boot client_list_queues"

definition sync_queue_stats :: "loop_start \<Rightarrow> string \<Rightarrow> 'w sync_client \<Rightarrow> 'w client_world
    \<Rightarrow> (exn + queue_stats) \<times> 'w sync_client \<times> 'w client_world" where
  "sync_queue_stats boot q = sync_call boot (\<lambda>cl. client_queue_stats cl q)"

definition sync_pause_queue :: "loop_start \<Rightarrow> string \<Rightarrow> 'w sync_client \<Rightarrow> 'w client_world
    \<Rightarrow> (exn + pyval) \<times> 'w sync_client \<times> 'w client_world" where
  "sync_pause_queue boot q = sync_call boot (\<lambda>cl. client_pause_queue cl q)"

definition sync_resume_queue :: "loop_start \<Rightarrow> string \<Rightarrow> 'w sync_client \<Rightarrow> 'w client_world
    \<Rightarrow> (exn + pyval) \<times> 'w sync_client \<times> 'w client_world" where
  "sync_resume_queue boot q = sync_call boot (\<lambda>cl. client_resume_queue cl q)"

definition sync_workflow :: "loop_start \<Rightarrow> workflow_definition \<Rightarrow> 'w sync_client \<Rightarrow> 'w client_world
    \<Rightarrow> (exn + workflow) \<times> 'w sync_client \<times> 'w client_world" where
  "sync_workflow boot d = sync_call boot (\<lambda>cl. client_workflow cl d)"

definition sync_get_workflow :: "loop_start \<Rightarrow> string \<Rightarrow> 'w sync_client \<Rightarrow> 'w client_world
    \<Rightarrow> (exn + workflow) \<times> 'w sync_client \<times> 'w client_world" where
  "sync_get_workflow boot i = sync_call boot (\<lambda>cl. client_get_workflow cl i)"

definition sync_cancel_workflow :: "loop_start \<Rightarrow> string \<Rightarrow> 'w sync_client \<Rightarrow> 'w client_world
    \<Rightarrow> (exn + pyval) \<times> 'w sync_client \<times> 'w client_world" where
  "sync_cancel_workflow boot i = sync_call boot (\<lambda>cl. client_cancel_workflow cl i)"

definition sync_manifest :: "loop_start \<Rightarrow> 'w sync_client \<Rightarrow> 'w client_world
    \<Rightarrow> (exn + pyval) \<times> 'w sync_client \<times> 'w client_world" where
  "sync_manifest boot = sync_call boot client_manifest"

definition sync_list_dead_letter_jobs :: "loop_start \<Rightarrow> string option \<Rightarrow> int \<Rightarrow> int \<Rightarrow> 'w sync_client \<Rightarrow> 'w client_world
    \<Rightarrow> (exn + pyval) \<times> 'w sync_client \<times> 'w client_world" where
  "sync_list_dead_letter_jobs boot queue limit offset =
     sync_call boot (\<lambda>cl. client_list_dead_letter_jobs cl queue limit offset)"

definition sync_retry_dead_letter_job :: "loop_start \<Rightarrow> string \<Rightarrow> 'w sync_client \<Rightarrow> 'w client_world
    \<Rightarrow> (exn + job) \<times> 'w sync_client \<times> 'w client_world" where
  "sync_retry_dead_letter_job boot i = sync_call boot (\<lambda>cl. client_retry_dead_letter_job cl i)"

definition sync_delete_dead_letter_job :: "loop_start \<Rightarrow> string \<Rightarrow> 'w sync_client \<Rightarrow> 'w client_world
    \<Rightarrow> (exn + pyval) \<times> 'w sync_client \<times> 'w client_world" where
  "sync_delete_dead_letter_job boot i = sync_call boot (\<lambda>cl. client_delete_dead_letter_job cl i)"

definition sync_list_cron_jobs :: "loop_start \<Rightarrow> int \<Rightarrow> int \<Rightarrow> 'w sync_client \<Rightarrow> 'w client_world
    \<Rightarrow> (exn + pyval) \<times> 'w sync_client \<times> 'w client_world" where
  "sync_list_cron_jobs boot limit offset = sync_call boot (\<lambda>cl. client_list_cron_jobs cl limit offset)"

definition sync_register_cron_job :: "loop_start \<Rightarrow> string \<Rightarrow> string \<Rightarrow> string \<Rightarrow> pyval list option \<Rightarrow> cron_options
    \<Rightarrow> 'w sync_client \<Rightarrow> 'w client_world \<Rightarrow> (exn + pyval) \<times> 'w sync_client \<times> 'w client_world" where
  "sync_register_cron_job boot name cron t args p = sync_call boot (\<lambda>cl. client_register_cron_job cl name cron t args p)"

definition sync_unregister_cron_job :: "loop_start \<Rightarrow> string \<Rightarrow> 'w sync_client \<Rightarrow> 'w client_world
    \<Rightarrow> (exn + pyval) \<times> 'w sync_client \<times> 'w client_world" where
  "sync_unregister_cron_job boot name = sync_call boot (\<lambda>cl. client_unregister_cron_job cl name)"

definition sync_list_schemas :: "loop_start \<Rightarrow> int \<Rightarrow> int \<Rightarrow> 'w sync_client \<Rightarrow> 'w client_world
    \<Rightarrow> (exn + pyval) \<times> 'w sync_client \<times> 'w client_world" where
  "sync_list_schemas boot limit offset = sync_call boot (\<lambda>cl. client_list_schemas cl limit offset)"

definition sync_register_schema :: "loop_start \<Rightarrow> string \<Rightarrow> string \<Rightarrow> string \<Rightarrow> pydict \<Rightarrow> 'w sync_client \<Rightarrow> 'w client_world
    \<Rightarrow> (exn + pyval) \<times> 'w sync_client \<times> 'w client_world" where
  "sync_register_schema boot uri t version schema = sync_call boot (\<lambda>cl. client_register_schema cl uri t version schema)"

definition sync_get_schema :: "loop_start \<Rightarrow> string \<Rightarrow> 'w sync_client \<Rightarrow> 'w client_world
    \<Rightarrow> (exn + pyval) \<times> 'w sync_client \<times> 'w client_world" where
  "sync_get_schema boot uri = sync_call boot (\<lambda>cl. client_get_schema cl uri)"

definition sync_delete_schema :: "loop_start \<Rightarrow> string \<Rightarrow> 'w sync_client \<Rightarrow> 'w client_world
    \<Rightarrow> (exn + pyval) \<times> 'w sync_client \<times> 'w client_world" where
  "sync_delete_schema boot uri = sync_call boot (\<lambda>cl. client_delete_schema cl uri)"

definition sync_close :: "loop_start \<Rightarrow> bool \<Rightarrow> 'w sync_client \<Rightarrow> 'w client_world
    \<Rightarrow> (exn + unit) \<times> 'w sync_client \<times> 'w client_world" where
  "sync_close boot stops sc w = (if sc_closed sc then (Inr (), sc, w)
     else case runner_close boot stops (client_close (sc_client sc)) (sc_runner sc) w of
       (x, r, w') \<Rightarrow> (x, sc\<lparr>sc_runner := r, sc_closed := True\<rparr>, w'))"

subsection \<open>Sessions of the synchronous client\<close>

datatype ('w, 'a) sync_command = Sync_call loop_start "'w client \<Rightarrow> ('w client_world, 'a) io" | Sync_close loop_start bool

datatype 'a sync_answer = Returned "exn + 'a" | Closed_with "exn + unit"

fun sync_session :: "('w, 'a) sync_command list \<Rightarrow> 'w sync_client \<Rightarrow> 'w client_world
    \<Rightarrow> 'a sync_answer list \<times> 'w sync_client \<times> 'w client_world" where
  "sync_session [] sc w = ([], sc, w)"
| "sync_session (Sync_call boot m # cs) sc w = (case sync_call boot m sc w of
     (x, sc', w') \<Rightarrow> (case sync_session cs sc' w' of (xs, r) \<Rightarrow> (Returned x # xs, r)))"
| "sync_session (Sync_close boot stops # cs) sc w = (case sync_close boot stops sc w of
     (x, sc', w') \<Rightarrow> (case sync_session cs sc' w' of (xs, r) \<Rightarrow> (Closed_with x # xs, r)))"

fun refused :: "('w, 'a) sync_command \<Rightarrow> 'a sync_answer" where
  "refused (Sync_call boot m) = Returned (Inl (RuntimeErr ''SyncClient is closed''))"
| "refused (Sync_close boot stops) = Closed_with (Inr ())"

fun is_call :: "('w, 'a) sync_command \<Rightarrow> bool" where
  "is_call (Sync_call _ _) = True"
| "is_call (Sync_close _ _) = False"

fun command_boot :: "('w, 'a) sync_command \<Rightarrow> loop_start" where
  "command_boot (Sync_call boot _) = boot"
| "command_boot (Sync_close boot _) = boot"

fun close_stops :: "('w, 'a) sync_command \<Rightarrow> bool" where
  "close_stops (Sync_call _ _) = True"
| "close_stops (Sync_close _ stops) = stops"

definition boot_error :: "loop_start \<Rightarrow> exn" where
  "boot_error boot = RuntimeErr (if boot = Loop_late then ''SyncClient event-loop thread failed to start''
     else ''SyncClient event loop was not initialized'')"

text \<open>
  What a session does when no \<open>close\<close> of it closes the transport: the methods awaited one after the other
  on the asynchronous client, each as soon as there is a loop, with the answers the caller gets.
\<close>

fun awaited :: "bool \<Rightarrow> ('w, 'a) sync_command list \<Rightarrow> 'w client \<Rightarrow> 'w client_world
    \<Rightarrow> 'a sync_answer list \<times> bool \<times> 'w client_world" where
  "awaited up [] cl w = ([], up, w)"
| "awaited up (Sync_close boot stops # cs) cl w = (case awaited up cs cl w of (xs, r) \<Rightarrow> (Closed_with (Inr ()) # xs, r))"
| "awaited up (Sync_call boot m # cs) cl w = (if up \<or> boot = Loop_ready
     then (case m cl w of (x, w') \<Rightarrow> (case awaited True cs cl w' of (xs, r) \<Rightarrow> (Returned x # xs, r)))
     else (case awaited up cs cl w of (xs, r) \<Rightarrow> (Returned (Inl (boot_error boot)) # xs, r)))"

definition sync_state :: "'w client \<Rightarrow> bool \<Rightarrow> bool \<Rightarrow> bool \<Rightarrow> 'w sync_client" where
  "sync_state cl up runner_closed client_closed =
     \<lparr>sc_client = cl, sc_runner = \<lparr>sr_loop = up, sr_closed = runner_closed\<rparr>, sc_closed = client_closed\<rparr>"

lemma start_loop_up:
  "start_loop boot \<lparr>sr_loop = up, sr_closed = c\<rparr> = (if up \<or> boot = Loop_ready
     then (Inr (), \<lparr>sr_loop = True, sr_closed = c\<rparr>) else (Inl (boot_error boot), \<lparr>sr_loop = up, sr_closed = c\<rparr>))"
  by (cases boot) (simp_all add: start_loop_def boot_error_def)

lemma open_call:
  "sync_call boot m (sync_state cl up False b) w = (if up \<or> boot = Loop_ready
     then (case m cl w of (x, w') \<Rightarrow> (x, sync_state cl True False b, w'))
     else (Inl (boot_error boot), sync_state cl up False b, w))"
  by (simp add: sync_call_def runner_run_def ensure_loop_def start_loop_up sync_state_def split: prod.splits)

lemma open_close:
  "sync_close boot stops (sync_state cl up False False) w = (if up \<or> boot = Loop_ready
     then (case client_close cl w of (x, w') \<Rightarrow>
       (if stops then x else Inl (RuntimeErr ''SyncClient event-loop thread did not stop''), sync_state cl True True True, w'))
     else (Inl (boot_error boot), sync_state cl up False True, w))"
  by (simp add: sync_close_def runner_close_def start_loop_up sync_state_def split: prod.splits)

lemma closed_session: "sync_session cs (sync_state cl up True True) w = (map refused cs, sync_state cl up True True, w)"
proof (induction cs)
  case (Cons c cs)
  then show ?case
    by (cases c) (simp_all add: sync_call_def sync_close_def runner_run_def ensure_loop_def sync_state_def)
qed simp

text \<open>A client that counts as closed while its runner is open.\<close>

lemma leaked_session:
  "sync_session cs (sync_state cl up False True) w
     = (case awaited up cs cl w of (xs, up', w') \<Rightarrow> (xs, sync_state cl up' False True, w'))"
proof (induction up cs cl w rule: awaited.induct)
  case (2 up boot stops cs cl w)
  then show ?case by (simp add: sync_close_def sync_state_def split: prod.splits)
next
  case (3 up boot m cs cl w)
  then show ?case by (auto simp: open_call split: prod.splits)
qed simp

lemma open_session:
  "list_all is_call cs \<Longrightarrow> sync_session (cs @ ds) (sync_state cl up False False) w
     = (case awaited up cs cl w of (xs, up', w1) \<Rightarrow>
         (case sync_session ds (sync_state cl up' False False) w1 of (ys, r) \<Rightarrow> (xs @ ys, r)))"
proof (induction cs arbitrary: up w)
  case (Cons c cs)
  then show ?case by (cases c) (auto simp: open_call split: prod.splits)
qed simp

text \<open>
  C16. Every session of the synchronous client, whatever the system does about its threads.  Up to the first
  \<open>close\<close> each call that finds or starts the loop does what the same method awaited on the asynchronous
  client does, in order, and every other call raises the runner's error and does nothing.  If the first
  \<open>close\<close> finds or starts the loop, it closes the transport (and raises if the thread does not stop),
  and whatever comes after it leaves the world alone: a call raises \<open>SyncClient is closed\<close> and a further
  \<open>close\<close> returns.  If it does not, it raises, no later \<open>close\<close> does anything, and the calls go on as
  before.  So the transport is closed at most once, and never before a call that reaches it.
\<close>

theorem sync_session_spec:
  "sync_session cs (new_sync_client cl) w
     = (case awaited False (takeWhile is_call cs) cl w of (xs, up, w1) \<Rightarrow> (case dropWhile is_call cs of
          [] \<Rightarrow> (xs, sync_state cl up False False, w1)
        | c # rest \<Rightarrow> (if up \<or> command_boot c = Loop_ready
            then (case client_close cl w1 of (x, w2) \<Rightarrow>
              (xs @ Closed_with (if close_stops c then x else Inl (RuntimeErr ''SyncClient event-loop thread did not stop''))
                 # map refused rest, sync_state cl True True True, w2))
            else (case awaited up rest cl w1 of (ys, up', w2) \<Rightarrow>
              (xs @ Closed_with (Inl (boot_error (command_boot c))) # ys, sync_state cl up' False True, w2)))))"
proof -
  have new: "new_sync_client cl = sync_state cl False False False"
    by (simp add: new_sync_client_def new_runner_def sync_state_def)
  define pre where "pre = takeWhile is_call cs"
  define post where "post = dropWhile is_call cs"
  have calls: "list_all is_call pre" by (simp add: pre_def list_all_iff) (meson set_takeWhileD)
  have cs: "cs = pre @ post" by (simp add: pre_def post_def)
  obtain xs up w1 where pre_run: "awaited False pre cl w = (xs, up, w1)" by (metis prod_cases3)
  have run: "sync_session cs (new_sync_client cl) w
      = (case sync_session post (sync_state cl up False False) w1 of (ys, r) \<Rightarrow> (xs @ ys, r))"
    unfolding cs new open_session[OF calls] pre_run by simp
  show ?thesis
  proof (cases post)
    case Nil
    then show ?thesis unfolding run pre_def[symmetric] post_def[symmetric] pre_run by simp
  next
    case (Cons c rest)
    then have "\<not> is_call c" unfolding post_def by (metis hd_dropWhile list.distinct(1) list.sel(1))
    then obtain boot stops where c: "c = Sync_close boot stops" by (cases c) simp_all
    show ?thesis unfolding run pre_def[symmetric] post_def[symmetric] pre_run Cons
      by (simp add: c open_close closed_session leaked_session split: prod.splits)
  qed
qed

text \<open>
  A leak: when the loop of a client that was never used does not start during \<open>close\<close>, the error is
  raised but the client counts as closed, so every later \<open>close\<close> returns without closing the transport,
  although the runner is still open and a call in between reaches the transport.
\<close>

theorem sync_close_leaks_transport:
  "sync_session [Sync_close Loop_late stops, Sync_call Loop_ready m, Sync_close Loop_ready True] (new_sync_client cl) w
   = (case m cl w of (x, w') \<Rightarrow>
       ([Closed_with (Inl (RuntimeErr ''SyncClient event-loop thread failed to start'')), Returned x, Closed_with (Inr ())],
        sync_state cl True False True, w'))"
  by (simp add: sync_close_def sync_call_def runner_close_def runner_run_def ensure_loop_def start_loop_def
      new_sync_client_def new_runner_def sync_state_def split: prod.splits)

end
