(* ===== verification/Durable.thy ===== *)
theory Durable
  imports Effects
begin

section \<open>Durable execution\<close>

text \<open>
  \<open>src/ojs/durable/\<close>.  A durable handler is a tree of effects (\<open>prog\<close>): it asks for the time, for random
  bytes or for a side effect, and goes on with the answer or the exception.  The context records the
  answers and replays them after a crash.  The clock, the random source and the side effects act on a
  world; \<open>json.dumps\<close>, \<open>json.loads\<close> (\<open>Inl\<close> the text of its error), \<open>isoformat\<close>, \<open>fromisoformat\<close>, \<open>repr\<close> of
  a value that is not a string and the transport's \<open>request\<close> are
  arguments.
\<close>

subsection \<open>The replay log\<close>

record replay_entry =
  re_seq :: int
  re_type :: string
  re_result :: pyval
  re_key :: string

definition entry_to_dict :: "replay_entry \<Rightarrow> pydict" where
  "entry_to_dict e = [(PStr ''seq'', PInt (re_seq e)), (PStr ''type'', PStr (re_type e)), (PStr ''result'', re_result e)]
     @ opt_entry (re_key e \<noteq> []) ''key'' (PStr (re_key e))"

definition py_repr :: "(pyval \<Rightarrow> string) \<Rightarrow> pyval \<Rightarrow> string" where
  "py_repr repr v = (case v of PStr s \<Rightarrow> repr_str s | _ \<Rightarrow> repr v)"

text \<open>A list or a dict cannot be looked up in a set.\<close>

definition unhashable :: "pyval \<Rightarrow> bool" where
  "unhashable v = (case v of PList _ \<Rightarrow> True | PDict _ \<Rightarrow> True | _ \<Rightarrow> False)"

definition entry_from_dict :: "(pyval \<Rightarrow> string) \<Rightarrow> pydict \<Rightarrow> exn + replay_entry" where
  "entry_from_dict repr data =
     (let effect_type = dget_default data ''type'' PNone in
      case dget_default data ''seq'' PNone of
        PInt n \<Rightarrow>
          if unhashable effect_type then Inl (TypeErr (''unhashable type: '' @ repr_str (type_name effect_type)))
          else if effect_type \<notin> {PStr ''time'', PStr ''random'', PStr ''call''}
            then Inl (DurableReplayErr (''replay entry '' @ string_of_int n @ '' has invalid type '' @ py_repr repr effect_type))
          else (case dget data ''result'' of
              None \<Rightarrow> Inl (DurableReplayErr (''replay entry '' @ string_of_int n @ '' is missing result''))
            | Some res \<Rightarrow> (case dget_default data ''key'' (PStr []) of
                  PStr k \<Rightarrow> Inr \<lparr>re_seq = n, re_type = (case effect_type of PStr t \<Rightarrow> t | _ \<Rightarrow> []), re_result = res, re_key = k\<rparr>
                | _ \<Rightarrow> Inl (DurableReplayErr (''replay entry '' @ string_of_int n @ '' key must be a string''))))
      | _ \<Rightarrow> Inl (DurableReplayErr ''replay entry seq must be an integer''))"

fun decode_entries :: "(pyval \<Rightarrow> string) \<Rightarrow> nat \<Rightarrow> pyval list \<Rightarrow> exn + replay_entry list" where
  "decode_entries repr i [] = Inr []"
| "decode_entries repr i (v # vs) = (case v of
     PDict d \<Rightarrow> bindR (entry_from_dict repr d) (\<lambda>e.
       if re_seq e \<noteq> int i then Inl (DurableReplayErr (''replay sequence mismatch: expected ''
          @ string_of_nat i @ '', got '' @ string_of_int (re_seq e)))
       else bindR (decode_entries repr (i + 1) vs) (\<lambda>es. Inr (e # es)))
   | _ \<Rightarrow> Inl (DurableReplayErr (''replay entry '' @ string_of_nat i @ '' must be an object'')))"

definition checkpoint_path :: "string \<Rightarrow> string" where
  "checkpoint_path job_id = ''/checkpoints/'' @ quote_str job_id"

definition resume_path :: "string \<Rightarrow> string" where
  "resume_path job_id = checkpoint_path job_id @ ''/resume''"

type_synonym 'w requester = "string \<Rightarrow> string \<Rightarrow> pydict option \<Rightarrow> ('w, pyval) io"

definition decode_checkpoint :: "(string \<Rightarrow> string + pyval) \<Rightarrow> (pyval \<Rightarrow> string) \<Rightarrow> pyval \<Rightarrow> exn + replay_entry list option" where
  "decode_checkpoint json repr response = (case response of
     PDict r \<Rightarrow>
       if dget r ''has_checkpoint'' = Some (PBool False) then Inr None
       else if dget r ''has_checkpoint'' \<noteq> Some (PBool True) then Inl (DurableReplayErr ''checkpoint response is missing has_checkpoint'')
       else (case dget r ''checkpoint'' of
           Some (PDict c) \<Rightarrow> (case dget c ''metadata'' of
               Some (PDict m) \<Rightarrow> (case dget m ''_replay_log'' of
                   Some (PStr raw) \<Rightarrow>
                     if raw = [] then Inl (DurableReplayErr ''checkpoint replay log is missing'')
                     else (case json raw of
                         Inl e \<Rightarrow> Inl (DurableReplayErr (''checkpoint replay log is invalid JSON: '' @ e))
                       | Inr (PList vs) \<Rightarrow> bindR (decode_entries repr 0 vs) (\<lambda>es. Inr (Some es))
                       | Inr _ \<Rightarrow> Inl (DurableReplayErr ''checkpoint replay log must be an array''))
                 | _ \<Rightarrow> Inl (DurableReplayErr ''checkpoint replay log is missing''))
             | _ \<Rightarrow> Inl (DurableReplayErr ''checkpoint metadata must be an object''))
         | _ \<Rightarrow> Inl (DurableReplayErr ''checkpoint payload must be an object''))
   | _ \<Rightarrow> Inl (DurableReplayErr ''checkpoint response must be an object''))"

definition load_replay_log :: "'w requester \<Rightarrow> (string \<Rightarrow> string + pyval) \<Rightarrow> (pyval \<Rightarrow> string) \<Rightarrow> string
    \<Rightarrow> ('w, replay_entry list option) io" where
  "load_replay_log request json repr job_id = (\<lambda>w. case request ''GET'' (resume_path job_id) None w of
     (Inl e, w') \<Rightarrow> (if is_job_not_found e then Inr None else Inl e, w')
   | (Inr response, w') \<Rightarrow> (decode_checkpoint json repr response, w'))"

subsection \<open>The context\<close>

record durable_context =
  dc_job_id :: string
  dc_attempt :: int
  dc_entries :: "replay_entry list"
  dc_cursor :: nat
  dc_replaying :: bool

definition dc_new :: "string \<Rightarrow> int \<Rightarrow> durable_context" where
  "dc_new job_id attempt = \<lparr>dc_job_id = job_id, dc_attempt = attempt, dc_entries = [], dc_cursor = 0, dc_replaying = False\<rparr>"

definition dc_create :: "'w requester option \<Rightarrow> (string \<Rightarrow> string + pyval) \<Rightarrow> (pyval \<Rightarrow> string) \<Rightarrow> string \<Rightarrow> int
    \<Rightarrow> ('w, durable_context) io" where
  "dc_create transport json repr job_id attempt = (case transport of
     None \<Rightarrow> retIO (dc_new job_id attempt)
   | Some request \<Rightarrow> bindIO (load_replay_log request json repr job_id) (\<lambda>log.
       case log of
         Some (e # es) \<Rightarrow> retIO ((dc_new job_id attempt)\<lparr>dc_entries := e # es, dc_replaying := True\<rparr>)
       | _ \<Rightarrow> retIO (dc_new job_id attempt)))"

definition replay_entry_of :: "string \<Rightarrow> string \<Rightarrow> durable_context \<Rightarrow> (exn + replay_entry option) \<times> durable_context" where
  "replay_entry_of effect_type key c =
     (if \<not> dc_replaying c then (Inr None, c)
      else if length (dc_entries c) \<le> dc_cursor c then (Inr None, c\<lparr>dc_replaying := False\<rparr>)
      else let e = dc_entries c ! dc_cursor c in
        if re_type e \<noteq> effect_type
        then (Inl (DurableReplayErr (''replay cursor '' @ string_of_nat (dc_cursor c) @ '' expected '' @ repr_str effect_type
            @ '', found '' @ repr_str (re_type e))), c)
        else if effect_type = ''call'' \<and> re_key e \<noteq> key
        then (Inl (DurableReplayErr (''replay cursor '' @ string_of_nat (dc_cursor c) @ '' expected side effect key ''
            @ repr_str key @ '', found '' @ repr_str (re_key e))), c)
        else (Inr (Some e), c\<lparr>dc_cursor := dc_cursor c + 1,
               dc_replaying := (dc_cursor c + 1 < length (dc_entries c) \<and> dc_replaying c)\<rparr>))"

definition append_entry :: "string \<Rightarrow> pyval \<Rightarrow> string \<Rightarrow> durable_context \<Rightarrow> durable_context" where
  "append_entry t v k c = c\<lparr>dc_entries := dc_entries c @
     [\<lparr>re_seq = int (length (dc_entries c)), re_type = t, re_result = v, re_key = k\<rparr>]\<rparr>"

text \<open>\<open>iso\<close> and \<open>from_iso\<close> are \<open>isoformat\<close> and \<open>datetime.fromisoformat\<close> (\<open>None\<close> when it raises).\<close>

record 'w durable_env =
  de_clock :: "'w \<Rightarrow> pydatetime \<times> 'w"
  de_token_hex :: "nat \<Rightarrow> 'w \<Rightarrow> string \<times> 'w"
  de_iso :: "pydatetime \<Rightarrow> string"
  de_from_iso :: "string \<Rightarrow> pydatetime option"

definition dc_now :: "'w durable_env \<Rightarrow> durable_context \<Rightarrow> 'w \<Rightarrow> (exn + pydatetime) \<times> durable_context \<times> 'w" where
  "dc_now env c w = (case replay_entry_of ''time'' ''now'' c of
     (Inl e, c') \<Rightarrow> (Inl e, c', w)
   | (Inr (Some e), c') \<Rightarrow> (case re_result e of
         PStr s \<Rightarrow> (case de_from_iso env s of Some t \<Rightarrow> Inr t | None \<Rightarrow> Inl (ValueErr (''Invalid isoformat string: '' @ repr_str s)), c', w)
       | _ \<Rightarrow> (Inl (DurableReplayErr ''replayed time value must be a string''), c', w))
   | (Inr None, c') \<Rightarrow> (case de_clock env w of (t, w') \<Rightarrow>
       (Inr t, (append_entry ''time'' (PStr (de_iso env t)) ''now'' c')\<lparr>dc_replaying := False\<rparr>, w')))"

definition dc_random :: "'w durable_env \<Rightarrow> nat \<Rightarrow> durable_context \<Rightarrow> 'w \<Rightarrow> (exn + string) \<times> durable_context \<times> 'w" where
  "dc_random env n c w = (case replay_entry_of ''random'' [] c of
     (Inl e, c') \<Rightarrow> (Inl e, c', w)
   | (Inr (Some e), c') \<Rightarrow> (case re_result e of
         PStr s \<Rightarrow> (Inr s, c', w)
       | _ \<Rightarrow> (Inl (DurableReplayErr ''replayed random value must be a string''), c', w))
   | (Inr None, c') \<Rightarrow> (case de_token_hex env n w of (s, w') \<Rightarrow>
       (Inr s, (append_entry ''random'' (PStr s) [] c')\<lparr>dc_replaying := False\<rparr>, w')))"

definition dc_side_effect :: "string \<Rightarrow> ('w, pyval) io \<Rightarrow> durable_context \<Rightarrow> 'w \<Rightarrow> (exn + pyval) \<times> durable_context \<times> 'w" where
  "dc_side_effect key fn c w = (case replay_entry_of ''call'' key c of
     (Inl e, c') \<Rightarrow> (Inl e, c', w)
   | (Inr (Some e), c') \<Rightarrow> (Inr (re_result e), c', w)
   | (Inr None, c') \<Rightarrow> (let c1 = c'\<lparr>dc_replaying := False\<rparr> in case fn w of
         (Inl e, w') \<Rightarrow> (Inl e, c1, w')
       | (Inr v, w') \<Rightarrow> (Inr v, append_entry ''call'' v key c1, w')))"

definition log_value :: "replay_entry list \<Rightarrow> pyval" where
  "log_value es = PList (map (\<lambda>e. PDict (entry_to_dict e)) es)"

definition checkpoint_body :: "string \<Rightarrow> int \<Rightarrow> pyval \<Rightarrow> durable_context \<Rightarrow> pydict" where
  "checkpoint_body replay_log step state c =
     [(PStr ''state'', state), (PStr ''step_index'', PInt step),
      (PStr ''metadata'', PDict [(PStr ''_replay_log'', PStr replay_log), (PStr ''attempt'', PStr (string_of_int (dc_attempt c)))])]"

definition dc_checkpoint :: "'w requester option \<Rightarrow> (pyval \<Rightarrow> exn + string) \<Rightarrow> int \<Rightarrow> pyval \<Rightarrow> durable_context \<Rightarrow> ('w, unit) io" where
  "dc_checkpoint transport dumps step state c = bindIO (liftIO (dumps (log_value (dc_entries c)))) (\<lambda>replay_log.
     case transport of
       None \<Rightarrow> retIO ()
     | Some request \<Rightarrow> bindIO (request ''POST'' (checkpoint_path (dc_job_id c))
         (Some (checkpoint_body replay_log step state c))) (\<lambda>_. retIO ()))"

definition dc_complete :: "'w requester option \<Rightarrow> durable_context \<Rightarrow> ('w, unit) io" where
  "dc_complete transport c = (case transport of
     None \<Rightarrow> retIO ()
   | Some request \<Rightarrow> bindIO (request ''DELETE'' (checkpoint_path (dc_job_id c)) None) (\<lambda>_. retIO ()))"

definition is_replaying :: "durable_context \<Rightarrow> bool" where
  "is_replaying c \<longleftrightarrow> dc_replaying c \<and> dc_cursor c < length (dc_entries c)"

subsection \<open>Handlers\<close>

datatype (dead 'w) prog =
    Done "exn + pyval"
  | Ask_time "exn + pydatetime \<Rightarrow> 'w prog"
  | Ask_random nat "exn + string \<Rightarrow> 'w prog"
  | Side_effect string "'w \<Rightarrow> (exn + pyval) \<times> 'w" "exn + pyval \<Rightarrow> 'w prog"

primrec run_prog :: "'w durable_env \<Rightarrow> 'w prog \<Rightarrow> durable_context \<Rightarrow> 'w \<Rightarrow> (exn + pyval) \<times> durable_context \<times> 'w" where
  "run_prog env (Done r) c w = (r, c, w)"
| "run_prog env (Ask_time k) c w = (case dc_now env c w of (r, c', w') \<Rightarrow> run_prog env (k r) c' w')"
| "run_prog env (Ask_random n k) c w = (case dc_random env n c w of (r, c', w') \<Rightarrow> run_prog env (k r) c' w')"
| "run_prog env (Side_effect key fn k) c w = (case dc_side_effect key fn c w of (r, c', w') \<Rightarrow> run_prog env (k r) c' w')"

text \<open>A first run in which no side effect raises.\<close>

primrec clean_run :: "'w durable_env \<Rightarrow> 'w prog \<Rightarrow> 'w \<Rightarrow> bool" where
  "clean_run env (Done r) w = True"
| "clean_run env (Ask_time k) w = (case de_clock env w of (t, w') \<Rightarrow> clean_run env (k (Inr t)) w')"
| "clean_run env (Ask_random n k) w = (case de_token_hex env n w of (s, w') \<Rightarrow> clean_run env (k (Inr s)) w')"
| "clean_run env (Side_effect key fn k) w = (case fn w of (Inr v, w') \<Rightarrow> clean_run env (k (Inr v)) w' | (Inl _, _) \<Rightarrow> False)"

subsection \<open>Replay\<close>

text \<open>The program and the world after the first \<open>k\<close> effects of a first run.\<close>

fun advance :: "'w durable_env \<Rightarrow> nat \<Rightarrow> 'w prog \<Rightarrow> 'w \<Rightarrow> 'w prog \<times> 'w" where
  "advance env 0 p w = (p, w)"
| "advance env (Suc k) (Done r) w = (Done r, w)"
| "advance env (Suc k) (Ask_time f) w = (case de_clock env w of (t, w') \<Rightarrow> advance env k (f (Inr t)) w')"
| "advance env (Suc k) (Ask_random n f) w = (case de_token_hex env n w of (s, w') \<Rightarrow> advance env k (f (Inr s)) w')"
| "advance env (Suc k) (Side_effect key fn f) w = (case fn w of (r, w') \<Rightarrow> advance env k (f r) w')"

definition ctx :: "durable_context \<Rightarrow> replay_entry list \<Rightarrow> nat \<Rightarrow> bool \<Rightarrow> durable_context" where
  "ctx c es n b = c\<lparr>dc_entries := es, dc_cursor := n, dc_replaying := b\<rparr>"

lemma ctx_sel [simp]: "dc_entries (ctx c es n b) = es" "dc_cursor (ctx c es n b) = n" "dc_replaying (ctx c es n b) = b"
  "dc_job_id (ctx c es n b) = dc_job_id c" "dc_attempt (ctx c es n b) = dc_attempt c"
  by (simp_all add: ctx_def)

lemma ctx_upd [simp]: "(ctx c es n b)\<lparr>dc_cursor := k, dc_replaying := b'\<rparr> = ctx c es k b'"
  by (simp add: ctx_def)

definition mk_entry :: "replay_entry list \<Rightarrow> string \<Rightarrow> pyval \<Rightarrow> string \<Rightarrow> replay_entry" where
  "mk_entry es t v k = \<lparr>re_seq = int (length es), re_type = t, re_result = v, re_key = k\<rparr>"

text \<open>An operation of a context that does not replay: the effect happens and its answer is recorded.\<close>

lemma record_steps:
  "de_clock env w = (t, w') \<Longrightarrow> dc_now env (ctx c es n False) w
     = (Inr t, ctx c (es @ [mk_entry es ''time'' (PStr (de_iso env t)) ''now'']) n False, w')"
  "de_token_hex env m w = (s, w') \<Longrightarrow> dc_random env m (ctx c es n False) w
     = (Inr s, ctx c (es @ [mk_entry es ''random'' (PStr s) []]) n False, w')"
  "fn w = (Inr v, w') \<Longrightarrow> dc_side_effect key fn (ctx c es n False) w
     = (Inr v, ctx c (es @ [mk_entry es ''call'' v key]) n False, w')"
  "fn w = (Inl e, w') \<Longrightarrow> dc_side_effect key fn (ctx c es n False) w = (Inl e, ctx c es n False, w')"
  by (simp_all add: dc_now_def dc_random_def dc_side_effect_def replay_entry_of_def append_entry_def mk_entry_def ctx_def)

text \<open>One that replays: the answer is the recorded one, and the world is not touched.\<close>

lemma replay_steps:
  assumes "c' = ctx c (es @ e # rest) (length es) True"
  shows "re_type e = ''time'' \<Longrightarrow> re_result e = PStr (de_iso env t) \<Longrightarrow> de_from_iso env (de_iso env t) = Some t \<Longrightarrow>
      dc_now env c' w = (Inr t, ctx c (es @ e # rest) (length es + 1) (rest \<noteq> []), w)"
    and "re_type e = ''random'' \<Longrightarrow> re_result e = PStr s \<Longrightarrow>
      dc_random env m c' w = (Inr s, ctx c (es @ e # rest) (length es + 1) (rest \<noteq> []), w)"
    and "re_type e = ''call'' \<Longrightarrow> re_result e = v \<Longrightarrow> re_key e = key \<Longrightarrow>
      dc_side_effect key fn c' w = (Inr v, ctx c (es @ e # rest) (length es + 1) (rest \<noteq> []), w)"
  by (simp_all add: assms dc_now_def dc_random_def dc_side_effect_def replay_entry_of_def ctx_def)

lemma run_grows:
  "\<exists>r new w'. \<forall>n c. run_prog env p (ctx c es n False) w = (r, ctx c (es @ new) n False, w')"
proof (induction p arbitrary: es w)
  case (Done r)
  show ?case by (auto intro!: exI[of _ "[]"])
next
  case (Ask_time f)
  obtain t w1 where "de_clock env w = (t, w1)" by (cases "de_clock env w")
  then show ?case using Ask_time[OF rangeI, of "Inr t" "es @ [mk_entry es ''time'' (PStr (de_iso env t)) ''now'']" w1]
    by (simp add: record_steps(1)) blast
next
  case (Ask_random m f)
  obtain s w1 where "de_token_hex env m w = (s, w1)" by (cases "de_token_hex env m w")
  then show ?case using Ask_random[OF rangeI, of "Inr s" "es @ [mk_entry es ''random'' (PStr s) []]" w1]
    by (simp add: record_steps(2)) blast
next
  case (Side_effect key fn f)
  obtain r w1 where fn: "fn w = (r, w1)" by (cases "fn w")
  show ?case
  proof (cases r)
    case (Inl e)
    then show ?thesis using fn Side_effect[OF rangeI, of "Inl e" es w1] by (simp add: record_steps(4))
  next
    case (Inr v)
    then show ?thesis using fn Side_effect[OF rangeI, of "Inr v" "es @ [mk_entry es ''call'' v key]" w1]
      by (simp add: record_steps(3)) blast
  qed
qed

lemma ctx_eq [simp]: "ctx c es n b = ctx c es' n b \<longleftrightarrow> es = es'"
  by (metis ctx_sel(1))

lemma run_cursor:
  "run_prog env p (ctx c es n False) w = (r, ctx c (es @ new) n False, w') \<Longrightarrow>
   run_prog env p (ctx c' es m False) w = (r, ctx c' (es @ new) m False, w')"
  using run_grows[of env p es w] by (metis ctx_eq prod.inject same_append_eq)

text \<open>One recorded effect, in both runs.\<close>

lemma replay_prefix_step:
  assumes rec: "run_prog env p (ctx c es n False) w = run_prog env q (ctx c (es @ [e]) n False) w1"
    and rep: "\<And>rest v. run_prog env p (ctx c (es @ e # rest) (length es) True) v
        = run_prog env q (ctx c (es @ e # rest) (length es + 1) (rest \<noteq> [])) v"
    and adv: "advance env (Suc k) p w = advance env k q w1"
    and run: "run_prog env p (ctx c es n False) w = (r, ctx c (es @ new) n False, w')" and k: "Suc k \<le> length new"
    and IH: "\<And>new1. run_prog env q (ctx c (es @ [e]) n False) w1 = (r, ctx c ((es @ [e]) @ new1) n False, w') \<Longrightarrow>
        k \<le> length new1 \<Longrightarrow> advance env k q w1 = (x, wk) \<Longrightarrow>
        run_prog env x (ctx c ((es @ [e]) @ take k new1) m False) wk = (r, ctx c ((es @ [e]) @ new1) m False, w')
        \<and> (\<forall>v. run_prog env q (ctx c ((es @ [e]) @ take k new1) (length (es @ [e])) (0 < k)) v
             = run_prog env x (ctx c ((es @ [e]) @ take k new1) (length (es @ [e]) + k) False) v)"
    and q: "advance env (Suc k) p w = (x, wk)"
  shows "run_prog env x (ctx c (es @ take (Suc k) new) m False) wk = (r, ctx c (es @ new) m False, w')
    \<and> (\<forall>v. run_prog env p (ctx c (es @ take (Suc k) new) (length es) (0 < Suc k)) v
         = run_prog env x (ctx c (es @ take (Suc k) new) (length es + Suc k) False) v)"
proof -
  obtain r1 new1 w2 where g: "run_prog env q (ctx c (es @ [e]) n False) w1 = (r1, ctx c ((es @ [e]) @ new1) n False, w2)"
    using run_grows[of env q "es @ [e]" w1] by blast
  then have eq: "r1 = r" "w2 = w'" "new = e # new1" using run rec by auto
  have k1: "k \<le> length new1" using k eq(3) by simp
  have "take k new1 \<noteq> [] \<longleftrightarrow> 0 < k" using k1 by auto
  then show ?thesis using IH[OF g[unfolded eq(1,2)] k1] adv q rep[of "take k new1"] unfolding eq(3) by simp
qed

lemma replay_prefix:
  assumes iso: "\<forall>v. de_from_iso env (de_iso env (fst (de_clock env v))) = Some (fst (de_clock env v))"
  shows "clean_run env p w \<Longrightarrow> run_prog env p (ctx c es n False) w = (r, ctx c (es @ new) n False, w') \<Longrightarrow>
    k \<le> length new \<Longrightarrow> advance env k p w = (x, wk) \<Longrightarrow>
    run_prog env x (ctx c (es @ take k new) m False) wk = (r, ctx c (es @ new) m False, w')
    \<and> (\<forall>v. run_prog env p (ctx c (es @ take k new) (length es) (0 < k)) v
         = run_prog env x (ctx c (es @ take k new) (length es + k) False) v)"
proof (induction p arbitrary: es w new k)
  case (Done r0)
  then show ?case by (cases k) auto
next
  case (Ask_time f)
  show ?case
  proof (cases k)
    case 0
    then show ?thesis using run_cursor[OF Ask_time.prems(2)] Ask_time.prems(4) by (auto simp del: run_prog.simps)
  next
    case (Suc k')
    obtain t w1 where t: "de_clock env w = (t, w1)" by (cases "de_clock env w")
    let ?e = "mk_entry es ''time'' (PStr (de_iso env t)) ''now''"
    note IH = Ask_time.IH[OF rangeI, of "Inr t" w1 "es @ [?e]"]
    show ?thesis unfolding Suc
      by (rule replay_prefix_step[of env "Ask_time f" c es n w "f (Inr t)" ?e w1 k' r new w' x wk m])
        (use Ask_time.prems t Suc IH replay_steps(1)[OF refl, of ?e env t] iso[rule_format, of w] in
          \<open>simp_all add: record_steps(1) mk_entry_def\<close>)
  qed
next
  case (Ask_random l f)
  show ?case
  proof (cases k)
    case 0
    then show ?thesis using run_cursor[OF Ask_random.prems(2)] Ask_random.prems(4) by (auto simp del: run_prog.simps)
  next
    case (Suc k')
    obtain s w1 where t: "de_token_hex env l w = (s, w1)" by (cases "de_token_hex env l w")
    let ?e = "mk_entry es ''random'' (PStr s) []"
    note IH = Ask_random.IH[OF rangeI, of "Inr s" w1 "es @ [?e]"]
    show ?thesis unfolding Suc
      by (rule replay_prefix_step[of env "Ask_random l f" c es n w "f (Inr s)" ?e w1 k' r new w' x wk m])
        (use Ask_random.prems t Suc IH replay_steps(2)[OF refl, of ?e s env l] in
          \<open>simp_all add: record_steps(2) mk_entry_def\<close>)
  qed
next
  case (Side_effect key fn f)
  show ?case
  proof (cases k)
    case 0
    then show ?thesis using run_cursor[OF Side_effect.prems(2)] Side_effect.prems(4) by (auto simp del: run_prog.simps)
  next
    case (Suc k')
    obtain v w1 where t: "fn w = (Inr v, w1)" using Side_effect.prems(1) by (auto split: prod.splits sum.splits)
    let ?e = "mk_entry es ''call'' v key"
    note IH = Side_effect.IH[OF rangeI, of "Inr v" w1 "es @ [?e]"]
    show ?thesis unfolding Suc
      by (rule replay_prefix_step[of env "Side_effect key fn f" c es n w "f (Inr v)" ?e w1 k' r new w' x wk m])
        (use Side_effect.prems t Suc IH replay_steps(3)[OF refl, of ?e v key fn] in
          \<open>simp_all add: record_steps(3) mk_entry_def\<close>)
  qed
qed

definition resumed :: "string \<Rightarrow> int \<Rightarrow> replay_entry list \<Rightarrow> durable_context" where
  "resumed job_id attempt es = (dc_new job_id attempt)\<lparr>dc_entries := es, dc_replaying := (es \<noteq> [])\<rparr>"

lemma ctx_new: "dc_new j a = ctx (dc_new j a) [] 0 False" "resumed j a es = ctx (dc_new j a) es 0 (es \<noteq> [])"
  by (simp_all add: dc_new_def ctx_def resumed_def)

text \<open>
  C10. A crash is transparent: take a first run of a handler whose side effects did not raise, and any
  number \<open>k\<close> of the effects it recorded.  A run resumed from the log of those \<open>k\<close> effects performs none
  of them, whatever the world it starts in, and goes on as the program after them; and resumed in the
  world the first run had reached, it ends with the same result, the same log and the same world.
\<close>

theorem durable_replay_transparent:
  assumes iso: "\<forall>v. de_from_iso env (de_iso env (fst (de_clock env v))) = Some (fst (de_clock env v))"
    and "clean_run env p w" and "run_prog env p (dc_new j a) w = (r, c, w')"
    and "k \<le> length (dc_entries c)" and "advance env k p w = (q, wk)"
  shows "run_prog env p (resumed j a2 (take k (dc_entries c))) wk
       = (r, c\<lparr>dc_cursor := k, dc_attempt := a2\<rparr>, w')
    \<and> (\<forall>v. run_prog env p (resumed j a2 (take k (dc_entries c))) v
         = run_prog env q ((resumed j a2 (take k (dc_entries c)))\<lparr>dc_cursor := k, dc_replaying := False\<rparr>) v)"
proof -
  obtain new where new: "run_prog env p (ctx (dc_new j a) [] 0 False) w = (r, ctx (dc_new j a) ([] @ new) 0 False, w')"
      and c: "c = ctx (dc_new j a) new 0 False"
    using run_grows[of env p "[]" w] assms(3) ctx_new(1)[of j a] by (metis append_Nil prod.inject)
  have k: "k \<le> length new" using assms(4) c by simp
  have base: "run_prog env p (ctx (dc_new j a2) [] 0 False) w = (r, ctx (dc_new j a2) ([] @ new) 0 False, w')"
    using run_cursor[OF new] .
  have "take k new \<noteq> [] \<longleftrightarrow> 0 < k" using k by auto
  then have "resumed j a2 (take k new) = ctx (dc_new j a2) (take k new) 0 (0 < k)"
    unfolding ctx_new(2) by simp
  moreover have "ctx (dc_new j a2) new k False = c\<lparr>dc_cursor := k, dc_attempt := a2\<rparr>"
    unfolding c by (simp add: ctx_def dc_new_def)
  moreover have "run_prog env q (ctx (dc_new j a2) ([] @ take k new) k False) wk = (r, ctx (dc_new j a2) ([] @ new) k False, w')
      \<and> (\<forall>v. run_prog env p (ctx (dc_new j a2) ([] @ take k new) (length ([]::replay_entry list)) (0 < k)) v
           = run_prog env q (ctx (dc_new j a2) ([] @ take k new) (length ([]::replay_entry list) + k) False) v)"
    by (rule replay_prefix[OF iso assms(2) base k assms(5)])
  ultimately show ?thesis using c by simp
qed

text \<open>A program whose first side effect is recorded, and a world that counts what was done.\<close>

definition counting_env :: "nat durable_env" where
  "counting_env = \<lparr>de_clock = (\<lambda>w. (NaiveDT 0, w + 1)), de_token_hex = (\<lambda>n w. ([], w + 1)),
     de_iso = (\<lambda>t. ''1970-01-01T00:00:00''), de_from_iso = (\<lambda>s. Some (NaiveDT 0))\<rparr>"

definition two_effects :: "nat prog" where
  "two_effects = Side_effect ''a'' (\<lambda>w. (Inr (PInt (int w)), w + 1)) (\<lambda>x.
     Side_effect ''b'' (\<lambda>w. (Inr (PInt (int w)), w + 1)) (\<lambda>y. Done x))"

theorem durable_replay_transparent_witness:
  "\<exists>c. run_prog counting_env two_effects (dc_new ''j'' 1) 5 = (Inr (PInt 5), c, 7)
     \<and> (\<exists>c2. run_prog counting_env two_effects (resumed ''j'' 2 (take 1 (dc_entries c))) 6 = (Inr (PInt 5), c2, 7))"
proof -
  let ?run = "run_prog counting_env two_effects (dc_new ''j'' 1) 5"
  have run: "?run = (Inr (PInt 5), fst (snd ?run), 7)" and len: "length (dc_entries (fst (snd ?run))) = 2"
    by (simp_all add: two_effects_def dc_side_effect_def replay_entry_of_def append_entry_def dc_new_def)
  have clean: "clean_run counting_env two_effects 5" by (simp add: two_effects_def)
  have iso: "\<forall>v. de_from_iso counting_env (de_iso counting_env (fst (de_clock counting_env v))) = Some (fst (de_clock counting_env v))"
    by (simp add: counting_env_def)
  obtain q where adv: "advance counting_env 1 two_effects 5 = (q, 6)" by (simp add: two_effects_def numeral_eq_Suc)
  have "1 \<le> length (dc_entries (fst (snd ?run)))" using len by simp
  from durable_replay_transparent[OF iso clean run this adv, where ?a2.0 = 2] run show ?thesis by blast
qed

subsection \<open>Checkpoints\<close>

text \<open>Entries as a run records them: numbered from zero, of one of the three types.\<close>

definition log_ok :: "replay_entry list \<Rightarrow> bool" where
  "log_ok es \<longleftrightarrow> (\<forall>i < length es. re_seq (es ! i) = int i \<and> re_type (es ! i) \<in> {''time'', ''random'', ''call''})"

lemma log_ok_append: "log_ok es \<Longrightarrow> t \<in> {''time'', ''random'', ''call''} \<Longrightarrow> log_ok (es @ [mk_entry es t v k])"
  by (auto simp: log_ok_def mk_entry_def nth_append less_Suc_eq)

lemma run_log_ok:
  "log_ok es \<Longrightarrow> run_prog env p (ctx c es n False) w = (r, c', w') \<Longrightarrow> log_ok (dc_entries c')"
proof (induction p arbitrary: es w)
  case (Ask_time f)
  obtain t w1 where "de_clock env w = (t, w1)" by (cases "de_clock env w")
  then show ?case using Ask_time.prems Ask_time.IH[OF rangeI] log_ok_append[of es "''time''"] by (simp add: record_steps(1)) blast
next
  case (Ask_random m f)
  obtain s w1 where "de_token_hex env m w = (s, w1)" by (cases "de_token_hex env m w")
  then show ?case using Ask_random.prems Ask_random.IH[OF rangeI] log_ok_append[of es "''random''"] by (simp add: record_steps(2)) blast
next
  case (Side_effect key fn f)
  obtain x w1 where "fn w = (x, w1)" by (cases "fn w")
  then show ?case using Side_effect.prems Side_effect.IH[OF rangeI] log_ok_append[of es "''call''"]
    by (cases x) (simp_all add: record_steps(3,4), blast+)
qed auto

lemma entry_roundtrip: "re_type e \<in> {''time'', ''random'', ''call''} \<Longrightarrow> entry_from_dict repr (entry_to_dict e) = Inr e"
  by (cases e) (auto simp: entry_from_dict_def entry_to_dict_def unhashable_def dget_default_def)

lemma decode_log:
  "\<forall>j < length es. re_seq (es ! j) = int (i + j) \<and> re_type (es ! j) \<in> {''time'', ''random'', ''call''} \<Longrightarrow>
   decode_entries repr i (map (\<lambda>e. PDict (entry_to_dict e)) es) = Inr es"
proof (induction es arbitrary: i)
  case (Cons e es)
  have e: "re_seq e = int i" "re_type e \<in> {''time'', ''random'', ''call''}" using Cons.prems by force+
  have "\<forall>j < length es. re_seq (es ! j) = int (i + 1 + j) \<and> re_type (es ! j) \<in> {''time'', ''random'', ''call''}"
    using Cons.prems by (metis (no_types, lifting) Suc_less_eq add.assoc length_Cons nth_Cons_Suc plus_1_eq_Suc)
  then show ?case using Cons.IH e entry_roundtrip[OF e(2)] by simp
qed simp

text \<open>
  A checkpoint comes back: when a first run has saved its checkpoint and the server answers the
  resume request with what was saved, creating the context on the next attempt gives exactly the log of
  that run, with replay on unless the log is empty.
\<close>

theorem checkpoint_roundtrip:
  assumes "run_prog env p (dc_new j a) w = (r, c, w')"
    and "dumps (log_value (dc_entries c)) = Inr raw" and "json raw = Inr (log_value (dc_entries c))" and "raw \<noteq> []"
    and "request ''GET'' (resume_path j) None v
       = (Inr (PDict [(PStr ''has_checkpoint'', PBool True), (PStr ''checkpoint'', PDict (checkpoint_body raw step state c))]), v')"
  shows "dc_create (Some request) json repr j a2 v = (Inr (resumed j a2 (dc_entries c)), v')
    \<and> dc_checkpoint (Some post) dumps step state c
      = bindIO (post ''POST'' (checkpoint_path j) (Some (checkpoint_body raw step state c))) (\<lambda>_. retIO ())"
proof -
  have "log_ok (dc_entries c)"
    using run_log_ok[of "[]" env p "dc_new j a" 0 w] assms(1) ctx_new(1)[of j a] by (simp add: log_ok_def)
  then have "decode_entries repr 0 (map (\<lambda>e. PDict (entry_to_dict e)) (dc_entries c)) = Inr (dc_entries c)"
    by (intro decode_log) (simp add: log_ok_def)
  then have "decode_checkpoint json repr (PDict [(PStr ''has_checkpoint'', PBool True),
      (PStr ''checkpoint'', PDict (checkpoint_body raw step state c))]) = Inr (Some (dc_entries c))"
    using assms(3,4) by (simp add: decode_checkpoint_def checkpoint_body_def log_value_def)
  then have "load_replay_log request json repr j v = (Inr (Some (dc_entries c)), v')"
    using assms(5) by (simp add: load_replay_log_def)
  moreover have "dc_job_id c = j"
    using run_grows[of env p "[]" w] assms(1) ctx_new(1)[of j a]
    by (metis ctx_sel(4) dc_new_def durable_context.select_convs(1) prod.inject)
  ultimately show ?thesis
    using assms(2) by (cases "dc_entries c")
      (simp_all add: dc_create_def bindIO_def retIO_def liftIO_def resumed_def dc_checkpoint_def fun_eq_iff dc_new_def)
qed

theorem checkpoint_roundtrip_witness:
  "\<exists>c. run_prog counting_env two_effects (dc_new ''j'' 1) 5 = (Inr (PInt 5), c, 7)
     \<and> fst (dc_create (Some (\<lambda>m p b v. (Inr (PDict [(PStr ''has_checkpoint'', PBool True),
            (PStr ''checkpoint'', PDict (checkpoint_body ''x'' 1 PNone c))]), v)))
          (\<lambda>_. Inr (log_value (dc_entries c))) (\<lambda>_. []) ''j'' 2 (0::nat)) = Inr (resumed ''j'' 2 (dc_entries c))"
proof -
  let ?run = "run_prog counting_env two_effects (dc_new ''j'' 1) 5"
  let ?c = "fst (snd ?run)"
  have run: "?run = (Inr (PInt 5), ?c, 7)"
    by (simp add: two_effects_def dc_side_effect_def replay_entry_of_def append_entry_def dc_new_def)
  let ?req = "\<lambda>(m::string) (p::string) (b::pydict option) (v::nat). (Inr (PDict [(PStr ''has_checkpoint'', PBool True),
      (PStr ''checkpoint'', PDict (checkpoint_body ''x'' 1 PNone ?c))]), v) :: (exn + pyval) \<times> nat"
  have eq: "fst (dc_create (Some ?req) (\<lambda>_. Inr (log_value (dc_entries ?c))) (\<lambda>_. []) ''j'' 2 (0::nat)) = Inr (resumed ''j'' 2 (dc_entries ?c))"
    using checkpoint_roundtrip[OF run, where dumps = "\<lambda>_. Inr ''x''" and raw = "''x''" and request = ?req and v = 0 and v' = 0
        and json = "\<lambda>_. Inr (log_value (dc_entries ?c))" and repr = "\<lambda>_. []" and step = 1 and state = PNone and ?a2.0 = 2 and post = ?req, OF refl refl list.distinct(2) refl]
    by simp
  show ?thesis by (intro exI[of _ ?c] conjI run eq)
qed

definition fallback_prog :: "string \<Rightarrow> ('w, pyval) io \<Rightarrow> string \<Rightarrow> ('w, pyval) io \<Rightarrow> exn \<Rightarrow> 'w prog" where
  "fallback_prog a f b g e = Side_effect a f (\<lambda>r. if r = Inl e then Side_effect b g Done else Done r)"

text \<open>
  C38. A failure that the handler survives breaks the replay: a side effect that raises is not recorded,
  so when the handler catches its error and falls back to another side effect, the recorded log starts
  with the fallback, and every later attempt raises \<open>DurableReplayError\<close> at the first side effect,
  whatever the world.
\<close>

theorem durable_fallback_breaks_replay:
  assumes "f w = (Inl e, w1)" and "g w1 = (Inr v, w2)" and "a \<noteq> b" and "\<And>m. e \<noteq> DurableReplayErr m"
  shows "\<exists>c. run_prog env (fallback_prog a f b g e) (dc_new j n) w = (Inr v, c, w2)
    \<and> (\<forall>u. \<exists>m c'. run_prog env (fallback_prog a f b g e) (resumed j n2 (dc_entries c)) u = (Inl (DurableReplayErr m), c', u))"
  using assms by (auto simp: fallback_prog_def dc_side_effect_def replay_entry_of_def dc_new_def append_entry_def resumed_def)

theorem durable_fallback_breaks_replay_witness:
  "\<exists>c. run_prog counting_env (fallback_prog ''a'' (raiseIO (ValueErr [])) ''b'' (retIO PNone) (ValueErr [])) (dc_new ''j'' 1) 0 = (Inr PNone, c, 0)"
  using durable_fallback_breaks_replay[of "raiseIO (ValueErr [])" 0 "ValueErr []" 0 "retIO PNone" PNone 0 "''a''" "''b''" counting_env "''j''" 1]
  by (auto simp: raiseIO_def retIO_def)

end
