(* ===== verification/Encryption.thy ===== *)
theory Encryption
  imports Base64 Middleware
begin

section \<open>Encrypted job arguments\<close>

text \<open>
  \<open>src/ojs/encryption.py\<close>.  The cipher is that of the \<open>cryptography\<close> package, an argument: \<open>ae_create\<close>
  is the construction of a cipher for a key, \<open>ae_encrypt\<close> and \<open>ae_decrypt\<close> its operations, and
  \<open>aead_ok\<close> what its documentation promises.  \<open>json.dumps\<close> and \<open>json.loads\<close> and the bytes of
  \<open>os.urandom\<close> are arguments too.  The decrypting middleware assigns to \<open>ctx.job.args\<close>, which the handler
  and every later call of the chain read: the arguments of the live job are a part of the world.
\<close>

subsection \<open>Keys and ciphers\<close>

type_synonym bytes = "nat list"

record cipher =
  ae_create :: "bytes \<Rightarrow> exn + unit"
  ae_encrypt :: "bytes \<Rightarrow> bytes \<Rightarrow> bytes \<Rightarrow> bytes"
  ae_decrypt :: "bytes \<Rightarrow> bytes \<Rightarrow> bytes \<Rightarrow> exn + bytes"

definition aead_ok :: "cipher \<Rightarrow> bool" where
  "aead_ok c \<longleftrightarrow> (\<forall>key nonce data. ae_create c key = Inr () \<longrightarrow> bytes_ok nonce \<longrightarrow> bytes_ok data \<longrightarrow>
     bytes_ok (ae_encrypt c key nonce data) \<and> ae_decrypt c key nonce (ae_encrypt c key nonce data) = Inr data)"

text \<open>An abstract key provider, and the one backed by a dict.\<close>

record key_provider =
  kp_get_key :: "pyval \<Rightarrow> exn + bytes"
  kp_current :: "exn + string"

record static_keys =
  sk_keys :: "(string \<times> bytes) list"
  sk_current :: string

fun check_lengths :: "(string \<times> bytes) list \<Rightarrow> exn + unit" where
  "check_lengths [] = Inr ()"
| "check_lengths ((kid, k) # ks) = (if length k \<noteq> 32
     then Inl (ValueErr (''key '' @ repr_str kid @ '' must be 32 bytes for AES-256 (got '' @ string_of_nat (length k) @ '')''))
     else check_lengths ks)"

definition new_static_keys :: "(string \<times> bytes) list \<Rightarrow> string \<Rightarrow> exn + static_keys" where
  "new_static_keys keys current = (if map_of keys current = None
     then Inl (ValueErr (''current_key '' @ repr_str current @ '' not found in keys''))
     else bindR (check_lengths keys) (\<lambda>_. Inr \<lparr>sk_keys = keys, sk_current = current\<rparr>))"

definition static_get_key :: "(pyval \<Rightarrow> string) \<Rightarrow> static_keys \<Rightarrow> pyval \<Rightarrow> exn + bytes" where
  "static_get_key repr_of sk v = (case v of
     PStr s \<Rightarrow> (case map_of (sk_keys sk) s of Some k \<Rightarrow> Inr k
       | None \<Rightarrow> Inl (KeyErr (''unknown key ID: '' @ repr_str s)))
   | PList _ \<Rightarrow> Inl (TypeErr ''unhashable type'')
   | PDict _ \<Rightarrow> Inl (TypeErr ''unhashable type'')
   | _ \<Rightarrow> Inl (KeyErr (''unknown key ID: '' @ repr_of v)))"

definition static_provider :: "(pyval \<Rightarrow> string) \<Rightarrow> static_keys \<Rightarrow> key_provider" where
  "static_provider repr_of sk = \<lparr>kp_get_key = static_get_key repr_of sk, kp_current = Inr (sk_current sk)\<rparr>"

record codec =
  cd_cipher :: cipher
  cd_provider :: key_provider

definition new_codec :: "cipher \<Rightarrow> key_provider \<Rightarrow> exn + codec" where
  "new_codec c p = bindR (kp_current p) (\<lambda>key_id. bindR (kp_get_key p (PStr key_id)) (\<lambda>k.
     bindR (ae_create c k) (\<lambda>_. Inr \<lparr>cd_cipher = c, cd_provider = p\<rparr>)))"

definition codec_encrypt :: "codec \<Rightarrow> bytes \<Rightarrow> bytes \<Rightarrow> exn + bytes \<times> bytes \<times> string" where
  "codec_encrypt cd nonce plaintext =
     bindR (kp_current (cd_provider cd)) (\<lambda>key_id.
     bindR (kp_get_key (cd_provider cd) (PStr key_id)) (\<lambda>key.
     bindR (ae_create (cd_cipher cd) key) (\<lambda>_.
       Inr (ae_encrypt (cd_cipher cd) key nonce plaintext, nonce, key_id))))"

definition codec_decrypt :: "codec \<Rightarrow> bytes \<Rightarrow> bytes \<Rightarrow> pyval \<Rightarrow> exn + bytes" where
  "codec_decrypt cd ciphertext nonce key_id =
     bindR (kp_get_key (cd_provider cd) key_id) (\<lambda>key.
     bindR (ae_create (cd_cipher cd) key) (\<lambda>_. ae_decrypt (cd_cipher cd) key nonce ciphertext))"

subsection \<open>The client side\<close>

definition META_ENCODINGS :: string where "META_ENCODINGS = ''ojs.codec.encodings''"
definition META_KEY_ID :: string where "META_KEY_ID = ''ojs.codec.key_id''"
definition META_NONCE :: string where "META_NONCE = ''ojs.codec.nonce''"
definition ENCODING_ENCRYPTED :: string where "ENCODING_ENCRYPTED = ''binary/encrypted''"

definition encrypted_meta :: "string \<Rightarrow> bytes \<Rightarrow> pydict \<Rightarrow> pydict" where
  "encrypted_meta key_id nonce m =
     dset (dset (dset m META_ENCODINGS (PList [PStr ENCODING_ENCRYPTED])) META_KEY_ID (PStr key_id))
       META_NONCE (PStr (b64encode nonce))"

text \<open>\<open>json.dumps\<close> escapes what is not ASCII, so encoding its text as UTF-8 keeps the character codes.\<close>

definition encryption_middleware :: "(pyval \<Rightarrow> exn + string) \<Rightarrow> codec \<Rightarrow> bytes \<Rightarrow> enqueue_middleware" where
  "encryption_middleware dumps cd nonce r =
     (case bindR (dumps (PList (jr_args r))) (\<lambda>s. codec_encrypt cd nonce (map of_char s)) of
        Inl e \<Rightarrow> Finish (Inl e)
      | Inr (ciphertext, n, key_id) \<Rightarrow>
          Next (r\<lparr>jr_args := [PStr (b64encode ciphertext)],
                  jr_meta := Some (encrypted_meta key_id n (case jr_meta r of None \<Rightarrow> [] | Some m \<Rightarrow> m))\<rparr>) Finish)"

subsection \<open>The worker side\<close>

record 'w live_job =
  lv_args :: pyval
  lv_rest :: 'w

text \<open>\<open>value[0]\<close>.\<close>

definition first_item :: "pyval \<Rightarrow> exn + pyval" where
  "first_item v = (case v of
     PList (x # _) \<Rightarrow> Inr x
   | PStr (c # _) \<Rightarrow> Inr (PStr [c])
   | PBytes (b # _) \<Rightarrow> Inr (PInt (int b))
   | PDict d \<Rightarrow> (case map_of d (PInt 0) of Some x \<Rightarrow> Inr x | None \<Rightarrow> Inl (KeyErr ''0''))
   | _ \<Rightarrow> Inl (TypeErr ''object is not subscriptable''))"

definition is_encrypted :: "pydict \<Rightarrow> bool" where
  "is_encrypted m \<longleftrightarrow> (case dget_default m META_ENCODINGS PNone of PList xs \<Rightarrow> PStr ENCODING_ENCRYPTED \<in> set xs | _ \<Rightarrow> False)
     \<or> truthy (dget_default m ''ojs_encoded'' PNone)"

text \<open>\<open>meta.get(k) or meta.get(legacy, '''')\<close>, and the decoding of a text that may be no string.\<close>

definition meta_or :: "pydict \<Rightarrow> string \<Rightarrow> string \<Rightarrow> pyval" where
  "meta_or m k legacy = (let v = dget_default m k PNone in if truthy v then v else dget_default m legacy (PStr []))"

definition b64decode_value :: "pyval \<Rightarrow> exn + bytes" where
  "b64decode_value v = (case v of
     PStr s \<Rightarrow> b64decode s
   | PBytes b \<Rightarrow> b64_loop 0 0 0 [] (map char_of b)
   | _ \<Rightarrow> Inl (TypeErr ''argument should be a bytes-like object or ASCII string''))"

definition decrypt_args :: "(bytes \<Rightarrow> exn + pyval) \<Rightarrow> codec \<Rightarrow> pydict \<Rightarrow> string \<Rightarrow> exn + pyval" where
  "decrypt_args loads cd m encoded =
     bindR (b64decode encoded) (\<lambda>ciphertext.
     bindR (b64decode_value (meta_or m META_NONCE ''ojs_nonce'')) (\<lambda>nonce.
     bindR (codec_decrypt cd ciphertext nonce (meta_or m META_KEY_ID ''ojs_key_id'')) (\<lambda>plaintext.
       loads plaintext)))"

definition decryption_middleware :: "(bytes \<Rightarrow> exn + pyval) \<Rightarrow> codec \<Rightarrow> 'w live_job execution_middleware" where
  "decryption_middleware loads cd ctx nxt w = (let m = j_meta (jc_job ctx) in
     if m = [] \<or> \<not> is_encrypted m \<or> \<not> truthy (lv_args w) then nxt w
     else case first_item (lv_args w) of
       Inl e \<Rightarrow> (Inl e, w)
     | Inr v \<Rightarrow> (case v of
         PStr encoded \<Rightarrow> (case decrypt_args loads cd m encoded of
             Inl e \<Rightarrow> (Inl e, w)
           | Inr a \<Rightarrow> nxt (w\<lparr>lv_args := a\<rparr>))
       | _ \<Rightarrow> nxt w))"

subsection \<open>Round trip\<close>

lemmas meta_names = META_ENCODINGS_def META_KEY_ID_def META_NONCE_def ENCODING_ENCRYPTED_def

lemma encrypted_meta_reads:
  "is_encrypted (encrypted_meta kid n m)" "encrypted_meta kid n m \<noteq> []"
  "kid \<noteq> [] \<Longrightarrow> meta_or (encrypted_meta kid n m) META_KEY_ID legacy = PStr kid"
  "n \<noteq> [] \<Longrightarrow> meta_or (encrypted_meta kid n m) META_NONCE legacy = PStr (b64encode n)"
  "k \<notin> {META_ENCODINGS, META_KEY_ID, META_NONCE} \<Longrightarrow> dget (encrypted_meta kid n m) k = dget m k"
proof -
  show "is_encrypted (encrypted_meta kid n m)"
    by (simp add: is_encrypted_def encrypted_meta_def dget_default_def meta_names)
  have "dget (encrypted_meta kid n m) META_NONCE \<noteq> None" by (simp add: encrypted_meta_def)
  then show "encrypted_meta kid n m \<noteq> []" by auto
qed (auto simp: meta_or_def encrypted_meta_def dget_default_def meta_names b64encode_nonempty)

lemma ascii_bytes: "bytes_ok (map of_char s)"
  by (auto simp: bytes_ok_def)

text \<open>
  C19. Encryption round trip: for arguments that \<open>json.loads\<close> gives back from their JSON text and a cipher
  that keeps its promise, the enqueue middleware calls the rest of the chain exactly once, with the same
  request but for its arguments (one Base64 string) and three entries of its metadata (every other entry
  is as it was), and on a job with these arguments and this metadata the worker's middleware runs the
  rest of its chain with the original arguments; this holds for every worker whose provider still has
  the key under the id that was current when the job was enqueued.
\<close>

theorem encryption_roundtrip:
  assumes "aead_ok (cd_cipher cd)" and "bytes_ok nonce" and "length nonce = 12"
    and "dumps (PList (jr_args r)) = Inr s" and "loads (map of_char s) = Inr (PList (jr_args r))"
    and "kp_current (cd_provider cd) = Inr kid" and "kid \<noteq> []" and "kp_get_key (cd_provider cd) (PStr kid) = Inr key"
    and "ae_create (cd_cipher cd) key = Inr ()"
    and "cd_cipher cd' = cd_cipher cd" and "kp_get_key (cd_provider cd') (PStr kid) = Inr key"
  shows "\<exists>body m'. encryption_middleware dumps cd nonce r = Next (r\<lparr>jr_args := [PStr body], jr_meta := Some m'\<rparr>) Finish
    \<and> (\<forall>k. k \<notin> {META_ENCODINGS, META_KEY_ID, META_NONCE} \<longrightarrow>
         dget m' k = dget (case jr_meta r of None \<Rightarrow> [] | Some m \<Rightarrow> m) k)
    \<and> (\<forall>ctx nxt w. j_meta (jc_job ctx) = m' \<longrightarrow> lv_args w = PList [PStr body] \<longrightarrow>
         decryption_middleware loads cd' ctx nxt w = nxt (w\<lparr>lv_args := PList (jr_args r)\<rparr>))"
proof -
  let ?c = "ae_encrypt (cd_cipher cd) key nonce (map of_char s)"
  let ?m = "encrypted_meta kid nonce (case jr_meta r of None \<Rightarrow> [] | Some m \<Rightarrow> m)"
  have cipher: "bytes_ok ?c" "ae_decrypt (cd_cipher cd) key nonce ?c = Inr (map of_char s)"
    using assms(1,2,9) ascii_bytes[of s] by (auto simp: aead_ok_def)
  have enc: "encryption_middleware dumps cd nonce r
      = Next (r\<lparr>jr_args := [PStr (b64encode ?c)], jr_meta := Some ?m\<rparr>) Finish"
    using assms by (simp add: encryption_middleware_def codec_encrypt_def)
  have n: "nonce \<noteq> []" using assms(3) by auto
  have dec: "decrypt_args loads cd' ?m (b64encode ?c) = Inr (PList (jr_args r))"
    using assms cipher n by (simp add: decrypt_args_def b64_roundtrip encrypted_meta_reads b64decode_value_def codec_decrypt_def)
  have "decryption_middleware loads cd' ctx nxt w = nxt (w\<lparr>lv_args := PList (jr_args r)\<rparr>)"
    if "j_meta (jc_job ctx) = ?m" "lv_args w = PList [PStr (b64encode ?c)]" for ctx nxt and w :: "'w live_job"
    using that encrypted_meta_reads(1,2) dec by (simp add: decryption_middleware_def Let_def first_item_def)
  then show ?thesis using enc encrypted_meta_reads(5) by blast
qed

text \<open>A cipher that keeps its promise without hiding anything (its tag is a zero byte), for samples.\<close>

definition tagging_cipher :: cipher where
  "tagging_cipher = \<lparr>ae_create = (\<lambda>k. if length k = 32 then Inr () else Inl (ValueErr ''AESGCM key must be 128, 192, or 256 bits.'')),
     ae_encrypt = (\<lambda>k n d. 0 # d),
     ae_decrypt = (\<lambda>k n c. case c of 0 # d \<Rightarrow> Inr d | _ \<Rightarrow> Inl (UserErr ''InvalidTag'' []))\<rparr>"

lemma tagging_cipher_ok: "aead_ok tagging_cipher"
  by (simp add: aead_ok_def tagging_cipher_def bytes_ok_def)

definition sample_keys :: static_keys where
  "sample_keys = \<lparr>sk_keys = [(''v1'', replicate 32 7)], sk_current = ''v1''\<rparr>"

definition sample_codec :: codec where
  "sample_codec = \<lparr>cd_cipher = tagging_cipher, cd_provider = static_provider (\<lambda>_. []) sample_keys\<rparr>"

lemma sample_codec_new: "new_codec tagging_cipher (static_provider (\<lambda>_. []) sample_keys) = Inr sample_codec"
  by (simp add: new_codec_def static_provider_def sample_keys_def static_get_key_def tagging_cipher_def sample_codec_def)

definition sample_args :: "pyval list" where
  "sample_args = [PStr ''hello'', PInt 1]"

definition sample_text :: string where
  "sample_text = ''[1]''"

theorem encryption_roundtrip_witness:
  "\<exists>body m'. encryption_middleware (\<lambda>_. Inr sample_text) sample_codec (replicate 12 1) (new_request ''a'' sample_args)
     = Next ((new_request ''a'' sample_args)\<lparr>jr_args := [PStr body], jr_meta := Some m'\<rparr>) Finish
   \<and> (\<forall>ctx. j_meta (jc_job ctx) = m' \<longrightarrow>
        decryption_middleware (\<lambda>_. Inr (PList sample_args)) sample_codec ctx (\<lambda>w. (Inr (lv_args w), w))
          \<lparr>lv_args = PList [PStr body], lv_rest = ()\<rparr> = (Inr (PList sample_args), \<lparr>lv_args = PList sample_args, lv_rest = ()\<rparr>))"
proof -
  have sample: "cd_cipher sample_codec = tagging_cipher" "kp_current (cd_provider sample_codec) = Inr ''v1''"
    "kp_get_key (cd_provider sample_codec) (PStr ''v1'') = Inr (replicate 32 7)"
    "ae_create (cd_cipher sample_codec) (replicate 32 7) = Inr ()"
    by (simp_all add: sample_codec_def static_provider_def sample_keys_def static_get_key_def tagging_cipher_def)
  have n: "bytes_ok (replicate 12 1)" by (simp add: bytes_ok_def)
  have j: "jr_args (new_request ''a'' sample_args) = sample_args" by (simp add: new_request_def)
  have len: "length (replicate 12 (1::nat)) = 12" by simp
  have cipher: "aead_ok (cd_cipher sample_codec)" unfolding sample(1) by (rule tagging_cipher_ok)
  obtain body m' where enc: "encryption_middleware (\<lambda>_. Inr sample_text) sample_codec (replicate 12 1) (new_request ''a'' sample_args)
     = Next ((new_request ''a'' sample_args)\<lparr>jr_args := [PStr body], jr_meta := Some m'\<rparr>) Finish"
    and dec: "\<forall>ctx nxt (w :: unit live_job). j_meta (jc_job ctx) = m' \<longrightarrow> lv_args w = PList [PStr body] \<longrightarrow>
       decryption_middleware (\<lambda>_. Inr (PList sample_args)) sample_codec ctx nxt w = nxt (w\<lparr>lv_args := PList sample_args\<rparr>)"
    using encryption_roundtrip[where r = "new_request ''a'' sample_args" and cd' = sample_codec
        and dumps = "\<lambda>_. Inr sample_text" and loads = "\<lambda>_. Inr (PList sample_args)",
        OF cipher n len refl _ sample(2) _ sample(3,4) refl sample(3)] unfolding j by blast
  show ?thesis using enc dec by (intro exI[of _ body] exI[of _ m']) simp
qed

subsection \<open>Decryption and retries\<close>

lemma decryption_step:
  assumes "j_meta (jc_job ctx) \<noteq> []" and "is_encrypted (j_meta (jc_job ctx))" and "lv_args w = PList (PStr body # others)"
  shows "decryption_middleware loads cd ctx nxt w = (case decrypt_args loads cd (j_meta (jc_job ctx)) body of
     Inl e \<Rightarrow> (Inl e, w) | Inr a \<Rightarrow> nxt (w\<lparr>lv_args := a\<rparr>))"
  using assms by (simp add: decryption_middleware_def Let_def first_item_def)

text \<open>Attempts that fail in the same way in every world the sleeps lead to.\<close>

lemma retry_attempts_raise:
  assumes "\<And>w. Q w \<Longrightarrow> nx w = (Inl e, w)" and "\<And>d w. Q w \<Longrightarrow> Q (snd (slp d w))" and "Q w"
  shows "retry_attempts r rnd slp nx a n w = retry_attempts r rnd slp (raiseIO e) a n w"
  using assms(3)
proof (induction n arbitrary: a w)
  case (Suc n)
  have "Q w2" if "slp d w = (x, w2)" for d x w2 using assms(2)[OF Suc.prems, of d] that by simp
  then show ?case using Suc assms(1)[OF Suc.prems]
    by (simp add: raiseIO_def split: sum.split prod.split)
qed simp

lemma retry_attempts_fails: "isl (fst (retry_attempts r rnd slp (raiseIO e) a n w))"
  by (induction n arbitrary: a w) (simp_all add: raiseIO_def split: sum.split prod.split)

text \<open>Arguments that do not start with a string are passed through: the handler then gets them as they are.\<close>

lemma decryption_passes:
  "(case lv_args w of PList (PStr s # _) \<Rightarrow> False | PList _ \<Rightarrow> True | _ \<Rightarrow> False) \<Longrightarrow>
    decryption_middleware loads cd ctx nxt w = nxt w"
  by (auto simp: decryption_middleware_def Let_def first_item_def split: pyval.splits list.splits)

text \<open>
  C23. Decryption is not repeatable when the first plain argument is a string that does not decrypt
  (one that is no ciphertext itself): the middleware replaces the arguments of the job but leaves the metadata that marks them
  as encrypted.  Inside the retry middleware with at least one retry, after a first attempt in which the
  handler failed and left the arguments alone and a pause that ended normally, every further attempt
  raises the error of decrypting the plain argument: the handler is not called again, so the retries
  cannot succeed.  The other way round, the retries repeat the handler only.  (Plain arguments that do
  not start with a string pass through, and the handler is called again.)
\<close>

theorem decryption_breaks_retry:
  assumes "j_meta (jc_job ctx) \<noteq> []" and "is_encrypted (j_meta (jc_job ctx))" and "lv_args w = PList [PStr body]"
    and "decrypt_args loads cd (j_meta (jc_job ctx)) body = Inr (PList (PStr plain # others))"
    and "decrypt_args loads cd (j_meta (jc_job ctx)) plain = Inl e2"
    and "hdl ctx (w\<lparr>lv_args := PList (PStr plain # others)\<rparr>) = (Inl e1, w1)" and "is_exception e1"
    and "lv_args w1 = PList (PStr plain # others)"
    and "1 \<le> er_max_retries r" and "retry_delay r 0 (rnd 0) = Inr d" and "slp d w1 = (Inr (), w2)"
    and "\<And>d w. lv_args (snd (slp d w)) = lv_args w"
  shows "execution_execute [retry_middleware r rnd slp, decryption_middleware loads cd] ctx hdl w
        = retry_attempts r rnd slp (raiseIO e2) 1 (nat (er_max_retries r)) w2
    \<and> isl (fst (execution_execute [retry_middleware r rnd slp, decryption_middleware loads cd] ctx hdl w))
    \<and> execution_execute [decryption_middleware loads cd, retry_middleware r rnd slp] ctx hdl w
        = execution_retry_run r rnd slp (hdl ctx) (w\<lparr>lv_args := PList (PStr plain # others)\<rparr>)"
proof -
  have first: "decryption_middleware loads cd ctx nxt w = nxt (w\<lparr>lv_args := PList (PStr plain # others)\<rparr>)" for nxt
    using decryption_step[OF assms(1,2,3)] assms(4) by simp
  have second: "decryption_middleware loads cd ctx nxt w' = (Inl e2, w')"
    if "lv_args w' = PList (PStr plain # others)" for nxt w'
    using decryption_step[OF assms(1,2), of w' plain others] assms(5) that by simp
  have kept: "lv_args w2 = PList (PStr plain # others)"
    using assms(12)[of d w1] by (simp add: assms(8,11))
  have N: "nat (er_max_retries r + 1) = Suc (nat (er_max_retries r))" using assms(9) by simp
  have "execution_execute [retry_middleware r rnd slp, decryption_middleware loads cd] ctx hdl w
      = retry_attempts r rnd slp (decryption_middleware loads cd ctx (hdl ctx)) 1 (nat (er_max_retries r)) w2"
    using assms(6,7,9,10,11) first unfolding execution_execute.simps retry_middleware_def execution_retry_run_def N by simp
  also have "\<dots> = retry_attempts r rnd slp (raiseIO e2) 1 (nat (er_max_retries r)) w2"
    by (rule retry_attempts_raise[where Q = "\<lambda>w. lv_args w = PList (PStr plain # others)"])
      (simp_all add: second kept assms(12))
  finally have outer: "execution_execute [retry_middleware r rnd slp, decryption_middleware loads cd] ctx hdl w
      = retry_attempts r rnd slp (raiseIO e2) 1 (nat (er_max_retries r)) w2" .
  moreover have "execution_execute [decryption_middleware loads cd, retry_middleware r rnd slp] ctx hdl w
      = execution_retry_run r rnd slp (hdl ctx) (w\<lparr>lv_args := PList (PStr plain # others)\<rparr>)"
    using first by (simp add: retry_middleware_def)
  ultimately show ?thesis using retry_attempts_fails by metis
qed

definition encrypted_context :: job_context where
  "encrypted_context = new_context ((jc_job sample_context)\<lparr>j_meta := encrypted_meta ''v1'' (replicate 12 1) []\<rparr>) 1 []"

theorem decryption_breaks_retry_witness:
  "\<exists>e2. execution_execute [retry_middleware \<lparr>er_max_retries = 1, er_base_delay = 1, er_max_delay = 1, er_jitter = False\<rparr>
       (\<lambda>_. 0) (\<lambda>_ w. (Inr (), w)), decryption_middleware (\<lambda>_. Inr (PList sample_args)) sample_codec] encrypted_context
       (\<lambda>_ w. (Inl (UserErr ''Flaky'' []), w)) \<lparr>lv_args = PList [PStr (b64encode [0, 1])], lv_rest = ()\<rparr>
     = (Inl (ValueErr e2), \<lparr>lv_args = PList sample_args, lv_rest = ()\<rparr>)"
proof -
  let ?loads = "\<lambda>_. Inr (PList sample_args)"
  have meta: "j_meta (jc_job encrypted_context) = encrypted_meta ''v1'' (replicate 12 1) []"
    by (simp add: encrypted_context_def new_context_def)
  have "decrypt_args ?loads sample_codec (encrypted_meta ''v1'' (replicate 12 1) []) (b64encode [0, 1])
      = Inr (PList (PStr ''hello'' # [PInt 1]))"
    by code_simp
  moreover have "(case decrypt_args ?loads sample_codec (encrypted_meta ''v1'' (replicate 12 1) []) ''hello'' of
      Inl (ValueErr _) \<Rightarrow> True | _ \<Rightarrow> False)"
    by code_simp
  then obtain m where "decrypt_args ?loads sample_codec (encrypted_meta ''v1'' (replicate 12 1) []) ''hello'' = Inl (ValueErr m)"
    by (auto split: sum.splits exn.splits)
  ultimately show ?thesis
    using conjunct1[OF decryption_breaks_retry[of encrypted_context "\<lparr>lv_args = PList [PStr (b64encode [0, 1])], lv_rest = ()\<rparr>"
        "b64encode [0, 1]" ?loads sample_codec "''hello''" "[PInt 1]" "ValueErr m"
        "\<lambda>_ w. (Inl (UserErr ''Flaky'' []), w)" "UserErr ''Flaky'' []" "\<lparr>lv_args = PList sample_args, lv_rest = ()\<rparr>"
        "\<lparr>er_max_retries = 1, er_base_delay = 1, er_max_delay = 1, er_jitter = False\<rparr>" "\<lambda>_. 0" 1 "\<lambda>_ w. (Inr (), w)"
        "\<lparr>lv_args = PList sample_args, lv_rest = ()\<rparr>"]]
      encrypted_meta_reads(1,2)[of "''v1''" "replicate 12 1" "[]"]
    unfolding meta by (auto simp: retry_delay_def sample_args_def float_limit_def raiseIO_def)
qed

end
