(* ===== verification/Fake_Testing.thy ===== *)
theory Fake_Testing
  imports Fake
begin

section \<open>Testing against the in-memory transport\<close>

text \<open>
  \<open>src/ojs/testing/assertions.py\<close> and the activation of a fake transport: equality of values as the
  assertions test it, the assertions, and \<open>drain\<close>.  The step relation \<open>fstep\<close> is everything a test can
  do to a store; at the end the worker of \<open>Worker\<close> runs a job of the store.
\<close>

subsection \<open>Equality of values\<close>

text \<open>
  Python's \<open>==\<close>: numbers (bools included) by value, lists by position, dicts by key whatever their
  order.  A \<open>NaN\<close> is equal to nothing here (Python finds a shared \<open>NaN\<close> object in a list equal to itself).
\<close>

fun num_of :: "pyval \<Rightarrow> pfloat option" where
  "num_of (PInt i) = Some (Fin (of_int i))"
| "num_of (PBool b) = Some (Fin (if b then 1 else 0))"
| "num_of (PFloat f) = Some f"
| "num_of _ = None"

function py_eq :: "pyval \<Rightarrow> pyval \<Rightarrow> bool"
  and py_eq_list :: "pyval list \<Rightarrow> pyval list \<Rightarrow> bool"
  and py_sub_dict :: "(pyval \<times> pyval) list \<Rightarrow> (pyval \<times> pyval) list \<Rightarrow> bool"
  and py_has :: "pyval \<Rightarrow> pyval \<Rightarrow> (pyval \<times> pyval) list \<Rightarrow> bool" where
  "py_eq PNone v = (v = PNone)"
| "py_eq (PStr s) v = (v = PStr s)"
| "py_eq (PBytes b) v = (v = PBytes b)"
| "py_eq (PDatetime d) v = (v = PDatetime d)"
| "py_eq (PInt i) v = (num_of v = Some (Fin (of_int i)))"
| "py_eq (PBool b) v = (num_of v = Some (Fin (if b then 1 else 0)))"
| "py_eq (PFloat f) v = (f \<noteq> NaN \<and> num_of v = Some f)"
| "py_eq (PList xs) v = (case v of PList ys \<Rightarrow> py_eq_list xs ys | _ \<Rightarrow> False)"
| "py_eq (PDict d) v = (case v of PDict e \<Rightarrow> length d = length e \<and> py_sub_dict d e | _ \<Rightarrow> False)"
| "py_eq_list [] ys = (ys = [])"
| "py_eq_list (x # xs) ys = (case ys of [] \<Rightarrow> False | y # ys' \<Rightarrow> py_eq x y \<and> py_eq_list xs ys')"
| "py_sub_dict [] e = True"
| "py_sub_dict (p # d) e = (py_has (fst p) (snd p) e \<and> py_sub_dict d e)"
| "py_has k v [] = False"
| "py_has k v (q # e) = (if py_eq k (fst q) then py_eq v (snd q) else py_has k v e)"
  by pat_completeness auto

text \<open>Every call is on a smaller left-hand value, or on a shorter rest of the right-hand dict.\<close>

termination
  by (relation "measures [case_sum (case_sum (\<lambda>(v, _). size v) (\<lambda>(xs, _). size_list size xs))
        (case_sum (\<lambda>(d, _). size_list (size_prod size size) d) (\<lambda>(k, v, _). size k + size v)),
      case_sum (\<lambda>_. 0) (case_sum (\<lambda>_. 0) (\<lambda>(_, _, e). length e))]")
    (auto simp: size_prod_def split: prod.splits)

subsection \<open>The active store\<close>

text \<open>\<open>activate_fake_transport\<close>: the body runs with the transport active, and what was active before is
  active again afterwards, whatever the body did.  The context variable is the world's first part.\<close>

definition with_fake :: "'t \<Rightarrow> ('t option \<times> 'w, 'a) io \<Rightarrow> ('t option \<times> 'w, 'a) io" where
  "with_fake t body = (\<lambda>(cur, w). case body (Some t, w) of (r, (_, w')) \<Rightarrow> (r, (cur, w')))"

definition get_store :: "fake_store option \<Rightarrow> fake_store option \<Rightarrow> fake_store option \<Rightarrow> exn + fake_store" where
  "get_store store transport active = (case store of Some s \<Rightarrow> Inr s
     | None \<Rightarrow> (case transport of Some s \<Rightarrow> Inr s
       | None \<Rightarrow> (case active of Some s \<Rightarrow> Inr s
         | None \<Rightarrow> Inl (RuntimeErr ''OJS testing: not in fake mode. Use `with fake_mode():` first.''))))"

subsection \<open>Assertions\<close>

definition matches :: "string \<Rightarrow> pyval list option \<Rightarrow> string option \<Rightarrow> pydict option \<Rightarrow> fake_job \<Rightarrow> bool" where
  "matches job_type args queue meta j \<longleftrightarrow> fj_type j = job_type
     \<and> (case queue of Some q \<Rightarrow> q = [] \<or> fj_queue j = q | None \<Rightarrow> True)
     \<and> (case args of Some xs \<Rightarrow> py_eq_list (fj_args j) xs | None \<Rightarrow> True)
     \<and> (case meta of Some m \<Rightarrow>
          list_all (\<lambda>(k, v). py_eq (case map_of (fj_meta j) k of Some x \<Rightarrow> x | None \<Rightarrow> PNone) v) m
        | None \<Rightarrow> True)"

definition find_matching :: "fake_job list \<Rightarrow> string \<Rightarrow> pyval list option \<Rightarrow> string option \<Rightarrow> pydict option
    \<Rightarrow> fake_job list" where
  "find_matching js job_type args queue meta = filter (matches job_type args queue meta) js"

definition assertion :: "string \<Rightarrow> exn" where
  "assertion m = UserErr ''AssertionError'' m"

text \<open>\<open>show\<close> prints the set of enqueued types, whose order Python does not fix.\<close>

definition assert_enqueued :: "(string set \<Rightarrow> string) \<Rightarrow> string \<Rightarrow> pyval list option \<Rightarrow> string option \<Rightarrow> pydict option
    \<Rightarrow> int option \<Rightarrow> fake_store \<Rightarrow> exn + unit" where
  "assert_enqueued types job_type args queue meta count st =
     (let ms = find_matching (fs_enqueued st) job_type args queue meta;
          ts = set (map fj_type (fs_enqueued st)) in
      case count of
        Some n \<Rightarrow> guardR (int (length ms) = n) (assertion (''Expected '' @ string_of_int n @ '' enqueued job(s) of type '' @ [CHR 0x27]
            @ job_type @ [CHR 0x27] @ '', found '' @ string_of_nat (length ms) @ ''. Enqueued types: '' @ types ts))
      | None \<Rightarrow> guardR (length ms \<noteq> 0) (assertion (''Expected at least one enqueued job of type '' @ [CHR 0x27] @ job_type
            @ [CHR 0x27] @ '', found none. Enqueued types: '' @ (if ts = {} then ''none'' else types ts))))"
definition refute_enqueued :: "string \<Rightarrow> pyval list option \<Rightarrow> string option \<Rightarrow> pydict option \<Rightarrow> fake_store
    \<Rightarrow> exn + unit" where
  "refute_enqueued job_type args queue meta st =
     (let ms = find_matching (fs_enqueued st) job_type args queue meta in
      guardR (ms = []) (assertion (''Expected no enqueued jobs of type '' @ [CHR 0x27] @ job_type @ [CHR 0x27]
        @ '', but found '' @ string_of_nat (length ms) @ ''.'')))"

definition performed_jobs :: "fake_store \<Rightarrow> fake_job list" where
  "performed_jobs st = map (\<lambda>i. fs_enqueued st ! i) (fs_performed st)"

definition assert_performed :: "string \<Rightarrow> fake_store \<Rightarrow> exn + unit" where
  "assert_performed job_type st = guardR (list_ex (\<lambda>j. fj_type j = job_type) (performed_jobs st))
     (assertion (''Expected at least one performed job of type '' @ [CHR 0x27] @ job_type @ [CHR 0x27] @ '', found none.''))"

definition assert_completed :: "string \<Rightarrow> fake_store \<Rightarrow> exn + unit" where
  "assert_completed job_type st =
     guardR (list_ex (\<lambda>j. fj_type j = job_type \<and> fj_state j = ''completed'') (performed_jobs st))
       (assertion (''Expected a completed job of type '' @ [CHR 0x27] @ job_type @ [CHR 0x27] @ '', found none.''))"

definition assert_failed :: "string \<Rightarrow> fake_store \<Rightarrow> exn + unit" where
  "assert_failed job_type st =
     guardR (list_ex (\<lambda>j. fj_type j = job_type \<and> fj_state j = ''discarded'') (performed_jobs st))
       (assertion (''Expected a failed job of type '' @ [CHR 0x27] @ job_type @ [CHR 0x27] @ '', found none.''))"

definition all_enqueued :: "string option \<Rightarrow> string option \<Rightarrow> fake_store \<Rightarrow> fake_job list" where
  "all_enqueued job_type queue st =
     (let js = fs_enqueued st;
          js = (if or_str job_type [] \<noteq> [] then filter (\<lambda>j. Some (fj_type j) = job_type) js else js) in
      if or_str queue [] \<noteq> [] then filter (\<lambda>j. Some (fj_queue j) = queue) js else js)"

subsection \<open>Draining\<close>

text \<open>One active job performed: the exception that leaves the loop, if any, and the job afterwards.\<close>

definition perform_job :: "(string \<times> fake_handler) list \<Rightarrow> fake_job \<Rightarrow> exn option \<times> fake_job" where
  "perform_job handlers j = (case map_of handlers (fj_type j) of
     None \<Rightarrow> (None, j\<lparr>fj_state := ''completed''\<rparr>)
   | Some h \<Rightarrow> (case h j of
       (Inr _, j') \<Rightarrow> (None, j'\<lparr>fj_state := ''completed''\<rparr>)
     | (Inl e, j') \<Rightarrow> if is_exception e then (None, j'\<lparr>fj_state := ''discarded''\<rparr>) else (Some e, j')))"

fun drain_loop :: "(string \<times> fake_handler) list \<Rightarrow> int \<Rightarrow> int \<Rightarrow> nat \<Rightarrow> fake_job list
    \<Rightarrow> (exn + int) \<times> fake_job list \<times> nat list" where
  "drain_loop handlers limit processed i [] = (Inr processed, [], [])"
| "drain_loop handlers limit processed i (j # js) =
     (if limit \<le> processed then (Inr processed, j # js, [])
      else if fj_state j \<noteq> ''available'' then
        (case drain_loop handlers limit processed (i + 1) js of (r, js', ps) \<Rightarrow> (r, j # js', ps))
      else (case perform_job handlers (activate j) of
          (Some e, j') \<Rightarrow> (Inl e, j' # js, [])
        | (None, j') \<Rightarrow> (case drain_loop handlers limit (processed + 1) (i + 1) js of
            (r, js', ps) \<Rightarrow> (r, j' # js', i # ps))))"

definition drain :: "int option \<Rightarrow> (fake_store, int) io" where
  "drain max_jobs st =
     (let limit = (if or_zero max_jobs \<noteq> 0 then the max_jobs else int (length (fs_enqueued st))) in
      case drain_loop (fs_handlers st) limit 0 0 (fs_enqueued st) of
        (r, js, ps) \<Rightarrow> (r, st\<lparr>fs_enqueued := js, fs_performed := fs_performed st @ ps\<rparr>))"

text \<open>
  Handlers that raise nothing but \<open>Exception\<close>s, and handlers that do not rename their job (and, if they let
  a cancellation through, leave it in a state that a \<open>Job\<close> can have).
\<close>

definition quiet_handlers :: "(string \<times> fake_handler) list \<Rightarrow> bool" where
  "quiet_handlers hs \<longleftrightarrow> (\<forall>(t, h) \<in> set hs. \<forall>j. \<forall>e. fst (h j) = Inl e \<longrightarrow> is_exception e)"

definition tame :: "fake_handler \<Rightarrow> bool" where
  "tame h \<longleftrightarrow> (\<forall>j. fj_id (snd (h j)) = fj_id j \<and> (case fst (h j) of Inr _ \<Rightarrow> True
     | Inl e \<Rightarrow> is_exception e \<or> fj_state j \<notin> fake_states \<or> fj_state (snd (h j)) \<in> fake_states))"

definition tame_handlers :: "(string \<times> fake_handler) list \<Rightarrow> bool" where
  "tame_handlers hs \<longleftrightarrow> (\<forall>p \<in> set hs. tame (snd p))"

definition performed :: "(string \<times> fake_handler) list \<Rightarrow> fake_job \<Rightarrow> fake_job" where
  "performed hs j = snd (perform_job hs (activate j))"

abbreviation available_job :: "fake_job \<Rightarrow> bool" where
  "available_job j \<equiv> fj_state j = ''available''"

lemma perform_quiet: "quiet_handlers hs \<Longrightarrow> fst (perform_job hs j) = None"
  by (auto simp: perform_job_def quiet_handlers_def dest!: map_of_SomeD split: option.splits prod.splits sum.splits)
    (metis fst_conv)

lemma perform_done: "fst (perform_job hs j) = None \<Longrightarrow> fj_state (snd (perform_job hs j)) \<in> {''completed'', ''discarded''}"
  by (auto simp: perform_job_def split: option.splits prod.splits sum.splits if_splits)

lemma perform_state: "quiet_handlers hs \<Longrightarrow> fj_state (snd (perform_job hs j)) \<in> {''completed'', ''discarded''}"
  using perform_done[OF perform_quiet] .

lemma drain_loop_chosen:
  assumes "quiet_handlers hs"
  shows "drain_loop hs limit p i js = (let is = chosen available_job (nat (limit - p)) js in
     (Inr (p + int (length is)), mark (performed hs) is js, map ((+) i) is))"
proof (induction js arbitrary: p i)
  case Nil
  then show ?case by (simp add: chosen_def mark_Cons)
next
  case (Cons j js)
  show ?case
  proof (cases "limit \<le> p")
    case True
    then show ?thesis by (simp add: chosen_def mark_Cons)
  next
    case False
    have m: "nat (limit - p) = Suc (nat (limit - (p + 1)))" using False by simp
    have step: "perform_job hs (activate j) = (None, performed hs j)"
      using perform_quiet[OF assms, of "activate j"] by (simp add: performed_def prod_eq_iff)
    show ?thesis
    proof (cases "available_job j")
      case True
      then show ?thesis using Cons False
        by (simp add: m step chosen_Cons mark_Cons Let_def comp_def)
    next
      case other: False
      then show ?thesis using Cons False by (simp add: chosen_Cons mark_Cons Let_def comp_def)
    qed
  qed
qed

text \<open>
  C37. Draining performs the available jobs in order: with handlers that raise only \<open>Exception\<close>s it
  performs the first jobs of the store that are available, at most \<open>max_jobs\<close> of them, returns how many
  there were and appends them to \<open>performed\<close>; each ends completed or discarded with its handler's
  effects, and no other job changes.  A limit of zero is taken for no limit: \<open>drain(max_jobs=0)\<close>
  performs every available job.
\<close>

theorem drain_spec:
  assumes "quiet_handlers (fs_handlers st)"
  shows "let limit = (case max_jobs of None \<Rightarrow> length (fs_enqueued st)
                 | Some m \<Rightarrow> if m = 0 then length (fs_enqueued st) else nat m);
             is = chosen available_job limit (fs_enqueued st);
             js = mark (performed (fs_handlers st)) is (fs_enqueued st) in
     drain max_jobs st = (Inr (int (length is)), st\<lparr>fs_enqueued := js, fs_performed := fs_performed st @ is\<rparr>)
     \<and> (\<forall>i \<in> set is. fj_state (js ! i) \<in> {''completed'', ''discarded''})
     \<and> drain (Some 0) st = drain None st"
proof -
  define limit where "limit = (case max_jobs of None \<Rightarrow> length (fs_enqueued st)
                 | Some m \<Rightarrow> if m = 0 then length (fs_enqueued st) else nat m)"
  define "is" where "is = chosen available_job limit (fs_enqueued st)"
  have lim: "nat (if or_zero max_jobs \<noteq> 0 then the max_jobs else int (length (fs_enqueued st))) = limit"
    by (cases max_jobs) (simp_all add: limit_def or_zero_def)
  have "drain max_jobs st = (Inr (int (length is)),
      st\<lparr>fs_enqueued := mark (performed (fs_handlers st)) is (fs_enqueued st), fs_performed := fs_performed st @ is\<rparr>)"
    unfolding drain_def Let_def drain_loop_chosen[OF assms] using lim by (simp add: is_def map_idI)
  moreover have "fj_state (mark (performed (fs_handlers st)) is (fs_enqueued st) ! i) \<in> {''completed'', ''discarded''}"
    if "i \<in> set is" for i
    using that chosen_props(4)[of i available_job limit "fs_enqueued st"] perform_state[OF assms]
    by (simp add: is_def performed_def)
  moreover have "drain (Some 0) st = drain None st" by (simp add: drain_def or_zero_def)
  ultimately show ?thesis unfolding Let_def limit_def[symmetric] is_def[symmetric] by blast
qed

theorem drain_spec_witness:
  "fst (drain (Some 0) (snd (record_enqueue ''now'' ''t'' [] ''q'' None None new_store))) = Inr 1"
proof -
  let ?st = "snd (record_enqueue ''now'' ''t'' [] ''q'' None None new_store)"
  have "quiet_handlers (fs_handlers ?st)"
    by (simp add: record_enqueue_def new_store_def quiet_handlers_def Let_def)
  from drain_spec[OF this, of "Some 0"] show ?thesis
    by (simp add: Let_def record_enqueue_def new_store_def chosen_def)
qed

subsection \<open>Everything a test can do to a store\<close>

text \<open>
  The steps: the operations of the transport, of the producer and of the assertions, with handlers of which
  \<open>ok\<close> holds.
\<close>

inductive fstep :: "(fake_handler \<Rightarrow> bool) \<Rightarrow> fake_store \<Rightarrow> fake_store \<Rightarrow> bool" for ok where
  fs_push: "fstep ok st (snd (fake_push str_of now body st))"
| fs_record: "fstep ok st (snd (record_enqueue now t args q m p st))"
| fs_fetch: "fstep ok st (snd (fake_fetch queues count st))"
| fs_cancel: "fstep ok st (snd (fake_cancel i st))"
| fs_settle: "fstep ok st (snd (send_outcome fake_ack_unit fake_nack_unit i x st))"
| fs_drain: "fstep ok st (snd (drain max_jobs st))"
| fs_handler: "ok h \<Longrightarrow> fstep ok st (register_handler t h st)"
| fs_clear: "fstep ok st (clear_store st)"

inductive_cases fstepE: "fstep ok st st'"

lemma fstep_mono: "fstep ok st st' \<Longrightarrow> (\<And>h. ok h \<Longrightarrow> ok' h) \<Longrightarrow> fstep ok' st st'"
  by (induction rule: fstep.induct) (auto intro: fstep.intros)

lemma fsteps_mono: "(fstep ok)\<^sup>*\<^sup>* st st' \<Longrightarrow> (\<And>h. ok h \<Longrightarrow> ok' h) \<Longrightarrow> (fstep ok')\<^sup>*\<^sup>* st st'"
  by (induction rule: rtranclp_induct) (auto intro: rtranclp.rtrancl_into_rtrancl dest: fstep_mono[where ok' = ok'])

lemma freach_mono: "reachable I (fstep ok) st \<Longrightarrow> (\<And>h. ok h \<Longrightarrow> ok' h) \<Longrightarrow> reachable I (fstep ok') st"
  by (induction rule: reachable.induct) (auto intro: reachable.intros dest: fstep_mono[where ok' = ok'])

text \<open>The performed jobs are jobs of the store, each listed once, and none of them is available again.\<close>

definition perf_ok :: "fake_store \<Rightarrow> bool" where
  "perf_ok st \<longleftrightarrow> distinct (fs_performed st)
     \<and> (\<forall>n \<in> set (fs_performed st). n < length (fs_enqueued st) \<and> \<not> available_job (fs_enqueued st ! n))"

definition fake_inv :: "fake_store \<Rightarrow> bool" where
  "fake_inv st \<longleftrightarrow> store_ok st \<and> tame_handlers (fs_handlers st)"

lemma perf_ok_mono:
  assumes "perf_ok st" "fs_performed st' = fs_performed st" "length (fs_enqueued st) \<le> length (fs_enqueued st')"
    and "\<And>n. n < length (fs_enqueued st) \<Longrightarrow> available_job (fs_enqueued st' ! n) \<Longrightarrow> available_job (fs_enqueued st ! n)"
  shows "perf_ok st'"
  using assms by (fastforce simp: perf_ok_def)

lemma perform_tame:
  assumes "tame_handlers hs" "fj_state j \<in> fake_states"
  shows "fj_id (snd (perform_job hs j)) = fj_id j \<and> fj_state (snd (perform_job hs j)) \<in> fake_states"
proof (cases "map_of hs (fj_type j)")
  case None
  then show ?thesis by (simp add: perform_job_def fake_states_def)
next
  case (Some h)
  then have "(fj_type j, h) \<in> set hs" by (rule map_of_SomeD)
  then have "tame h" using assms(1) by (auto simp: tame_handlers_def)
  then have t: "fj_id (snd (h j)) = fj_id j" "case fst (h j) of Inr _ \<Rightarrow> True
      | Inl e \<Rightarrow> is_exception e \<or> fj_state (snd (h j)) \<in> fake_states"
    using assms(2) by (auto simp: tame_def split: sum.splits)
  then show ?thesis using Some
    by (cases "h j"; cases "fst (h j)") (auto simp: perform_job_def fake_states_def)
qed

text \<open>What a drain performs, whatever the handlers do to their jobs.\<close>

lemma drain_loop_perf:
  assumes "drain_loop hs limit p i js = (r, js', ps)"
  shows "length js' = length js \<and> sorted_wrt (<) ps
    \<and> (\<forall>n \<in> set ps. i \<le> n \<and> n < i + length js \<and> available_job (js ! (n - i)) \<and> \<not> available_job (js' ! (n - i)))
    \<and> (\<forall>n < length js. available_job (js' ! n) \<longrightarrow> available_job (js ! n))"
  using assms
proof (induction js arbitrary: p i r js' ps)
  case (Cons j js)
  obtain e j1 where one: "perform_job hs (activate j) = (e, j1)" by (cases "perform_job hs (activate j)")
  have nth: "(x # xs) ! (n - i) = xs ! (n - (i + 1))" if "i + 1 \<le> n" for n and x :: fake_job and xs
    using that by (simp add: nth_Cons' Suc_diff_Suc)
  consider "limit \<le> p" | "\<not> limit \<le> p" "\<not> available_job j" | "\<not> limit \<le> p" "available_job j" "e \<noteq> None"
    | "\<not> limit \<le> p" "available_job j" "e = None" by blast
  then show ?case
  proof cases
    case 1
    then show ?thesis using Cons.prems by auto
  next
    case 2
    obtain r1 js1 ps1 where rest: "drain_loop hs limit p (i + 1) js = (r1, js1, ps1)"
      by (cases "drain_loop hs limit p (i + 1) js")
    have eq: "js' = j # js1" "ps = ps1" using Cons.prems 2 rest by auto
    show ?thesis using Cons.IH[OF rest] nth unfolding eq by (auto simp: nth_Cons')
  next
    case 3
    then have "js' = j1 # js" "ps = []" using Cons.prems one by auto
    then show ?thesis using 3 by (auto simp: nth_Cons')
  next
    case 4
    obtain r1 js1 ps1 where rest: "drain_loop hs limit (p + 1) (i + 1) js = (r1, js1, ps1)"
      by (cases "drain_loop hs limit (p + 1) (i + 1) js")
    have eq: "js' = j1 # js1" "ps = i # ps1" using Cons.prems 4 rest one by auto
    have "\<not> available_job j1" using perform_done[of hs "activate j"] one 4(3) by auto
    then show ?thesis using Cons.IH[OF rest] nth 4(2) unfolding eq by (auto simp: nth_Cons')
  qed
qed auto

lemma drain_loop_ok:
  assumes "tame_handlers hs" "\<forall>j \<in> set js. fj_state j \<in> fake_states"
    and "drain_loop hs limit p i js = (r, js', ps)"
  shows "map fj_id js' = map fj_id js \<and> (\<forall>j \<in> set js'. fj_state j \<in> fake_states)"
  using assms(2,3)
proof (induction js arbitrary: p i r js' ps)
  case (Cons j js)
  have "fj_state (activate j) \<in> fake_states" by (simp add: activate_def fake_states_def)
  then have "fj_id (snd (perform_job hs (activate j))) = fj_id j"
      "fj_state (snd (perform_job hs (activate j))) \<in> fake_states"
    using perform_tame[OF assms(1)] by (auto simp: activate_def)
  then show ?case using Cons by (auto split: if_splits prod.splits option.splits)
qed auto

lemma perf_ok_change:
  assumes "perf_ok st" "find_job i (fs_enqueued st) = Some n" "\<And>j. \<not> available_job (f j)"
  shows "perf_ok (change_job n f st)"
  using find_job_map(1)[OF assms(2)] assms(3)
  by (intro perf_ok_mono[OF assms(1)]) (auto simp: change_job_def nth_list_update split: if_splits)

lemma perf_ok_drain:
  assumes "perf_ok st"
  shows "perf_ok (snd (drain max_jobs st))"
proof -
  let ?limit = "if or_zero max_jobs \<noteq> 0 then the max_jobs else int (length (fs_enqueued st))"
  obtain r js ps where loop: "drain_loop (fs_handlers st) ?limit 0 0 (fs_enqueued st) = (r, js, ps)"
    by (cases "drain_loop (fs_handlers st) ?limit 0 0 (fs_enqueued st)")
  show ?thesis using assms drain_loop_perf[OF loop] loop
    by (auto simp: drain_def Let_def perf_ok_def strict_sorted_iff)
qed

lemma perf_ok_fetch: "perf_ok st \<Longrightarrow> perf_ok (snd (fake_fetch queues count st))"
  by (rule perf_ok_mono) (auto simp: fake_fetch_def fetch_loop_chosen activate_def split: if_splits)

lemma perf_ok_record: "perf_ok st \<Longrightarrow> perf_ok (snd (record_enqueue now t args q m p st))"
  by (rule perf_ok_mono) (auto simp: record_enqueue_def Let_def nth_append)

lemma perf_ok_plain: "perf_ok (clear_store st)" "perf_ok (register_handler t h st) = perf_ok st"
  by (simp_all add: perf_ok_def clear_store_def register_handler_def)

lemma perf_ok_step: "fstep ok st st' \<Longrightarrow> perf_ok st \<Longrightarrow> perf_ok st'"
proof (induction rule: fstep.induct)
  case (fs_cancel st i)
  then show ?case using perf_ok_change[of st i _ "\<lambda>j. j\<lparr>fj_state := ''cancelled''\<rparr>"]
    by (simp add: fake_cancel_def Let_def split: option.split)
next
  case (fs_settle st i x)
  have "\<not> available_job (settle_job x j)" for j by (cases x) (simp_all add: settle_job_def)
  then show ?case using fs_settle perf_ok_change[of st i _ "settle_job x"] by (simp add: fake_send split: option.split)
qed (simp_all add: fake_push_store perf_ok_drain perf_ok_fetch perf_ok_record perf_ok_plain)

lemma perf_ok_new: "perf_ok new_store"
  by (simp add: new_store_def perf_ok_def)

interpretation fake_performed: invariant_system "\<lambda>st. st = new_store" "fstep ok" perf_ok for ok
  by unfold_locales (auto simp: perf_ok_new dest: perf_ok_step)

text \<open>The ids and the states, with handlers that do not rename their jobs.\<close>

lemma fake_inv_drain:
  assumes "fake_inv st"
  shows "fake_inv (snd (drain max_jobs st))"
proof -
  let ?limit = "if or_zero max_jobs \<noteq> 0 then the max_jobs else int (length (fs_enqueued st))"
  obtain r js ps where loop: "drain_loop (fs_handlers st) ?limit 0 0 (fs_enqueued st) = (r, js, ps)"
    by (cases "drain_loop (fs_handlers st) ?limit 0 0 (fs_enqueued st)")
  have ok: "\<forall>j \<in> set (fs_enqueued st). fj_state j \<in> fake_states"
    and tame: "tame_handlers (fs_handlers st)" using assms by (auto simp: fake_inv_def store_ok_def)
  note facts = drain_loop_ok[OF tame ok loop]
  have "store_ok (st\<lparr>fs_enqueued := js\<rparr>)" using assms facts by (intro store_ok_update) (auto simp: fake_inv_def)
  then have "store_ok (st\<lparr>fs_enqueued := js, fs_performed := fs_performed st @ ps\<rparr>)" by (simp add: store_ok_def)
  then show ?thesis using tame loop by (simp add: drain_def Let_def fake_inv_def)
qed

lemma fake_inv_record: "fake_inv st \<Longrightarrow> fake_inv (snd (record_enqueue now t args q m p st))"
  using store_ok_record[of st now t args q m p] by (simp add: fake_inv_def record_enqueue_def Let_def)

lemma fake_inv_change:
  assumes "fake_inv st" "find_job i (fs_enqueued st) = Some n"
    and "\<And>j. fj_id (f j) = fj_id j \<and> fj_state (f j) \<in> fake_states"
  shows "fake_inv (change_job n f st)"
  using assms store_ok_change[OF _ assms(2), of f] by (auto simp: fake_inv_def change_job_def)

lemma set_update_insert: "set (AList.update k v al) \<subseteq> insert (k, v) (set al)"
  by (induction al) auto

lemma fake_inv_fetch: "fake_inv st \<Longrightarrow> fake_inv (snd (fake_fetch queues count st))"
  using store_ok_fetch[of st queues count] by (simp add: fake_inv_def fake_fetch_def split: prod.split)

lemma fake_inv_cancel: "fake_inv st \<Longrightarrow> fake_inv (snd (fake_cancel i st))"
  using fake_inv_change[of st i _ "\<lambda>j. j\<lparr>fj_state := ''cancelled''\<rparr>"]
  by (simp add: fake_cancel_def Let_def fake_states_def split: option.split)

lemma fake_inv_settle: "fake_inv st \<Longrightarrow> fake_inv (snd (send_outcome fake_ack_unit fake_nack_unit i x st))"
proof -
  have "fj_id (settle_job x j) = fj_id j \<and> fj_state (settle_job x j) \<in> fake_states" for j
    by (cases x) (simp_all add: settle_job_def fake_states_def)
  then show "fake_inv st \<Longrightarrow> ?thesis" using fake_inv_change[of st i _ "settle_job x"]
    by (simp add: fake_send split: option.split)
qed

lemma fake_inv_handler:
  assumes "fake_inv st" "tame h"
  shows "fake_inv (register_handler t h st)"
proof -
  have "tame_handlers (AList.update t h (fs_handlers st))"
    using assms set_update_insert[of t h "fs_handlers st"] unfolding fake_inv_def tame_handlers_def by auto
  then show ?thesis using assms(1) store_ok_register[of st t h]
    by (simp add: fake_inv_def register_handler_def)
qed

lemma fake_inv_clear: "fake_inv st \<Longrightarrow> fake_inv (clear_store st)"
  using store_ok_clear[of st] by (simp add: fake_inv_def clear_store_def)

lemma fake_inv_step: "fstep tame st st' \<Longrightarrow> fake_inv st \<Longrightarrow> fake_inv st'"
  by (induction rule: fstep.induct)
    (simp_all add: fake_push_store fake_inv_record fake_inv_fetch fake_inv_cancel fake_inv_settle fake_inv_drain
      fake_inv_handler fake_inv_clear)

lemma fake_inv_new: "fake_inv new_store"
  using store_ok_new by (simp add: fake_inv_def) (simp add: new_store_def tame_handlers_def)

interpretation fake_system: invariant_system "\<lambda>st. st = new_store" "fstep tame" fake_inv
  by unfold_locales (simp_all add: fake_inv_new fake_inv_step)

subsection \<open>Identities\<close>

lemma abs_None_iff: "fake_abs st i = None \<longleftrightarrow> i \<notin> set (map fj_id (fs_enqueued st))"
  by (auto simp: fake_abs_def map_of_eq_None_iff image_image)

lemma change_ids: "find_job i (fs_enqueued st) = Some n \<Longrightarrow> (\<And>j. fj_id (f j) = fj_id j) \<Longrightarrow>
    map fj_id (fs_enqueued (change_job n f st)) = map fj_id (fs_enqueued st)"
  using find_job_map(1)[of i "fs_enqueued st" n] by (simp add: change_job_def map_update list_update_same_conv)

lemma drain_ids:
  assumes "fake_inv st"
  shows "map fj_id (fs_enqueued (snd (drain m st))) = map fj_id (fs_enqueued st) \<and> fs_next_id (snd (drain m st)) = fs_next_id st"
proof -
  have ok: "\<forall>j \<in> set (fs_enqueued st). fj_state j \<in> fake_states"
    and tame: "tame_handlers (fs_handlers st)" using assms by (auto simp: fake_inv_def store_ok_def)
  show ?thesis using drain_loop_ok[OF tame ok] by (simp add: drain_def Let_def split: prod.split)
qed

text \<open>A step keeps the ids of the store, adds the next one, or forgets them all.\<close>

lemma step_ids:
  assumes "fstep tame st st'" "fake_inv st"
  shows "map fj_id (fs_enqueued st') = map fj_id (fs_enqueued st) \<and> fs_next_id st' = fs_next_id st
    \<or> map fj_id (fs_enqueued st') = map fj_id (fs_enqueued st) @ [fake_id (fs_next_id st + 1)]
        \<and> fs_next_id st' = fs_next_id st + 1
    \<or> fs_enqueued st' = [] \<and> fs_next_id st' = fs_next_id st"
  using assms
proof (induction rule: fstep.induct)
  case (fs_cancel st i)
  then show ?case using change_ids[of i st _ "\<lambda>j. j\<lparr>fj_state := ''cancelled''\<rparr>"]
    by (simp add: fake_cancel_def Let_def change_job_def split: option.split)
next
  case (fs_settle st i x)
  then show ?case using change_ids[of i st _ "settle_job x"]
    by (simp add: fake_send change_job_def split: option.split)
next
  case (fs_drain st m)
  then show ?case using drain_ids by simp
next
  case (fs_fetch st queues count)
  have "map fj_id (mark activate is js) = map fj_id js" for "is" js by (rule mark_ids) (simp add: activate_def)
  then show ?case by (simp add: fake_fetch_def fetch_loop_chosen)
qed (simp_all add: fake_push_store record_enqueue_def Let_def register_handler_def clear_store_def)

definition never_again :: "fake_store \<Rightarrow> fake_store \<Rightarrow> bool" where
  "never_again st st' \<longleftrightarrow> fs_next_id st \<le> fs_next_id st'
     \<and> (\<forall>n \<le> fs_next_id st. fake_abs st (fake_id n) = None \<longrightarrow> fake_abs st' (fake_id n) = None)"

lemma never_again_step:
  assumes "fstep tame st st'" "fake_inv st"
  shows "never_again st st'"
  using step_ids[OF assms] unfolding never_again_def abs_None_iff by (elim disjE) auto

lemma never_again_steps: "(fstep tame)\<^sup>*\<^sup>* st st' \<Longrightarrow> fake_inv st \<Longrightarrow> never_again st st' \<and> fake_inv st'"
proof (induction rule: rtranclp_induct)
  case base
  then show ?case by (simp add: never_again_def)
next
  case (step y z)
  then have "never_again y z" "fake_inv z" using never_again_step fake_inv_step by blast+
  then show ?case using step by (auto simp: never_again_def)
qed

text \<open>
  C28. The in-memory store stays well formed under every sequence of the transport's operations, drains and
  handler registrations.  Whatever the handlers do to their jobs: the performed jobs are distinct jobs of
  the store, and none of them is available.  If no handler that is registered renames its job (or leaves it
  in a state unknown to \<open>Job\<close> when a cancellation goes through it), also: the ids are distinct, every job
  has a state that \<open>Job\<close> accepts, so \<open>info\<close> cannot fail on it, and an id that was issued and is gone, after
  \<open>clear\<close>, is never issued again.
\<close>

theorem fake_store_invariant:
  assumes "reachable (\<lambda>st. st = new_store) (fstep ok) st" "(fstep ok)\<^sup>*\<^sup>* st st'"
  shows "distinct (fs_performed st)
    \<and> (\<forall>n \<in> set (fs_performed st). n < length (fs_enqueued st) \<and> fj_state (fs_enqueued st ! n) \<noteq> ''available'')
    \<and> ((\<forall>h. ok h \<longrightarrow> tame h) \<longrightarrow>
        distinct (map fj_id (fs_enqueued st))
        \<and> (\<forall>j \<in> set (fs_enqueued st). \<exists>s. fake_info (fj_id j) st = (Inr (job_of_fake s j), st) \<and> state_value s = fj_state j)
        \<and> (\<forall>n. n \<le> fs_next_id st \<and> fake_abs st (fake_id n) = None \<longrightarrow> fake_abs st' (fake_id n) = None))"
proof -
  have perf: "perf_ok st" using fake_performed.reachable_inv[OF assms(1)] .
  have "distinct (map fj_id (fs_enqueued st))
      \<and> (\<forall>j \<in> set (fs_enqueued st). \<exists>s. fake_info (fj_id j) st = (Inr (job_of_fake s j), st) \<and> state_value s = fj_state j)
      \<and> (\<forall>n. n \<le> fs_next_id st \<and> fake_abs st (fake_id n) = None \<longrightarrow> fake_abs st' (fake_id n) = None)"
    if tame: "\<forall>h. ok h \<longrightarrow> tame h"
  proof -
    have r: "reachable (\<lambda>st. st = new_store) (fstep tame) st" "(fstep tame)\<^sup>*\<^sup>* st st'"
      using freach_mono[OF assms(1)] fsteps_mono[OF assms(2)] tame by blast+
    have inv: "fake_inv st" using fake_system.reachable_inv[OF r(1)] .
    then have ok: "store_ok st" by (simp add: fake_inv_def)
    have "\<exists>s. fake_info (fj_id j) st = (Inr (job_of_fake s j), st) \<and> state_value s = fj_state j"
      if j: "j \<in> set (fs_enqueued st)" for j
    proof -
      have "fake_abs st (fj_id j) = Some j"
        using j store_ok_distinct[OF ok] by (simp add: fake_abs_def comp_def)
      then obtain n where "find_job (fj_id j) (fs_enqueued st) = Some n" "fs_enqueued st ! n = j" using abs_obtain by blast
      then show ?thesis using store_ok_view[OF ok j] by (auto simp: fake_info_def)
    qed
    then show ?thesis using store_ok_distinct[OF ok] never_again_steps[OF r(2) inv] by (simp add: never_again_def)
  qed
  then show ?thesis using perf by (simp add: perf_ok_def)
qed

text \<open>A handler that fails and puts its job back to available: the drain discards the job all the same.\<close>

definition stubborn_handler :: fake_handler where
  "stubborn_handler j = (Inl (ValueErr ''no''), j\<lparr>fj_state := ''available''\<rparr>)"

definition drained_store :: fake_store where
  "drained_store = snd (drain None (register_handler ''t'' stubborn_handler
     (snd (record_enqueue ''now'' ''t'' [] ''q'' None None new_store))))"

lemma drained_store_fields:
  "fs_performed drained_store = [0]" "fs_next_id drained_store = 1"
  by (simp_all add: drained_store_def drain_def register_handler_def record_enqueue_def new_store_def Let_def
      perform_job_def activate_def stubborn_handler_def or_zero_def)

theorem fake_store_invariant_witness:
  "fj_state (fs_enqueued drained_store ! 0) \<noteq> ''available''
   \<and> fake_abs (snd (record_enqueue ''now'' ''t'' [] ''q'' None None (clear_store drained_store))) (fake_id 1) = None"
proof -
  have tame: "\<forall>h. (h = stubborn_handler) \<longrightarrow> tame h" by (simp add: tame_def stubborn_handler_def)
  have d: "reachable (\<lambda>st. st = new_store) (fstep (\<lambda>h. h = stubborn_handler)) drained_store"
    unfolding drained_store_def
    by (rule reach_step, rule reach_step, rule reach_step, rule reach_start, rule refl, rule fs_record,
        rule fs_handler, rule refl, rule fs_drain)
  then have c: "reachable (\<lambda>st. st = new_store) (fstep (\<lambda>h. h = stubborn_handler)) (clear_store drained_store)"
    by (rule reach_step) (rule fs_clear)
  have s: "(fstep (\<lambda>h. h = stubborn_handler))\<^sup>*\<^sup>* (clear_store drained_store)
      (snd (record_enqueue ''now'' ''t'' [] ''q'' None None (clear_store drained_store)))"
    by (intro r_into_rtranclp fs_record)
  have "\<forall>n \<in> set (fs_performed drained_store). fj_state (fs_enqueued drained_store ! n) \<noteq> ''available''"
    using fake_store_invariant[OF d rtranclp.rtrancl_refl] by blast
  moreover have "\<forall>n. n \<le> fs_next_id (clear_store drained_store) \<and> fake_abs (clear_store drained_store) (fake_id n) = None
      \<longrightarrow> fake_abs (snd (record_enqueue ''now'' ''t'' [] ''q'' None None (clear_store drained_store))) (fake_id n) = None"
    using fake_store_invariant[OF c s] tame by blast
  moreover have "1 \<le> fs_next_id (clear_store drained_store)" "fake_abs (clear_store drained_store) (fake_id 1) = None"
    by (simp_all add: clear_store_def fake_abs_def drained_store_fields)
  ultimately show ?thesis by (simp add: drained_store_fields)
qed

subsection \<open>The worker on the in-memory transport\<close>

lemma report_io_first:
  "send_outcome ack nack j x w = (Inr (), w') \<Longrightarrow> report_io ack nack slp j x w = (Inr (), w')"
  by (simp add: report_io_def report_def new_reporter_def deliver_def numeral_3_eq_3 Let_def)

lemma report_io_missing:
  "fake_abs st i = None \<Longrightarrow> report_io fake_ack_unit fake_nack_unit slp i x st = (Inl (KeyErr i), st)"
  by (simp add: report_io_def report_def new_reporter_def deliver_def numeral_3_eq_3 Let_def fake_send_missing
      retryable_delivery_def)

text \<open>The outcome of an execution delivered to the store, whether the job is there or not.\<close>

lemma report_io_fake:
  "case fake_abs st i of
     None \<Rightarrow> report_io fake_ack_unit fake_nack_unit slp i x st = (Inl (KeyErr i), st)
   | Some fj \<Rightarrow> (\<exists>st2. report_io fake_ack_unit fake_nack_unit slp i x st = (Inr (), st2)
       \<and> fake_abs st2 = (fake_abs st)(i \<mapsto> settle_job x fj))"
proof (cases "fake_abs st i")
  case None
  then show ?thesis by (simp add: report_io_missing)
next
  case (Some fj)
  then show ?thesis using fake_send_abs[OF Some, of x] report_io_first[of _ _ i x st _ slp] by fastforce
qed

lemma settle_failure:
  "\<exists>error. settle_job (failure c m b) fj
      = fj\<lparr>fj_errors := fj_errors fj @ [error], fj_state := (if b then ''retryable'' else ''discarded'')\<rparr>
    \<and> dget error ''code'' = Some (PStr c)"
  by (intro exI[of _ "[(PStr ''code'', PStr c), (PStr ''message'', PStr m), (PStr ''retryable'', PBool b)]"])
    (simp add: settle_job_def failure_def dget_default_def)

lemma process_job_reports:
  "map_of handlers (j_type j) = Some hdl \<Longrightarrow> execution_execute mws (handler_context j) hdl st = (r, st1) \<Longrightarrow>
    process_job handlers mws ack nack slp str_of j st
      = (case report_io ack nack slp (j_id j) (expected_outcome str_of r) st1 of (y, st2) \<Rightarrow>
          (case y of
             Inl e \<Rightarrow> if r = Inl CancelledErr \<or> \<not> is_exception e then Inl e else Inr ()
           | Inr _ \<Rightarrow> if r = Inl CancelledErr then Inl CancelledErr else Inr (), st2))"
  by (auto simp: process_job_def expected_outcome_def bindIO_def catchIO_def raiseIO_def retIO_def
      split: prod.splits sum.splits)

text \<open>
  C12. The worker and the in-memory transport together, on every branch, whatever the handler and the
  middleware do to the store.  A job of an unknown type never runs and is discarded with the error
  appended.  Otherwise the chain runs, and if the job is still in the store when it ends, the store is then
  the one the chain left with exactly that job settled: completed with the handler's result, or retryable
  with the error appended (also when it was cancelled, and then \<open>CancelledError\<close> goes on).  If the job is
  no longer there (a handler that clears the store), the store is left as it is: the \<open>KeyError\<close> of the
  delivery is logged, except after a cancellation or for an unknown type, where it is raised.
\<close>

theorem worker_settles_fake_job:
  "case map_of handlers (j_type j) of
     None \<Rightarrow> (case fake_abs st (j_id j) of
         None \<Rightarrow> process_job handlers mws fake_ack_unit fake_nack_unit slp str_of j st = (Inl (KeyErr (j_id j)), st)
       | Some fj \<Rightarrow> (\<exists>st2 error. process_job handlers mws fake_ack_unit fake_nack_unit slp str_of j st = (Inr (), st2)
           \<and> fake_abs st2 = (fake_abs st)(j_id j \<mapsto> fj\<lparr>fj_errors := fj_errors fj @ [error], fj_state := ''discarded''\<rparr>)
           \<and> dget error ''code'' = Some (PStr ''unknown_job_type'')))
   | Some hdl \<Rightarrow> (case execution_execute mws (handler_context j) hdl st of (r, st1) \<Rightarrow> (case fake_abs st1 (j_id j) of
         None \<Rightarrow> process_job handlers mws fake_ack_unit fake_nack_unit slp str_of j st
             = (if r = Inl CancelledErr then Inl (KeyErr (j_id j)) else Inr (), st1)
       | Some fj \<Rightarrow> (\<exists>st2. process_job handlers mws fake_ack_unit fake_nack_unit slp str_of j st
             = (if r = Inl CancelledErr then Inl CancelledErr else Inr (), st2)
           \<and> (case r of
               Inr v \<Rightarrow> fake_abs st2 = (fake_abs st1)(j_id j \<mapsto> fj\<lparr>fj_state := ''completed'', fj_result := v\<rparr>)
             | Inl e \<Rightarrow> (\<exists>error. fake_abs st2 = (fake_abs st1)(j_id j \<mapsto>
                     fj\<lparr>fj_errors := fj_errors fj @ [error], fj_state := ''retryable''\<rparr>)
                 \<and> dget error ''code'' = Some (PStr (if e = CancelledErr then ''cancelled'' else ''handler_error'')))))))"
proof (cases "map_of handlers (j_type j)")
  case None
  let ?x = "failure ''unknown_job_type'' (''No handler registered for job type: '' @ j_type j) False"
  have process: "process_job handlers mws fake_ack_unit fake_nack_unit slp str_of j st
      = report_io fake_ack_unit fake_nack_unit slp (j_id j) ?x st" using None by (simp add: process_job_def)
  show ?thesis
  proof (cases "fake_abs st (j_id j)")
    case fj: None
    then show ?thesis using None report_io_missing[OF fj, where slp = slp and x = ?x] by (simp add: process)
  next
    case (Some fj)
    obtain st2 where st2: "report_io fake_ack_unit fake_nack_unit slp (j_id j) ?x st = (Inr (), st2)"
        "fake_abs st2 = (fake_abs st)(j_id j \<mapsto> settle_job ?x fj)"
      using report_io_fake[where st = st and i = "j_id j" and slp = slp and x = ?x] Some by auto
    obtain error where "settle_job ?x fj = fj\<lparr>fj_errors := fj_errors fj @ [error], fj_state := ''discarded''\<rparr>"
        "dget error ''code'' = Some (PStr ''unknown_job_type'')"
      using settle_failure[of _ _ False fj] by (metis (full_types))
    then show ?thesis using None Some st2 unfolding process by auto
  qed
next
  case (Some hdl)
  obtain r st1 where run: "execution_execute mws (handler_context j) hdl st = (r, st1)" by fastforce
  note process = process_job_reports[OF Some run, of fake_ack_unit fake_nack_unit slp str_of]
  show ?thesis
  proof (cases "fake_abs st1 (j_id j)")
    case None
    then show ?thesis using report_io_missing[OF None, where slp = slp] Some run by (simp add: process)
  next
    case fj: (Some fj)
    obtain st2 where st2: "report_io fake_ack_unit fake_nack_unit slp (j_id j) (expected_outcome str_of r) st1 = (Inr (), st2)"
        "fake_abs st2 = (fake_abs st1)(j_id j \<mapsto> settle_job (expected_outcome str_of r) fj)"
      using report_io_fake[where st = st1 and i = "j_id j" and slp = slp and x = "expected_outcome str_of r"] fj by auto
    have "case r of
        Inr v \<Rightarrow> settle_job (expected_outcome str_of r) fj = fj\<lparr>fj_state := ''completed'', fj_result := v\<rparr>
      | Inl e \<Rightarrow> (\<exists>error. settle_job (expected_outcome str_of r) fj = fj\<lparr>fj_errors := fj_errors fj @ [error], fj_state := ''retryable''\<rparr>
          \<and> dget error ''code'' = Some (PStr (if e = CancelledErr then ''cancelled'' else ''handler_error'')))"
      using settle_failure[of _ _ True fj]
      by (auto simp: expected_outcome_def settle_job_def[of "Completed_outcome _"] split: sum.split)
    then show ?thesis using st2 Some run fj by (auto simp: process split: sum.splits)
  qed
qed

text \<open>One job, recorded and run.\<close>

theorem worker_settles_fake_job_witness:
  "\<exists>st2 fj. process_job [(''t'', \<lambda>c. retIO (PInt 1))] [] fake_ack_unit fake_nack_unit (\<lambda>d. retIO ()) (\<lambda>e. [])
       (job_of_fake Active (fst (record_enqueue ''now'' ''t'' [] ''q'' None None new_store)))
       (snd (record_enqueue ''now'' ''t'' [] ''q'' None None new_store)) = (Inr (), st2)
     \<and> fake_abs st2 (fake_id 1) = Some fj \<and> fj_state fj = ''completed''"
proof -
  let ?r = "record_enqueue ''now'' ''t'' [] ''q'' None None new_store"
  let ?j = "job_of_fake Active (fst ?r)"
  have j: "j_type ?j = ''t''" "j_id ?j = fake_id 1"
    by (simp_all add: job_of_fake_def record_enqueue_def new_store_def Let_def)
  have "fake_abs (snd ?r) (j_id ?j) = Some (fst ?r)"
    unfolding j(2) by (simp add: fake_abs_def record_enqueue_def new_store_def Let_def)
  then show ?thesis
    using worker_settles_fake_job[where handlers = "[(''t'', \<lambda>c. retIO (PInt 1))]" and j = ?j and st = "snd ?r"
        and mws = "[]" and slp = "\<lambda>d. retIO ()" and str_of = "\<lambda>e. []"] j
    by (auto simp: retIO_def)
qed

end
