(* ===== verification/Grpc_Errors.thy ===== *)
theory Grpc_Errors
  imports Errors
begin

section \<open>gRPC: statuses as SDK exceptions\<close>

text \<open>
  \<open>src/ojs/transport/grpc/rpc_error_mapper.py\<close>.  A failed call has a status code, a message and, when the
  server sends it, a serialized \<open>google.rpc.Status\<close> in its trailing metadata.  Parsing that trailer is the
  protobuf library's: \<open>ge_parse\<close>, \<open>None\<close> when it raises or the library is not installed; \<open>ge_float_str\<close> is
  \<open>str\<close> of a float.
\<close>

subsection \<open>Status codes\<close>

datatype grpc_code = G_OK | G_CANCELLED | G_UNKNOWN | G_INVALID_ARGUMENT | G_DEADLINE_EXCEEDED | G_NOT_FOUND
  | G_ALREADY_EXISTS | G_PERMISSION_DENIED | G_RESOURCE_EXHAUSTED | G_FAILED_PRECONDITION | G_ABORTED
  | G_OUT_OF_RANGE | G_UNIMPLEMENTED | G_INTERNAL | G_UNAVAILABLE | G_DATA_LOSS | G_UNAUTHENTICATED

definition grpc_code_to_ojs_code :: "grpc_code \<Rightarrow> string" where
  "grpc_code_to_ojs_code c = (case map_of
     [(G_INVALID_ARGUMENT, ''invalid_request''), (G_NOT_FOUND, ''not_found''), (G_ALREADY_EXISTS, ''duplicate''),
      (G_FAILED_PRECONDITION, ''invalid_state_transition''), (G_RESOURCE_EXHAUSTED, ''rate_limited''),
      (G_UNAVAILABLE, ''connection_error''), (G_DEADLINE_EXCEEDED, ''timeout''),
      (G_PERMISSION_DENIED, ''permission_denied''), (G_UNAUTHENTICATED, ''unauthenticated''),
      (G_UNIMPLEMENTED, ''unimplemented''), (G_INTERNAL, ''internal'')] c of Some s \<Rightarrow> s | None \<Rightarrow> ''unknown'')"

definition grpc_code_to_http_status :: "grpc_code \<Rightarrow> int" where
  "grpc_code_to_http_status c = (case map_of
     [(G_OK, 200), (G_INVALID_ARGUMENT, 400), (G_NOT_FOUND, 404), (G_ALREADY_EXISTS, 409),
      (G_FAILED_PRECONDITION, 422), (G_RESOURCE_EXHAUSTED, 429), (G_PERMISSION_DENIED, 403),
      (G_UNAUTHENTICATED, 401), (G_UNAVAILABLE, 503), (G_DEADLINE_EXCEEDED, 504),
      (G_UNIMPLEMENTED, 501), (G_INTERNAL, 500)] c of Some s \<Rightarrow> s | None \<Rightarrow> 500)"

subsection \<open>Structured errors\<close>

datatype status_detail =
    Error_info string string "(string \<times> string) list"
  | Retry_info int int
  | Bad_request "(string \<times> string) list"
  | Other_detail

record rpc_status =
  st_message :: string
  st_details :: "status_detail list"

record rpc_error =
  rpc_code :: grpc_code
  rpc_details :: "string option"
  rpc_str :: string
  rpc_trailer :: "(string \<times> pyval) list option"

record grpc_env =
  ge_parse :: "nat list \<Rightarrow> rpc_status option"
  ge_float_str :: "rat \<Rightarrow> string"
  ge_http_date :: "string \<Rightarrow> pydatetime option"
  ge_now :: pydatetime

fun serialized_status :: "(string \<times> pyval) list \<Rightarrow> nat list option" where
  "serialized_status [] = None"
| "serialized_status ((k, v) # m) =
     (case v of PBytes b \<Rightarrow> if k = ''grpc-status-details-bin'' then Some b else serialized_status m
      | _ \<Rightarrow> serialized_status m)"

text \<open>The loop over the details: the last error info of the domain, the last retry info, every violation.\<close>

definition violation :: "string \<times> string \<Rightarrow> pyval" where
  "violation v = PDict [(PStr ''field'', PStr (fst v)), (PStr ''description'', PStr (snd v))]"

fun scan_details :: "status_detail list \<Rightarrow> (string \<times> (string \<times> string) list) option \<Rightarrow> (int \<times> int) option \<Rightarrow> pyval list
    \<Rightarrow> (string \<times> (string \<times> string) list) option \<times> (int \<times> int) option \<times> pyval list" where
  "scan_details [] info retry vs = (info, retry, vs)"
| "scan_details (Error_info domain reason metadata # ds) info retry vs =
     scan_details ds (if domain = ''openjobspec.org'' then Some (reason, metadata) else info) retry vs"
| "scan_details (Retry_info s n # ds) info retry vs = scan_details ds info (Some (s, n)) vs"
| "scan_details (Bad_request bad # ds) info retry vs = scan_details ds info retry (vs @ map violation bad)"
| "scan_details (Other_detail # ds) info retry vs = scan_details ds info retry vs"

definition rpc_message :: "rpc_error \<Rightarrow> string" where
  "rpc_message err = (case rpc_details err of Some m \<Rightarrow> if m = [] then rpc_str err else m | None \<Rightarrow> rpc_str err)"

definition structured_body :: "rpc_error \<Rightarrow> rpc_status \<Rightarrow> string \<Rightarrow> (string \<times> string) list \<Rightarrow> pyval list \<Rightarrow> pydict" where
  "structured_body err status reason metadata vs =
     [(PStr ''error'', PDict
        [(PStr ''code'', PStr (remove_prefix reason ''OJS_'')),
         (PStr ''message'', PStr (if st_message status \<noteq> [] then st_message status else rpc_message err)),
         (PStr ''retryable'', PBool (str_lower (case map_of metadata ''retryable'' of Some r \<Rightarrow> r | None \<Rightarrow> ''false'') = ''true'')),
         (PStr ''request_id'', opt_str (map_of metadata ''request_id'')),
         (PStr ''details'', PDict
            (let details = map (\<lambda>(k, v). (PStr k, PStr v)) (filter (\<lambda>(k, _). k \<notin> {''request_id'', ''retryable''}) metadata)
             in if vs = [] then details else dset details ''field_violations'' (PList vs)))])]"

definition structured_error :: "grpc_env \<Rightarrow> rpc_error \<Rightarrow> int \<Rightarrow> exn option" where
  "structured_error env err status_code =
     (case rpc_trailer err of None \<Rightarrow> None
      | Some m \<Rightarrow> (case serialized_status m of None \<Rightarrow> None
        | Some b \<Rightarrow> (case ge_parse env b of None \<Rightarrow> None
          | Some status \<Rightarrow> (case scan_details (st_details status) None None [] of (info, retry, vs) \<Rightarrow>
              (case info of None \<Rightarrow> None
               | Some (reason, metadata) \<Rightarrow> Some (map_error_response (ge_http_date env) (ge_now env) status_code
                   (structured_body err status reason metadata vs)
                   (case retry of None \<Rightarrow> []
                    | Some (s, n) \<Rightarrow> [(''retry-after'', ge_float_str env (of_int s + of_int n / 1000000000))])))))))"

definition map_grpc_error :: "grpc_env \<Rightarrow> rpc_error \<Rightarrow> exn" where
  "map_grpc_error env err =
     (let code = rpc_code err; message = rpc_message err; status_code = grpc_code_to_http_status code in
      case structured_error env err status_code of
        Some e \<Rightarrow> e
      | None \<Rightarrow>
         (let detail = \<lparr>ed_code = grpc_code_to_ojs_code code, ed_message = message,
                ed_retryable = code \<in> {G_UNAVAILABLE, G_DEADLINE_EXCEEDED, G_RESOURCE_EXHAUSTED, G_INTERNAL},
                ed_details = [], ed_request_id = None\<rparr> in
          if code = G_INVALID_ARGUMENT then APIErr PlainAPI status_code detail
          else if code = G_NOT_FOUND then APIErr JobNotFound status_code detail
          else if code = G_ALREADY_EXISTS then APIErr DuplicateJob status_code detail
          else if code = G_RESOURCE_EXHAUSTED then APIErr (RateLimited None None) status_code detail
          else if code = G_UNAVAILABLE then ConnectionErr (''gRPC server unavailable: '' @ message)
          else if code = G_DEADLINE_EXCEEDED then OJSTimeoutErr (''gRPC deadline exceeded: '' @ message)
          else APIErr PlainAPI status_code detail))"

subsection \<open>What is mapped\<close>

text \<open>
  Without a usable structured status, the exception depends on the code alone: always an SDK error,
  a connection error exactly when the server is unavailable, a timeout exactly when the deadline passed,
  and otherwise an API error with the status and the code of the tables, retryable exactly for an
  exhausted resource and an internal error.
\<close>

theorem grpc_error_mapping:
  assumes "structured_error env err (grpc_code_to_http_status (rpc_code err)) = None"
  shows "is_ojs_error (map_grpc_error env err)
    \<and> (is_connection_error (map_grpc_error env err) \<longleftrightarrow> rpc_code err = G_UNAVAILABLE)
    \<and> (is_timeout_error (map_grpc_error env err) \<longleftrightarrow> rpc_code err = G_DEADLINE_EXCEEDED)
    \<and> (is_job_not_found (map_grpc_error env err) \<longleftrightarrow> rpc_code err = G_NOT_FOUND)
    \<and> (case map_grpc_error env err of
         APIErr c st d \<Rightarrow> st = grpc_code_to_http_status (rpc_code err) \<and> ed_code d = grpc_code_to_ojs_code (rpc_code err)
           \<and> ed_message d = rpc_message err
           \<and> (ed_retryable d \<longleftrightarrow> rpc_code err = G_RESOURCE_EXHAUSTED \<or> rpc_code err = G_INTERNAL)
       | _ \<Rightarrow> rpc_code err = G_UNAVAILABLE \<or> rpc_code err = G_DEADLINE_EXCEEDED)"
  using assms by (cases "rpc_code err") (simp_all add: map_grpc_error_def Let_def)

definition grpc_sample_env :: "rpc_status option \<Rightarrow> grpc_env" where
  "grpc_sample_env st = \<lparr>ge_parse = (\<lambda>_. st), ge_float_str = (\<lambda>_. ''1.5''), ge_http_date = (\<lambda>_. None), ge_now = NaiveDT 0\<rparr>"

definition grpc_sample_error :: "grpc_code \<Rightarrow> rpc_error" where
  "grpc_sample_error c = \<lparr>rpc_code = c, rpc_details = Some ''down'', rpc_str = [],
     rpc_trailer = Some [(''x'', PStr ''y''), (''grpc-status-details-bin'', PBytes [1])]\<rparr>"

theorem grpc_error_mapping_witness:
  "is_connection_error (map_grpc_error (grpc_sample_env None) (grpc_sample_error G_UNAVAILABLE))"
  using grpc_error_mapping[of "grpc_sample_env None" "grpc_sample_error G_UNAVAILABLE"]
  by (simp add: grpc_sample_env_def grpc_sample_error_def structured_error_def)

lemma structured_result:
  assumes "rpc_trailer err = Some m" "serialized_status m = Some b" "ge_parse env b = Some status"
    and "scan_details (st_details status) None None [] = (Some (reason, metadata), retry, vs)"
  shows "\<exists>hs. map_grpc_error env err = map_error_response (ge_http_date env) (ge_now env)
     (grpc_code_to_http_status (rpc_code err)) (structured_body err status reason metadata vs) hs"
  using assms by (auto simp: map_grpc_error_def structured_error_def Let_def split: option.splits)

lemma map_error_response_detail:
  assumes "dget body ''error'' = Some (PDict err)"
  shows "\<exists>c d. map_error_response hd' now status body hs = APIErr c status d
     \<and> ed_code d = string_or (dget err ''code'') ''unknown''
     \<and> ed_retryable d = (case dget err ''retryable'' of Some (PBool b) \<Rightarrow> b
          | _ \<Rightarrow> (case catalog_entry (string_or (dget err ''code'') ''unknown'') of Some e \<Rightarrow> ec_retryable e | None \<Rightarrow> False))"
  using assms by (simp add: map_error_response_def error_payload_def Let_def)

text \<open>
  A structured error that does not say whether it may be retried is never retryable, whatever the
  catalog says of its code; an HTTP response with the same code and no such field has the catalog's answer.
\<close>

theorem grpc_retryable_default_lost:
  assumes "rpc_trailer err = Some m" "serialized_status m = Some b" "ge_parse env b = Some status"
    and "scan_details (st_details status) None None [] = (Some (''OJS_'' @ ec_canonical e, metadata), retry, vs)"
    and "map_of metadata ''retryable'' = None"
    and "e \<in> set ALL_ERROR_CODES" "ec_canonical e \<noteq> []" "ec_retryable e"
  shows "(\<exists>c d. map_grpc_error env err = APIErr c (grpc_code_to_http_status (rpc_code err)) d
      \<and> ed_code d = ec_canonical e \<and> \<not> ed_retryable d)
    \<and> (\<exists>c d. map_error_response hd' now status' [(PStr ''error'', PDict [(PStr ''code'', PStr (ec_canonical e))])] hs
         = APIErr c status' d \<and> ed_code d = ec_canonical e \<and> ed_retryable d)"
proof
  obtain hs' where hs': "map_grpc_error env err = map_error_response (ge_http_date env) (ge_now env)
     (grpc_code_to_http_status (rpc_code err)) (structured_body err status (''OJS_'' @ ec_canonical e) metadata vs) hs'"
    using structured_result[OF assms(1-4)] by blast
  obtain p where p: "dget (structured_body err status (''OJS_'' @ ec_canonical e) metadata vs) ''error'' = Some (PDict p)"
    "dget p ''code'' = Some (PStr (ec_canonical e))" "dget p ''retryable'' = Some (PBool False)"
    using assms(5) by (simp add: structured_body_def remove_prefix_append[of "''OJS_''", simplified] str_lower_def chr_lower_def)
  have code: "string_or (dget p ''code'') ''unknown'' = ec_canonical e" using p(2) assms(7) by (simp add: string_or_def)
  show "\<exists>c d. map_grpc_error env err = APIErr c (grpc_code_to_http_status (rpc_code err)) d
      \<and> ed_code d = ec_canonical e \<and> \<not> ed_retryable d"
    using map_error_response_detail[OF p(1), of "ge_http_date env" "ge_now env" "grpc_code_to_http_status (rpc_code err)" hs']
    unfolding hs' code p(3) by auto
next
  have "catalog_entry (ec_canonical e) = Some e" using assms(6,7) by (rule catalog_entry_canonical)
  then show "\<exists>c d. map_error_response hd' now status' [(PStr ''error'', PDict [(PStr ''code'', PStr (ec_canonical e))])] hs
         = APIErr c status' d \<and> ed_code d = ec_canonical e \<and> ed_retryable d"
    using map_error_response_detail[of "[(PStr ''error'', PDict [(PStr ''code'', PStr (ec_canonical e))])]"
        "[(PStr ''code'', PStr (ec_canonical e))]" hd' now status' hs] assms(7,8)
    by (auto simp: string_or_def)
qed

definition backend_status :: rpc_status where
  "backend_status = \<lparr>st_message = ''later'', st_details = [Error_info ''openjobspec.org'' ''OJS_RATE_LIMITED'' []]\<rparr>"

theorem grpc_retryable_default_lost_witness:
  "\<exists>c d. map_grpc_error (grpc_sample_env (Some backend_status)) (grpc_sample_error G_RESOURCE_EXHAUSTED) = APIErr c 429 d
      \<and> ed_code d = ''RATE_LIMITED'' \<and> \<not> ed_retryable d"
proof -
  have "list_ex (\<lambda>e. ec_canonical e = ''RATE_LIMITED'' \<and> ec_retryable e) ALL_ERROR_CODES" by code_simp
  then obtain e where e: "e \<in> set ALL_ERROR_CODES" "ec_canonical e = ''RATE_LIMITED''" "ec_retryable e"
    by (auto simp: list_ex_iff)
  show ?thesis
    using grpc_retryable_default_lost[of "grpc_sample_error G_RESOURCE_EXHAUSTED"
        "[(''x'', PStr ''y''), (''grpc-status-details-bin'', PBytes [1])]" "[1]" "grpc_sample_env (Some backend_status)"
        backend_status e "[]" None "[]"] e
    by (simp add: grpc_sample_env_def grpc_sample_error_def backend_status_def grpc_code_to_http_status_def)
qed

end
