(* ===== verification/Grpc_Time.thy ===== *)
theory Grpc_Time
  imports Retry
begin

section \<open>gRPC: ISO durations, protobuf durations and milliseconds\<close>

text \<open>
  \<open>src/ojs/transport/grpc/protobuf_time.py\<close>.  A \<open>decimal.Decimal\<close> is a sign, a coefficient and a
  number of fraction digits, computed exactly: the 28 significant digits of Python's default context
  bound the model.  \<open>format(x.normalize(), 'f')\<close> depends on the value only, so rendering first removes
  trailing zeros of the fraction.  A time to live is exact below \<open>10 ^ 15\<close> microseconds, where the float
  of \<open>total_seconds\<close> prints all its digits.
\<close>

subsection \<open>Decimals\<close>

record decimal =
  dc_coeff :: int
  dc_scale :: nat

definition dec_value :: "decimal \<Rightarrow> rat" where
  "dec_value d = of_int (dc_coeff d) / 10 ^ dc_scale d"

definition dec_add :: "decimal \<Rightarrow> decimal \<Rightarrow> decimal" where
  "dec_add a b = \<lparr>dc_coeff = dc_coeff a * 10 ^ dc_scale b + dc_coeff b * 10 ^ dc_scale a,
     dc_scale = dc_scale a + dc_scale b\<rparr>"

definition dec_int :: "int \<Rightarrow> decimal" where
  "dec_int i = \<lparr>dc_coeff = i, dc_scale = 0\<rparr>"

fun dec_norm :: "nat \<Rightarrow> nat \<Rightarrow> nat \<times> nat" where
  "dec_norm n 0 = (n, 0)"
| "dec_norm n (Suc k) = (if n mod 10 = 0 then dec_norm (n div 10) k else (n, Suc k))"

text \<open>The fraction digits: the last \<open>k\<close> digits of \<open>n\<close>, with leading zeros.\<close>

fun low_digits :: "nat \<Rightarrow> nat \<Rightarrow> string" where
  "low_digits 0 n = []"
| "low_digits (Suc k) n = low_digits k (n div 10) @ [digit_char (n mod 10)]"

definition dec_format :: "decimal \<Rightarrow> string" where
  "dec_format d = (case dec_norm (nat \<bar>dc_coeff d\<bar>) (dc_scale d) of (n, k) \<Rightarrow>
     (if dc_coeff d < 0 then ''-'' else []) @ string_of_nat (n div 10 ^ k)
       @ (if k = 0 then [] else CHR ''.'' # low_digits k n))"

subsection \<open>Conversions\<close>

definition decimal_duration :: "decimal \<Rightarrow> string" where
  "decimal_duration d = dec_format d @ ''s''"

definition milliseconds_to_duration :: "int \<Rightarrow> exn + string" where
  "milliseconds_to_duration ms =
     (if ms < 0 then Inl (ValueErr ''duration milliseconds must be non-negative'')
      else Inr (decimal_duration \<lparr>dc_coeff = ms, dc_scale = 3\<rparr>))"

text \<open>\<open>_PROTO_DURATION.fullmatch\<close>: the sign, the whole digits and the fraction digits of a match.\<close>

definition proto_groups :: "string \<Rightarrow> (bool \<times> string \<times> string) option" where
  "proto_groups s = (let neg = (s \<noteq> [] \<and> hd s = CHR ''-''); t = (if neg then tl s else s);
       ds = takeWhile is_digit t; r = dropWhile is_digit t in
     if ds = [] then None
     else if r = ''s'' then Some (neg, ds, [])
     else if r \<noteq> [] \<and> hd r = CHR ''.'' then
       (let fs = takeWhile is_digit (tl r) in
        if fs \<noteq> [] \<and> length fs \<le> 9 \<and> dropWhile is_digit (tl r) = ''s'' then Some (neg, ds, fs) else None)
     else None)"

definition dec_of_digits :: "string \<Rightarrow> string \<Rightarrow> decimal" where
  "dec_of_digits ds fs = \<lparr>dc_coeff = int (nat_of_digits (ds @ fs)), dc_scale = length fs\<rparr>"

text \<open>\<open>int(x)\<close> of a decimal truncates towards zero.\<close>

definition dec_trunc :: "decimal \<Rightarrow> int" where
  "dec_trunc d = sgn (dc_coeff d) * (\<bar>dc_coeff d\<bar> div 10 ^ dc_scale d)"

definition duration_to_milliseconds :: "string \<Rightarrow> exn + int" where
  "duration_to_milliseconds s = (case proto_groups s of
     None \<Rightarrow> Inl (ValueErr (''invalid protobuf duration: '' @ repr_str s))
   | Some (neg, ds, fs) \<Rightarrow>
       (let seconds = dec_int (if neg then - int (nat_of_digits ds) else int (nat_of_digits ds));
            total = dec_add seconds (dec_of_digits [] fs) in
        Inr (dec_trunc (total\<lparr>dc_coeff := dc_coeff total * 1000\<rparr>))))"

definition dec_seconds :: "(string \<times> string) option \<Rightarrow> decimal" where
  "dec_seconds x = (case x of None \<Rightarrow> dec_int 0 | Some (ds, fs) \<Rightarrow> dec_of_digits ds fs)"

definition iso_duration_to_protobuf :: "string \<Rightarrow> exn + string" where
  "iso_duration_to_protobuf s = (case iso_groups s of
     Some ((d, h, m, x), []) \<Rightarrow> Inr (decimal_duration
       (dec_add (dec_int (int (digits_or_0 d) * 86400 + int (digits_or_0 h) * 3600 + int (digits_or_0 m) * 60))
          (dec_seconds x)))
   | _ \<Rightarrow> Inl (ValueErr (''invalid ISO 8601 duration: '' @ repr_str s)))"

definition protobuf_duration_to_iso :: "string \<Rightarrow> exn + string" where
  "protobuf_duration_to_iso s = bindR (duration_to_milliseconds s) (\<lambda>ms.
     Inr (''PT'' @ (if ms mod 1000 = 0 then string_of_int (ms div 1000)
                   else dec_format \<lparr>dc_coeff = ms, dc_scale = 3\<rparr>) @ ''S''))"

definition expiry_to_ttl :: "(string \<Rightarrow> pydatetime option) \<Rightarrow> pydatetime \<Rightarrow> string \<Rightarrow> exn + string" where
  "expiry_to_ttl isop now expires_at = (case isop (normalize_iso expires_at) of
     None \<Rightarrow> Inl (ValueErr (''Invalid isoformat string: '' @ repr_str (normalize_iso expires_at)))
   | Some expiry \<Rightarrow> Inr (decimal_duration
       \<lparr>dc_coeff = max 0 (utc_micros expiry - utc_micros now), dc_scale = 6\<rparr>))"

subsection \<open>Digits\<close>

lemma dec_norm_spec:
  assumes "dec_norm n k = (m, j)"
  shows "j \<le> k \<and> n = m * 10 ^ (k - j)"
  using assms
proof (induction k arbitrary: n)
  case (Suc k)
  show ?case
  proof (cases "n mod 10 = 0")
    case True
    then have "dec_norm (n div 10) k = (m, j)" using Suc.prems by simp
    then have IH: "j \<le> k" "n div 10 = m * 10 ^ (k - j)" using Suc.IH by blast+
    have "n = n div 10 * 10" using True by (simp add: mod_0_imp_dvd)
    also have "\<dots> = m * 10 ^ Suc (k - j)" using IH(2) by simp
    finally show ?thesis using IH(1) by (simp add: Suc_diff_le)
  next
    case False
    then show ?thesis using Suc.prems by simp
  qed
qed simp

lemma low_digits_digits: "\<forall>c \<in> set (low_digits k n). is_digit c"
  by (induction k arbitrary: n) (auto simp del: digit_char.simps)

lemma length_low_digits [simp]: "length (low_digits k n) = k"
  by (induction k arbitrary: n) simp_all

lemma low_digits_Nil_iff [simp]: "low_digits k n = [] \<longleftrightarrow> k = 0"
  by (cases k) simp_all

lemma nat_of_low_digits: "nat_of_digits (ds @ low_digits k n) = nat_of_digits ds * 10 ^ k + n mod 10 ^ k"
proof (induction k arbitrary: n)
  case (Suc k)
  have "nat_of_digits (ds @ low_digits (Suc k) n)
      = 10 * (nat_of_digits ds * 10 ^ k + n div 10 mod 10 ^ k) + n mod 10"
    by (simp add: Suc.IH flip: append_assoc del: append_assoc digit_char.simps)
  also have "\<dots> = nat_of_digits ds * 10 ^ Suc k + n mod 10 ^ Suc k"
    by (simp add: mod_mult2_eq algebra_simps)
  finally show ?case .
qed (simp add: nat_of_digits_def)

lemma split_low_digits: "nat_of_digits (string_of_nat (n div 10 ^ k) @ low_digits k n) = n"
  by (simp only: nat_of_low_digits nat_of_digits_string_of_nat div_mult_mod_eq)

lemma dec_of_digits_Nil: "dec_of_digits [] (low_digits k n) = \<lparr>dc_coeff = int (n mod 10 ^ k), dc_scale = k\<rparr>"
  using nat_of_low_digits[of "[]" k n] by (simp add: dec_of_digits_def nat_of_digits_def)

text \<open>What a non-negative decimal is printed as, and what reading it back gives.\<close>

lemma dec_format_nonneg:
  "0 \<le> dc_coeff d \<Longrightarrow> dec_norm (nat (dc_coeff d)) (dc_scale d) = (n, k) \<Longrightarrow>
     dec_format d = string_of_nat (n div 10 ^ k) @ (if k = 0 then [] else CHR ''.'' # low_digits k n)"
  by (simp add: dec_format_def)

lemma string_of_nat_hd: "is_digit (hd (string_of_nat n))"
  by (metis string_of_nat_digits string_of_nat_nonempty list.set_sel(1))

lemma proto_groups_decimal:
  "proto_groups (string_of_nat m @ (if k = 0 then [] else CHR ''.'' # low_digits k n) @ ''s'')
     = (if k \<le> 9 then Some (False, string_of_nat m, low_digits k n) else None)"
proof -
  have "hd (string_of_nat m) \<noteq> CHR ''-''"
    using string_of_nat_hd[of m] by (auto simp: is_digit_def)
  then show ?thesis
    using digits_split[OF string_of_nat_digits[of m], of "''s''"]
      digits_split[OF string_of_nat_digits[of m], of "CHR ''.'' # low_digits k n @ ''s''"]
      digits_split[OF low_digits_digits[of k n], of "''s''"]
    by (simp add: proto_groups_def Let_def is_digit_def)
qed

lemma dec_trunc_nonneg: "0 \<le> dc_coeff d \<Longrightarrow> dec_trunc d = dc_coeff d div 10 ^ dc_scale d"
  by (cases "dc_coeff d = 0") (simp_all add: dec_trunc_def)

lemma read_decimal:
  assumes "0 \<le> dc_coeff d" "dec_norm (nat (dc_coeff d)) (dc_scale d) = (n, k)"
  shows "duration_to_milliseconds (decimal_duration d) =
     (if k \<le> 9 then Inr (dc_coeff d * 1000 div 10 ^ dc_scale d)
      else Inl (ValueErr (''invalid protobuf duration: '' @ repr_str (decimal_duration d))))"
proof -
  have nat_n: "nat (dc_coeff d) = n * 10 ^ (dc_scale d - k)" and k: "k \<le> dc_scale d"
    using dec_norm_spec[OF assms(2)] by blast+
  have "dc_coeff d = int (nat (dc_coeff d))" using assms(1) by simp
  then have n: "k \<le> dc_scale d" "dc_coeff d = int n * 10 ^ (dc_scale d - k)"
    using k unfolding nat_n by simp_all
  have "int (n div 10 ^ k * 10 ^ k + n mod 10 ^ k) = int n" by (simp only: div_mult_mod_eq)
  then have split: "int (n div 10 ^ k) * 10 ^ k * 1000 + int (n mod 10 ^ k) * 1000 = int n * 1000"
    by (simp flip: distrib_right)
  have "(10::int) ^ dc_scale d = 10 ^ k * 10 ^ (dc_scale d - k)"
    using n(1) by (simp flip: power_add)
  then have "dc_coeff d * 1000 div 10 ^ dc_scale d = int n * 1000 div 10 ^ k"
    unfolding n(2) by (simp add: mult.assoc[symmetric] mult.commute[of _ 1000])
  then show ?thesis
    unfolding duration_to_milliseconds_def decimal_duration_def dec_format_nonneg[OF assms]
    using split
    by (simp add: proto_groups_decimal dec_of_digits_Nil dec_add_def dec_int_def dec_trunc_nonneg)
qed

lemma read_nonneg:
  "0 \<le> ms \<Longrightarrow> duration_to_milliseconds (decimal_duration \<lparr>dc_coeff = ms, dc_scale = 3\<rparr>) = Inr ms"
proof -
  assume ms: "0 \<le> ms"
  obtain n k where nk: "dec_norm (nat ms) 3 = (n, k)" by (cases "dec_norm (nat ms) 3")
  then have "k \<le> 9" using dec_norm_spec by fastforce
  then show ?thesis using read_decimal[of "\<lparr>dc_coeff = ms, dc_scale = 3\<rparr>"] ms nk by simp
qed

subsection \<open>Reading ISO durations\<close>

lemma dec_norm_reduced:
  "dec_norm n k = (m, j) \<Longrightarrow> j = 0 \<or> m mod 10 \<noteq> 0"
  by (induction k arbitrary: n) (auto split: if_splits)

lemma dec_norm_idem: "k = 0 \<or> n mod 10 \<noteq> 0 \<Longrightarrow> dec_norm n k = (n, k)"
  by (cases k) auto

lemma opt_seconds_digits:
  "opt_seconds (string_of_nat m @ (if k = 0 then [] else CHR ''.'' # low_digits k n) @ ''S'')
     = (Some (string_of_nat m, low_digits k n), [])"
proof (cases "k = 0")
  case False
  then have "opt_unit CHR ''S'' (low_digits k n @ CHR ''S'' # []) = (Some (low_digits k n), [])"
    by (intro opt_unit_hit) (simp_all add: low_digits_digits)
  then show ?thesis
    using False digits_split[OF string_of_nat_digits[of m], of "CHR ''.'' # low_digits k n @ ''S''"]
    by (simp add: opt_seconds_def Let_def)
qed simp

lemma opt_unit_number:
  "u = CHR ''H'' \<or> u = CHR ''M'' \<Longrightarrow>
     opt_unit u (string_of_nat m @ (if k = 0 then [] else CHR ''.'' # low_digits k n) @ ''S'')
       = (None, string_of_nat m @ (if k = 0 then [] else CHR ''.'' # low_digits k n) @ ''S'')"
  by (rule opt_unit_miss) (auto simp: string_of_nat_digits)

lemma iso_groups_number:
  "iso_groups (''PT'' @ string_of_nat m @ (if k = 0 then [] else CHR ''.'' # low_digits k n) @ ''S'')
     = Some ((None, None, None, Some (string_of_nat m, low_digits k n)), [])"
  using opt_unit_number[of _ m k n] opt_seconds_digits[of m k n]
  by (simp add: iso_groups_def)

lemma decimal_value_digits:
  "decimal_value (Some (string_of_nat (n div 10 ^ k), low_digits k n)) = of_nat n / 10 ^ k"
proof -
  have low: "nat_of_digits (low_digits k n) = n mod 10 ^ k"
    using nat_of_low_digits[of "[]" k n] by (simp add: nat_of_digits_def)
  have "(of_nat n :: rat) = of_nat (n div 10 ^ k * 10 ^ k + n mod 10 ^ k)" by (simp only: div_mult_mod_eq)
  then have "(of_nat n :: rat) = of_nat (n div 10 ^ k) * 10 ^ k + of_nat (n mod 10 ^ k)" by simp
  then show ?thesis by (simp add: decimal_value_def low add_divide_distrib)
qed

lemma int_of_nat_eq: "0 \<le> i \<Longrightarrow> nat i = n \<Longrightarrow> i = int n"
  by simp

lemma printed_iso:
  assumes "0 \<le> ms" "dec_norm (nat ms) 3 = (n, k)"
  shows "protobuf_duration_to_iso (decimal_duration \<lparr>dc_coeff = ms, dc_scale = 3\<rparr>)
     = Inr (''PT'' @ string_of_nat (n div 10 ^ k) @ (if k = 0 then [] else CHR ''.'' # low_digits k n) @ ''S'')"
proof -
  have n: "nat ms = n * 10 ^ (3 - k)" "k \<le> 3" using dec_norm_spec[OF assms(2)] by auto
  show ?thesis
  proof (cases "ms mod 1000 = 0")
    case True
    then obtain q where q: "ms = 1000 * q" "0 \<le> q" using assms(1) by (auto elim!: dvdE simp: mod_eq_0_iff_dvd)
    have "dec_norm (nat ms) 3 = (nat q, 0)"
      using q by (simp add: numeral_3_eq_3 nat_mult_distrib div_mult2_eq[symmetric] mod_mult2_eq)
    then have "n = nat q" "k = 0" using assms(2) by simp_all
    then show ?thesis using q read_nonneg[OF assms(1)]
      by (simp add: protobuf_duration_to_iso_def string_of_int_def)
  next
    case False
    then show ?thesis using read_nonneg[OF assms(1)] dec_format_nonneg[of "\<lparr>dc_coeff = ms, dc_scale = 3\<rparr>" n k] assms
      by (simp add: protobuf_duration_to_iso_def)
  qed
qed

text \<open>
  C33. A number of milliseconds survives every format: printed as a protobuf duration it is read back
  exactly, printed on as an ISO 8601 duration it is parsed by the retry module to the same length of
  time, and that text converted to protobuf is the first text again.
\<close>

theorem duration_formats_roundtrip:
  assumes "0 \<le> ms"
  shows "\<exists>t u. milliseconds_to_duration ms = Inr t \<and> duration_to_milliseconds t = Inr ms
     \<and> protobuf_duration_to_iso t = Inr u \<and> parse_iso8601_duration u = Inr (of_int ms / 1000)
     \<and> iso_duration_to_protobuf u = Inr t"
proof -
  define d where "d = \<lparr>dc_coeff = ms, dc_scale = 3\<rparr>"
  obtain n k where nk: "dec_norm (nat ms) 3 = (n, k)" by (cases "dec_norm (nat ms) 3")
  have n: "nat ms = n * 10 ^ (3 - k)" "k \<le> 3" using dec_norm_spec[OF nk] by auto
  define u where "u = ''PT'' @ string_of_nat (n div 10 ^ k) @ (if k = 0 then [] else CHR ''.'' # low_digits k n) @ ''S''"
  note g = iso_groups_number[of "n div 10 ^ k" k n, folded u_def]
  have "ms = int n * 10 ^ (3 - k)" using int_of_nat_eq[OF assms n(1)] by simp
  then have "(of_int ms :: rat) * 10 ^ k = of_nat n * 1000"
    using n(2) by (auto simp: le_Suc_eq numeral_3_eq_3)
  then have val: "(of_nat n / 10 ^ k :: rat) = of_int ms / 1000"
    by (simp add: field_simps)
  have fmt: "decimal_duration d = (string_of_nat (n div 10 ^ k) @ (if k = 0 then [] else CHR ''.'' # low_digits k n)) @ ''s''"
    using dec_format_nonneg[of d n k] assms nk by (simp add: decimal_duration_def d_def)
  have "dec_norm n k = (n, k)" using dec_norm_idem dec_norm_reduced[OF nk] by blast
  then have "iso_duration_to_protobuf u = Inr (decimal_duration d)"
    unfolding iso_duration_to_protobuf_def g fmt
    by (simp add: dec_seconds_def dec_of_digits_def split_low_digits dec_add_def dec_int_def digits_or_0_def
        decimal_duration_def dec_format_nonneg)
  moreover have "parse_iso8601_duration u = Inr (of_int ms / 1000)"
    by (simp add: parse_iso8601_duration_def g duration_value_def digits_or_0_def decimal_value_digits val)
  ultimately show ?thesis
    using read_nonneg[OF assms] printed_iso[OF assms nk, folded u_def] assms
    by (intro exI[of _ "decimal_duration d"] exI[of _ u]) (simp add: milliseconds_to_duration_def d_def)
qed

theorem duration_formats_roundtrip_witness:
  "\<exists>t u. milliseconds_to_duration 1500 = Inr t \<and> duration_to_milliseconds t = Inr 1500
     \<and> protobuf_duration_to_iso t = Inr u \<and> parse_iso8601_duration u = Inr (of_int 1500 / 1000)
     \<and> iso_duration_to_protobuf u = Inr t"
  using duration_formats_roundtrip[of 1500] by simp

subsection \<open>Precision\<close>

lemma nat_of_digits_append: "nat_of_digits (s @ t) = nat_of_digits s * 10 ^ length t + nat_of_digits t"
proof (induction t rule: rev_induct)
  case (snoc c t)
  then show ?case by (simp add: algebra_simps flip: append_assoc del: append_assoc)
qed (simp add: nat_of_digits_def)

lemma dec_value_add [simp]: "dec_value (dec_add a b) = dec_value a + dec_value b"
  by (simp add: dec_value_def dec_add_def field_simps power_add)

lemma dec_value_int [simp]: "dec_value (dec_int i) = of_int i"
  by (simp add: dec_value_def dec_int_def)

lemma dec_value_seconds [simp]: "dec_value (dec_seconds x) = decimal_value x"
  by (auto simp: dec_seconds_def decimal_value_def dec_of_digits_def dec_int_def dec_value_def nat_of_digits_append
      field_simps split: option.splits)

lemma dec_trunc_value: "dc_coeff d * 1000 div 10 ^ dc_scale d = \<lfloor>dec_value d * 1000\<rfloor>"
proof -
  have "dec_value d * 1000 = (of_int (dc_coeff d * 1000) :: rat) / of_int (10 ^ dc_scale d)"
    by (simp add: dec_value_def)
  then show ?thesis by (simp only: floor_divide_of_int_eq)
qed

lemma reduced_scale:
  assumes "0 \<le> dc_coeff d" "dec_norm (nat (dc_coeff d)) (dc_scale d) = (n, k)"
  shows "k \<le> 9 \<longleftrightarrow> dec_value d * 10 ^ 9 \<in> \<int>"
proof -
  have nk: "nat (dc_coeff d) = n * 10 ^ (dc_scale d - k)" "k \<le> dc_scale d"
    using dec_norm_spec[OF assms(2)] by auto
  have "(10::rat) ^ dc_scale d = 10 ^ k * 10 ^ (dc_scale d - k)"
    using nk(2) by (simp flip: power_add)
  then have v: "dec_value d = of_nat n / 10 ^ k"
    using int_of_nat_eq[OF assms(1) nk(1)] by (simp add: dec_value_def)
  show ?thesis
  proof
    assume "k \<le> 9"
    then have ten: "(10::rat) ^ 9 = 10 ^ k * 10 ^ (9 - k)" by (simp only: power_add[symmetric] le_add_diff_inverse)
    have "dec_value d * 10 ^ 9 = of_nat (n * 10 ^ (9 - k))"
      unfolding v ten by simp
    then show "dec_value d * 10 ^ 9 \<in> \<int>" by (metis Ints_of_nat)
  next
    assume "dec_value d * 10 ^ 9 \<in> \<int>"
    then obtain z where "of_nat n * 10 ^ 9 = (of_int z * 10 ^ k :: rat)"
      using v by (auto elim!: Ints_cases simp: field_simps)
    then have "(of_int (int n * 10 ^ 9) :: rat) = of_int (z * 10 ^ k)" by simp
    then have z: "int n * 10 ^ 9 = z * 10 ^ k" by (simp only: of_int_eq_iff)
    show "k \<le> 9"
    proof (rule ccontr)
      assume k: "\<not> k \<le> 9"
      then have "(10::int) ^ k = 10 ^ (k - 10 + 10)" by simp
      then have "(10::int) ^ k = 10 ^ (k - 10) * 10 * 10 ^ 9" unfolding power_add by simp
      then have "int n = z * 10 ^ (k - 10) * 10" using z by simp
      then have "n mod 10 = 0" by presburger
      then show False using dec_norm_reduced[OF assms(2)] k by simp
    qed
  qed
qed

text \<open>
  Converting an ISO 8601 duration keeps its length exactly, and fails exactly on the texts that are
  none.  The protobuf text can be read back when the length is a whole number of nanoseconds, and then
  gives the length in milliseconds, truncated; a finer duration becomes a text the SDK itself rejects.
\<close>

theorem iso_duration_precision:
  "case iso_duration_to_protobuf s of
     Inl e \<Rightarrow> s \<notin> lang ISO_DURATION \<and> e = ValueErr (''invalid ISO 8601 duration: '' @ repr_str s)
   | Inr t \<Rightarrow> s \<in> lang ISO_DURATION \<and> (\<exists>x. parse_iso8601_duration s = Inr x \<and> 0 \<le> x
       \<and> duration_to_milliseconds t = (if x * 10 ^ 9 \<in> \<int> then Inr \<lfloor>x * 1000\<rfloor>
            else Inl (ValueErr (''invalid protobuf duration: '' @ repr_str t))))"
proof (cases "\<exists>g. iso_groups s = Some (g, [])")
  case True
  then obtain dd h m x where g: "iso_groups s = Some ((dd, h, m, x), [])" by auto
  define d where "d = dec_add (dec_int (int (digits_or_0 dd) * 86400 + int (digits_or_0 h) * 3600 + int (digits_or_0 m) * 60))
          (dec_seconds x)"
  have val: "dec_value d = duration_value (dd, h, m, x)"
    by (simp add: d_def duration_value_def)
  have pos: "0 \<le> dc_coeff d"
    by (simp add: d_def dec_add_def dec_int_def dec_seconds_def dec_of_digits_def split: option.split)
  obtain n k where nk: "dec_norm (nat (dc_coeff d)) (dc_scale d) = (n, k)"
    by (cases "dec_norm (nat (dc_coeff d)) (dc_scale d)")
  have "0 \<le> dec_value d" using pos by (simp add: dec_value_def)
  moreover have "iso_duration_to_protobuf s = Inr (decimal_duration d)"
    by (simp add: iso_duration_to_protobuf_def g d_def)
  moreover have "parse_iso8601_duration s = Inr (dec_value d)"
    by (simp add: parse_iso8601_duration_def g val)
  ultimately show ?thesis
    using True read_decimal[OF pos nk] reduced_scale[OF pos nk] iso_groups_lang[of s] dec_trunc_value[of d] by simp
next
  case False
  then have "iso_duration_to_protobuf s = Inl (ValueErr (''invalid ISO 8601 duration: '' @ repr_str s))"
    by (auto simp: iso_duration_to_protobuf_def split: option.splits list.splits)
  then show ?thesis using False iso_groups_lang[of s] by simp
qed

text \<open>
  The sign of a protobuf duration is read as part of its whole seconds only: the fraction is added
  after it.  So minus one and a half seconds is read as minus half a second, and minus half a second
  as plus half a second.
\<close>

theorem duration_sign_lost:
  assumes "ds \<noteq> []" "\<forall>c \<in> set ds. is_digit c"
  shows "duration_to_milliseconds (CHR ''-'' # ds @ ''.5s'')
     = Inr (if nat_of_digits ds = 0 then 500 else - (1000 * int (nat_of_digits ds)) + 500)"
proof -
  have pg: "proto_groups (CHR ''-'' # ds @ ''.5s'') = Some (True, ds, ''5'')"
    using digits_split[OF assms(2), of "''.5s''"] assms(1)
    by (simp add: proto_groups_def Let_def is_digit_def)
  have five: "nat_of_digits ''5'' = 5" by (simp add: nat_of_digits_def digit_val_def)
  show ?thesis
    by (auto simp: duration_to_milliseconds_def pg dec_of_digits_def five dec_add_def dec_int_def dec_trunc_def)
qed

theorem duration_sign_lost_witness: "duration_to_milliseconds ''-1.5s'' = Inr (- 500)"
  using duration_sign_lost[of "''1''"] by (simp add: is_digit_def nat_of_digits_def digit_val_def)

end
