(* ===== verification/Grpc_Projection.thy ===== *)
theory Grpc_Projection
  imports Grpc_Time Workflows Builtins
begin

section \<open>gRPC: projections to and from the protobuf messages\<close>

text \<open>
  \<open>src/ojs/transport/grpc/enqueue_projection.py\<close>, \<open>job_projection.py\<close> and
  \<open>workflow_projection.py\<close>: an enqueue body becomes the \<open>EnqueueRequest\<close> message, a workflow
  definition the \<open>CreateWorkflow\<close> message, and a \<open>Job\<close> message the dict that \<open>Job.from_dict\<close> reads.
  Messages are protobuf JSON, so dicts; \<open>isop\<close> is \<open>datetime.fromisoformat\<close>, \<open>now\<close> the current time and
  \<open>str_of\<close> is \<open>str\<close> of a value that is no string.  The import-time checks that the projections name every
  field of \<open>JobRequest\<close> and \<open>Job\<close> are not modelled.
\<close>

subsection \<open>Enqueue bodies\<close>

definition CONFLICT_ACTIONS :: "(string \<times> string) list" where
  "CONFLICT_ACTIONS = [(''ignore'', ''UNIQUE_CONFLICT_ACTION_IGNORE''),
     (''reject'', ''UNIQUE_CONFLICT_ACTION_REJECT''),
     (''replace'', ''UNIQUE_CONFLICT_ACTION_REPLACE''),
     (''replace_except_schedule'', ''UNIQUE_CONFLICT_ACTION_REPLACE_EXCEPT_SCHEDULE'')]"

text \<open>The kinds of field: a string converted by a function, a value of a class kept as it is.\<close>

definition conv_str :: "(string \<Rightarrow> exn + string) \<Rightarrow> pyval option \<Rightarrow> (exn + pyval) option" where
  "conv_str f v = (case v of Some (PStr s) \<Rightarrow> Some (bindR (f s) (\<lambda>t. Inr (PStr t))) | _ \<Rightarrow> None)"

definition conv_ms :: "pyval option \<Rightarrow> (exn + pyval) option" where
  "conv_ms v = (case v of None \<Rightarrow> None | Some w \<Rightarrow> (case as_int w of
     Some i \<Rightarrow> Some (bindR (milliseconds_to_duration i) (\<lambda>t. Inr (PStr t))) | None \<Rightarrow> None))"

definition keep_if :: "(pyval \<Rightarrow> bool) \<Rightarrow> pyval option \<Rightarrow> (exn + pyval) option" where
  "keep_if p v = (case v of Some w \<Rightarrow> if p w then Some (Inr w) else None | None \<Rightarrow> None)"

definition is_str :: "pyval \<Rightarrow> bool" where "is_str v \<longleftrightarrow> as_str v \<noteq> None"
definition is_int :: "pyval \<Rightarrow> bool" where "is_int v \<longleftrightarrow> as_int v \<noteq> None"
definition is_list :: "pyval \<Rightarrow> bool" where "is_list v \<longleftrightarrow> as_list v \<noteq> None"
definition is_map :: "pyval \<Rightarrow> bool" where "is_map v \<longleftrightarrow> as_dict v \<noteq> None"
definition is_bool :: "pyval \<Rightarrow> bool" where "is_bool v \<longleftrightarrow> (case v of PBool _ \<Rightarrow> True | _ \<Rightarrow> False)"
definition is_number :: "pyval \<Rightarrow> bool" where
  "is_number v \<longleftrightarrow> as_int v \<noteq> None \<or> (case v of PFloat _ \<Rightarrow> True | _ \<Rightarrow> False)"

definition proto_retry :: "pydict \<Rightarrow> exn + pydict" where
  "proto_retry retry = build_dict
     [(''max_attempts'', keep_if is_int (dget retry ''max_attempts'')),
      (''initial_interval'', conv_str iso_duration_to_protobuf (dget retry ''initial_interval'')),
      (''max_interval'', conv_str iso_duration_to_protobuf (dget retry ''max_interval'')),
      (''backoff_coefficient'', keep_if is_number (dget retry ''backoff_coefficient'')),
      (''jitter'', keep_if is_bool (dget retry ''jitter'')),
      (''non_retryable_errors'', keep_if is_list (dget retry ''non_retryable_errors'')),
      (''on_exhaustion'', keep_if is_str (dget retry ''on_exhaustion''))]"

definition proto_conflict :: "string \<Rightarrow> exn + string" where
  "proto_conflict c = (case map_of CONFLICT_ACTIONS c of Some a \<Rightarrow> Inr a
     | None \<Rightarrow> Inl (ValidationErr (''unsupported unique on_conflict value: '' @ repr_str c)))"

definition proto_state :: "(pyval \<Rightarrow> string) \<Rightarrow> pyval \<Rightarrow> pyval" where
  "proto_state str_of v = PStr (''JOB_STATE_'' @ str_upper (py_str str_of v))"

definition proto_states :: "(pyval \<Rightarrow> string) \<Rightarrow> pyval option \<Rightarrow> (exn + pyval) option" where
  "proto_states str_of v = (case v of Some (PList xs) \<Rightarrow> Some (Inr (PList (map (proto_state str_of) xs))) | _ \<Rightarrow> None)"

definition proto_unique :: "(pyval \<Rightarrow> string) \<Rightarrow> pydict \<Rightarrow> exn + pydict" where
  "proto_unique str_of u = build_dict
     [(''key'', keep_if is_list (dget u ''key'')),
      (''period'', conv_str iso_duration_to_protobuf (dget u ''period'')),
      (''on_conflict'', conv_str proto_conflict (dget u ''on_conflict'')),
      (''states'', proto_states str_of (dget u ''states'')),
      (''args_keys'', keep_if is_list (dget u ''args_keys'')),
      (''meta_keys'', keep_if is_list (dget u ''meta_keys''))]"

text \<open>\<open>source.get(k, body.get(k))\<close>.\<close>

definition get_or :: "pydict \<Rightarrow> pydict \<Rightarrow> string \<Rightarrow> pyval option" where
  "get_or source body k = (case dget source k of Some v \<Rightarrow> Some v | None \<Rightarrow> dget body k)"

definition sub_dict :: "(pydict \<Rightarrow> exn + pydict) \<Rightarrow> pyval option \<Rightarrow> (exn + pyval) option" where
  "sub_dict f v = (case v of Some (PDict d) \<Rightarrow> Some (bindR (f d) (\<lambda>e. Inr (PDict e))) | _ \<Rightarrow> None)"

definition dict_get :: "string \<Rightarrow> pyval option \<Rightarrow> pyval option" where
  "dict_get k v = (case v of Some (PDict d) \<Rightarrow> dget d k | _ \<Rightarrow> None)"

definition proto_options ::
  "(pyval \<Rightarrow> string) \<Rightarrow> (string \<Rightarrow> pydatetime option) \<Rightarrow> pydatetime \<Rightarrow> pydict \<Rightarrow> pydict \<Rightarrow> exn + pydict" where
  "proto_options str_of isop now body source = build_dict
     [(''queue'', keep_if (\<lambda>v. is_str v \<and> truthy v) (get_or source body ''queue'')),
      (''priority'', keep_if is_int (get_or source body ''priority'')),
      (''delay_until'', keep_if is_str (dget source ''delay_until'')),
      (''timeout'', conv_ms (dget source ''timeout_ms'')),
      (''ttl'', conv_str (expiry_to_ttl isop now) (dget source ''expires_at'')),
      (''retry'', sub_dict proto_retry (dget source ''retry'')),
      (''max_attempts'', keep_if is_int (dict_get ''max_attempts'' (dget source ''retry''))),
      (''unique'', sub_dict (proto_unique str_of) (dget source ''unique'')),
      (''tags'', keep_if is_list (get_or source body ''tags'')),
      (''meta'', keep_if is_map (dget body ''meta'')),
      (''trace_id'', keep_if is_str (dict_get ''trace_id'' (dget body ''meta''))),
      (''visibility_timeout'', conv_ms (dget source ''visibility_timeout_ms''))]"

definition project_enqueue ::
  "(pyval \<Rightarrow> string) \<Rightarrow> (string \<Rightarrow> pydatetime option) \<Rightarrow> pydatetime \<Rightarrow> pydict \<Rightarrow> exn + pydict" where
  "project_enqueue str_of isop now body =
     (case dget_default body ''type'' PNone of
       PStr job_type \<Rightarrow>
         if job_type = [] then Inl (ValidationErr ''enqueue type must be a non-empty string'')
         else (case dget_default body ''args'' (PList []) of
           PList args \<Rightarrow>
             if dget_default body ''schema'' PNone \<noteq> PNone
             then Inl (CapabilityErr (''The canonical OJS v1 gRPC EnqueueRequest has no schema field. ''
                    @ ''Use HTTP transport for schema-validated enqueue operations.''))
             else (case (case dget_default body ''options'' PNone of PNone \<Rightarrow> PDict [] | v \<Rightarrow> v) of
               PDict source \<Rightarrow> bindR (proto_options str_of isop now body source) (\<lambda>options.
                 Inr ([(PStr ''type'', PStr job_type), (PStr ''args'', PList args)]
                   @ opt_entry (options \<noteq> []) ''options'' (PDict options)))
             | _ \<Rightarrow> Inl (ValidationErr ''enqueue options must be an object''))
         | _ \<Rightarrow> Inl (ValidationErr ''enqueue args must be a list''))
     | _ \<Rightarrow> Inl (ValidationErr ''enqueue type must be a non-empty string''))"

subsection \<open>Job messages\<close>

definition JOB_CONFLICT_ACTIONS :: "(string \<times> string) list" where
  "JOB_CONFLICT_ACTIONS = [(''UNIQUE_CONFLICT_ACTION_IGNORE'', ''ignore''),
     (''UNIQUE_CONFLICT_ACTION_REJECT'', ''reject''),
     (''UNIQUE_CONFLICT_ACTION_REPLACE'', ''replace''),
     (''UNIQUE_CONFLICT_ACTION_REPLACE_EXCEPT_SCHEDULE'', ''replace_except_schedule''),
     (''UNIQUE_CONFLICT_ACTION_UNSPECIFIED'', ''reject'')]"

definition state_of_number :: "int \<Rightarrow> string" where
  "state_of_number i = (case map_of [(1, ''scheduled''), (2, ''available''), (3, ''pending''), (4, ''active''),
       (5, ''completed''), (6, ''retryable''), (7, ''cancelled''), (8, ''discarded'')] i of
     Some s \<Rightarrow> s | None \<Rightarrow> ''available'')"

definition proto_job_state :: "pyval \<Rightarrow> string" where
  "proto_job_state v = (case as_str v of
     Some s \<Rightarrow> (let n = remove_prefix (str_lower s) ''job_state_'' in if n = ''unspecified'' then ''available'' else n)
   | None \<Rightarrow> (case as_int v of Some i \<Rightarrow> state_of_number i | None \<Rightarrow> ''available''))"

definition nonempty_list :: "pyval \<Rightarrow> bool" where
  "nonempty_list v \<longleftrightarrow> is_list v \<and> truthy v"

definition job_retry :: "pydict \<Rightarrow> exn + pydict" where
  "job_retry retry = build_dict
     [(''max_attempts'', keep_if (\<lambda>_. True) (dget retry ''max_attempts'')),
      (''backoff_coefficient'', keep_if (\<lambda>_. True) (dget retry ''backoff_coefficient'')),
      (''jitter'', keep_if (\<lambda>_. True) (dget retry ''jitter'')),
      (''initial_interval'', conv_str protobuf_duration_to_iso (dget retry ''initial_interval'')),
      (''max_interval'', conv_str protobuf_duration_to_iso (dget retry ''max_interval'')),
      (''non_retryable_errors'', keep_if nonempty_list (dget retry ''non_retryable_errors''))]"

definition job_conflict :: "(pyval \<Rightarrow> string) \<Rightarrow> pyval \<Rightarrow> string" where
  "job_conflict str_of v = (case map_of JOB_CONFLICT_ACTIONS (py_str str_of v) of Some c \<Rightarrow> c | None \<Rightarrow> ''reject'')"

definition job_unique :: "(pyval \<Rightarrow> string) \<Rightarrow> pydict \<Rightarrow> exn + pydict" where
  "job_unique str_of u = build_dict
     [(''key'', Some (bindR (py_list (dget_default u ''key'' (PList []))) (\<lambda>ks. Inr (PList ks)))),
      (''states'', Some (bindR (py_list (dget_default u ''states'' (PList []))) (\<lambda>ss.
          Inr (PList (map (\<lambda>s. PStr (proto_job_state s)) ss))))),
      (''on_conflict'', Some (Inr (PStr (job_conflict str_of (dget_default u ''on_conflict'' (PStr [])))))),
      (''period'', conv_str protobuf_duration_to_iso (dget u ''period'')),
      (''args_keys'', keep_if nonempty_list (dget u ''args_keys'')),
      (''meta_keys'', keep_if nonempty_list (dget u ''meta_keys''))]"

definition conv_timeout :: "pyval option \<Rightarrow> (exn + pyval) option" where
  "conv_timeout v = (case v of Some (PStr s) \<Rightarrow> Some (bindR (duration_to_milliseconds s) (\<lambda>ms. Inr (PInt ms))) | _ \<Rightarrow> None)"

definition as_plist :: "pyval \<Rightarrow> (exn + pyval) option" where
  "as_plist v = Some (bindR (py_list v) (\<lambda>xs. Inr (PList xs)))"

definition project_job_dict :: "(pyval \<Rightarrow> string) \<Rightarrow> pydict \<Rightarrow> exn + pydict" where
  "project_job_dict str_of source = build_dict
     [(''id'', Some (Inr (dget_default source ''id'' (PStr [])))),
      (''type'', Some (Inr (dget_default source ''type'' (PStr [])))),
      (''queue'', Some (Inr (let q = dget_default source ''queue'' PNone in if truthy q then q else PStr ''default''))),
      (''args'', as_plist (dget_default source ''args'' (PList []))),
      (''meta'', Some (bindR (py_dict (dget_default source ''meta'' (PDict []))) (\<lambda>d. Inr (PDict d)))),
      (''state'', Some (Inr (PStr (proto_job_state (dget_default source ''state'' (PStr ''available'')))))),
      (''priority'', Some (Inr (dget_default source ''priority'' (PInt 0)))),
      (''attempt'', Some (Inr (dget_default source ''attempt'' (PInt 0)))),
      (''tags'', as_plist (dget_default source ''tags'' (PList []))),
      (''errors'', as_plist (dget_default source ''errors'' (PList []))),
      (''result'', Some (Inr (dget_default source ''result'' PNone))),
      (''max_attempts'', keep_if (\<lambda>_. True) (dget source ''max_attempts'')),
      (''timeout_ms'', conv_timeout (dget source ''timeout'')),
      (''retry'', sub_dict job_retry (dget source ''retry_policy'')),
      (''unique'', sub_dict (job_unique str_of) (dget source ''unique_policy'')),
      (''created_at'', Some (Inr (dget_default source ''created_at'' PNone))),
      (''enqueued_at'', Some (Inr (dget_default source ''enqueued_at'' PNone))),
      (''started_at'', Some (Inr (dget_default source ''started_at'' PNone))),
      (''completed_at'', Some (Inr (dget_default source ''completed_at'' PNone))),
      (''scheduled_at'', Some (Inr (dget_default source ''scheduled_at'' PNone))),
      (''expires_at'', Some (Inr (dget_default source ''expires_at'' PNone)))]"

definition project_job :: "(pyval \<Rightarrow> string) \<Rightarrow> pyval \<Rightarrow> exn + pydict" where
  "project_job str_of v = (case v of
     PNone \<Rightarrow> Inr []
   | PDict source \<Rightarrow> project_job_dict str_of source
   | _ \<Rightarrow> Inl (UserErr ''AttributeError'' ''get''))"

subsection \<open>Workflow definitions\<close>

definition merge_dict :: "pydict \<Rightarrow> pydict \<Rightarrow> pydict" where
  "merge_dict a b = foldl (\<lambda>d (k, v). AList.update k v d) a b"

definition project_step ::
  "(pyval \<Rightarrow> string) \<Rightarrow> (string \<Rightarrow> pydatetime option) \<Rightarrow> pydatetime \<Rightarrow> pydict \<Rightarrow> workflow_step \<Rightarrow> exn + pydict" where
  "project_step str_of isop now defaults s =
     (if ws_schema s \<noteq> None
      then Inl (CapabilityErr (''The canonical OJS v1 gRPC WorkflowStep has no schema field. ''
             @ ''Use HTTP transport for schema-validated workflow steps.''))
      else let source_options = (case ws_options s of None \<Rightarrow> [] | Some d \<Rightarrow> d) in
        if dget_default source_options ''callback_type'' PNone \<noteq> PNone
        then Inl (CapabilityErr (''The canonical OJS v1 gRPC workflow DAG cannot represent ''
               @ ''conditional batch callbacks. Use HTTP transport for batch workflows.''))
        else bindR (project_enqueue str_of isop now
               ([(PStr ''type'', PStr (ws_type s)), (PStr ''args'', PList (ws_args s)),
                 (PStr ''options'', PDict (merge_dict defaults source_options))]
                @ opt_entry (ws_meta s \<noteq> None) ''meta'' (opt_dict (ws_meta s)))) (\<lambda>projected.
          Inr ([(PStr ''id'', PStr (ws_id s)), (PStr ''type'', dget_default projected ''type'' PNone),
                (PStr ''args'', dget_default projected ''args'' PNone)]
               @ opt_entry (ws_depends_on s \<noteq> []) ''depends_on'' (pstrs (ws_depends_on s))
               @ opt_entry (dhas projected ''options'') ''options'' (dget_default projected ''options'' PNone))))"

definition project_workflow ::
  "(pyval \<Rightarrow> string) \<Rightarrow> (string \<Rightarrow> pydatetime option) \<Rightarrow> pydatetime \<Rightarrow> workflow_definition \<Rightarrow> exn + pydict" where
  "project_workflow str_of isop now w =
     bindR (mapR (project_step str_of isop now (case wd_options w of None \<Rightarrow> [] | Some d \<Rightarrow> d)) (wd_steps w)) (\<lambda>steps.
       Inr [(PStr ''name'', PStr (wd_name w)), (PStr ''steps'', PList (map PDict steps))])"

subsection \<open>Policies there and back\<close>

lemma build_dict_str_keys: "build_dict fs = Inr d \<Longrightarrow> str_keys d"
proof (induction fs arbitrary: d)
  case (Cons f fs)
  obtain k r where f: "f = (k, r)" by (cases f)
  then show ?case using Cons by (cases r) (auto simp: bindR_eq_Inr_iff str_keys_def)
qed simp

text \<open>
  A text of a duration that comes back as it was: its protobuf form is one that a \<open>Duration\<close> can hold
  (not negative, at most nine fraction digits, at most ten thousand years), and converting that back
  prints the text again.
\<close>

definition canonical_duration :: "string \<Rightarrow> bool" where
  "canonical_duration p = (case iso_duration_to_protobuf p of
     Inr t \<Rightarrow> (case proto_groups t of
         Some (neg, ds, fs) \<Rightarrow> \<not> neg \<and> int (nat_of_digits ds) \<le> 315576000000 \<and> protobuf_duration_to_iso t = Inr p
       | None \<Rightarrow> False)
   | Inl _ \<Rightarrow> False)"

text \<open>Two texts of the same duration: protobuf prints 0, 3, 6 or 9 fraction digits.\<close>

definition same_duration :: "string \<Rightarrow> string \<Rightarrow> bool" where
  "same_duration t t' = (case (proto_groups t, proto_groups t') of
     (Some (neg, ds, fs), Some (neg', ds', fs')) \<Rightarrow> \<not> neg \<and> \<not> neg'
       \<and> nat_of_digits (ds @ fs) * 10 ^ length fs' = nat_of_digits (ds' @ fs') * 10 ^ length fs
   | _ \<Rightarrow> False)"

definition duration_value_ok :: "pyval \<Rightarrow> bool" where
  "duration_value_ok v = (case v of PStr t \<Rightarrow> (case proto_groups t of
     Some (neg, ds, fs) \<Rightarrow> \<not> neg \<and> int (nat_of_digits ds) \<le> 315576000000 | None \<Rightarrow> False) | _ \<Rightarrow> False)"

lemma digits_to_milliseconds:
  assumes "proto_groups t = Some (False, ds, fs)"
  shows "duration_to_milliseconds t = Inr (int (nat_of_digits (ds @ fs) * 1000 div 10 ^ length fs))"
proof -
  have "nat_of_digits (ds @ fs) = nat_of_digits ds * 10 ^ length fs + nat_of_digits fs"
    by (rule nat_of_digits_append)
  then show ?thesis using assms
    by (simp add: duration_to_milliseconds_def dec_of_digits_def dec_add_def dec_int_def dec_trunc_nonneg
        zdiv_int algebra_simps)
qed

lemma same_duration_iso:
  assumes "same_duration t t'"
  shows "protobuf_duration_to_iso t' = protobuf_duration_to_iso t"
proof -
  obtain ds fs ds' fs' where g: "proto_groups t = Some (False, ds, fs)" "proto_groups t' = Some (False, ds', fs')"
    and eq: "nat_of_digits (ds @ fs) * 10 ^ length fs' = nat_of_digits (ds' @ fs') * 10 ^ length fs"
    using assms by (auto simp: same_duration_def split: option.splits prod.splits)
  let ?n = "nat_of_digits (ds @ fs)" and ?n' = "nat_of_digits (ds' @ fs')"
  have "?n * 1000 div 10 ^ length fs = ?n * 1000 * 10 ^ length fs' div (10 ^ length fs * 10 ^ length fs')"
    by (rule div_mult_mult2[symmetric]) simp
  also have "?n * 1000 * 10 ^ length fs' = ?n' * 1000 * 10 ^ length fs"
    using eq by (simp only: mult.commute mult.left_commute)
  also have "10 ^ length fs * 10 ^ length fs' = (10 ^ length fs' * 10 ^ length fs :: nat)"
    by (rule mult.commute)
  also have "?n' * 1000 * 10 ^ length fs div (10 ^ length fs' * 10 ^ length fs) = ?n' * 1000 div 10 ^ length fs'"
    by (rule div_mult_mult2) simp
  finally show ?thesis by (simp add: protobuf_duration_to_iso_def digits_to_milliseconds[OF g(1)] digits_to_milliseconds[OF g(2)])
qed

lemma canonicalE:
  assumes "canonical_duration p"
  obtains t where "iso_duration_to_protobuf p = Inr t" "protobuf_duration_to_iso t = Inr p" "duration_value_ok (PStr t)"
  using assms by (auto simp: canonical_duration_def duration_value_ok_def split: sum.splits option.splits)

subsubsection \<open>The wire\<close>

text \<open>
  \<open>google.protobuf\<close> is not part of the repository.  What the projections rely on, for a message of proto3
  scalars, durations and lists that protobuf accepts: it is parsed, sent and printed again by
  \<open>ProtobufCodec.response_dict\<close> with the same fields, a duration as a text of the same length of time, and
  without the scalars and lists that have the zero value of their type, since \<open>MessageToDict\<close> is called
  without \<open>always_print_fields_with_no_presence\<close>.
\<close>

definition proto_zero :: "pyval \<Rightarrow> bool" where
  "proto_zero v \<longleftrightarrow> v \<in> {PInt 0, PFloat (Fin 0), PBool False, PStr [], PList []}"

definition proto3_json :: "(pydict \<Rightarrow> bool) \<Rightarrow> string set \<Rightarrow> (pydict \<Rightarrow> pydict) \<Rightarrow> bool" where
  "proto3_json accepted durations wire \<longleftrightarrow> (\<forall>m. accepted m \<longrightarrow> (\<forall>k. case dget m k of
     None \<Rightarrow> dget (wire m) k = None
   | Some v \<Rightarrow> if k \<in> durations
       then \<exists>t t'. v = PStr t \<and> dget (wire m) k = Some (PStr t') \<and> same_duration t t'
       else dget (wire m) k = (if proto_zero v then None else Some v)))"

definition str_list :: "pyval \<Rightarrow> bool" where
  "str_list v = (case v of PList xs \<Rightarrow> list_all is_str xs | _ \<Rightarrow> False)"

definition opt_field :: "(pyval \<Rightarrow> bool) \<Rightarrow> pydict \<Rightarrow> string \<Rightarrow> bool" where
  "opt_field P m k = (case dget m k of None \<Rightarrow> True | Some v \<Rightarrow> P v)"

definition int32 :: "pyval \<Rightarrow> bool" where
  "int32 v = (case v of PInt i \<Rightarrow> - (2 ^ 31) \<le> i \<and> i < 2 ^ 31 | _ \<Rightarrow> False)"

definition is_double :: "pyval \<Rightarrow> bool" where
  "is_double v = (case v of PFloat (Fin _) \<Rightarrow> True | _ \<Rightarrow> False)"

definition RETRY_FIELDS :: "string list" where
  "RETRY_FIELDS = [''max_attempts'', ''initial_interval'', ''max_interval'', ''backoff_coefficient'', ''jitter'',
     ''non_retryable_errors'', ''on_exhaustion'']"

definition retry_message :: "pydict \<Rightarrow> bool" where
  "retry_message m \<longleftrightarrow> (\<forall>k. dget m k \<noteq> None \<longrightarrow> k \<in> set RETRY_FIELDS) \<and> opt_field int32 m ''max_attempts''
     \<and> opt_field duration_value_ok m ''initial_interval'' \<and> opt_field duration_value_ok m ''max_interval''
     \<and> opt_field is_double m ''backoff_coefficient'' \<and> opt_field is_bool m ''jitter''
     \<and> opt_field str_list m ''non_retryable_errors'' \<and> opt_field is_str m ''on_exhaustion''"

definition UNIQUE_FIELDS :: "string list" where
  "UNIQUE_FIELDS = [''key'', ''period'', ''on_conflict'', ''states'', ''args_keys'', ''meta_keys'']"

definition unique_message :: "pydict \<Rightarrow> bool" where
  "unique_message m \<longleftrightarrow> (\<forall>k. dget m k \<noteq> None \<longrightarrow> k \<in> set UNIQUE_FIELDS) \<and> opt_field str_list m ''key''
     \<and> opt_field duration_value_ok m ''period''
     \<and> opt_field (\<lambda>v. v \<in> PStr ` snd ` set CONFLICT_ACTIONS) m ''on_conflict''
     \<and> opt_field (\<lambda>v. case v of PList xs \<Rightarrow> list_all (\<lambda>x. x \<in> (\<lambda>s. PStr (''JOB_STATE_'' @ str_upper (state_value s))) ` UNIV) xs
          | _ \<Rightarrow> False) m ''states''
     \<and> opt_field str_list m ''args_keys'' \<and> opt_field str_list m ''meta_keys''"

definition retry_wire :: "(pydict \<Rightarrow> pydict) \<Rightarrow> bool" where
  "retry_wire = proto3_json retry_message {''initial_interval'', ''max_interval''}"

definition unique_wire :: "(pydict \<Rightarrow> pydict) \<Rightarrow> bool" where
  "unique_wire = proto3_json unique_message {''period''}"

lemma proto3_jsonD:
  "proto3_json accepted durations wire \<Longrightarrow> accepted m \<Longrightarrow> (case dget m k of
     None \<Rightarrow> dget (wire m) k = None
   | Some v \<Rightarrow> if k \<in> durations
       then \<exists>t t'. v = PStr t \<and> dget (wire m) k = Some (PStr t') \<and> same_duration t t'
       else dget (wire m) k = (if proto_zero v then None else Some v))"
  by (simp only: proto3_json_def)

lemma wire_field:
  assumes "proto3_json accepted durations wire" "accepted m" "k \<notin> durations"
  shows "dget (wire m) k = (case dget m k of None \<Rightarrow> None | Some v \<Rightarrow> if proto_zero v then None else Some v)"
  using proto3_jsonD[OF assms(1,2), of k] assms(3) by (cases "dget m k") simp_all

lemma wire_duration:
  assumes "proto3_json accepted durations wire" "accepted m" "k \<in> durations" "dget m k = Some (PStr t)"
  shows "\<exists>t'. dget (wire m) k = Some (PStr t') \<and> protobuf_duration_to_iso t' = protobuf_duration_to_iso t"
proof -
  obtain t' where "dget (wire m) k = Some (PStr t')" "same_duration t t'"
    using proto3_jsonD[OF assms(1,2), of k] assms(3,4) by auto
  then show ?thesis using same_duration_iso by blast
qed

lemma wire_absent:
  assumes "proto3_json accepted durations wire" "accepted m" "dget m k = None"
  shows "dget (wire m) k = None"
  using proto3_jsonD[OF assms(1,2), of k] assms(3) by simp

lemma conflict_there_and_back:
  assumes "proto_conflict c = Inr a"
  shows "job_conflict str_of (PStr a) = c"
  using assms by (auto simp: proto_conflict_def job_conflict_def CONFLICT_ACTIONS_def JOB_CONFLICT_ACTIONS_def py_str_def
      split: if_splits)

definition state_message :: "string \<Rightarrow> pyval" where
  "state_message s = PStr (''JOB_STATE_'' @ str_upper s)"

lemma proto_state_PStr [simp]: "proto_state str_of (PStr s) = state_message s"
  by (simp add: proto_state_def py_str_def state_message_def)

lemma state_there_and_back: "proto_job_state (state_message (state_value st)) = state_value st"
proof -
  have "str_lower (''JOB_STATE_'' @ str_upper (state_value st)) = ''job_state_'' @ state_value st"
    by (cases st; simp; code_simp)
  moreover have "state_value st \<noteq> ''unspecified''" by (cases st) simp_all
  ultimately show ?thesis by (simp add: proto_job_state_def state_message_def del: append_Cons)
qed

lemma states_there_and_back:
  assumes "\<forall>s \<in> set ss. parse_state s \<noteq> None"
  shows "map (\<lambda>s. PStr (proto_job_state (state_message s))) ss = map PStr ss"
proof (rule map_cong[OF refl])
  fix s assume "s \<in> set ss"
  then obtain st where "s = state_value st" using assms by (auto simp: parse_state_iff)
  then show "PStr (proto_job_state (state_message s)) = PStr s"
    using state_there_and_back[of st] by simp
qed

definition unique_grpc_ok :: "unique_policy \<Rightarrow> bool" where
  "unique_grpc_ok u \<longleftrightarrow> unique_wf u
     \<and> (case up_period u of None \<Rightarrow> True | Some p \<Rightarrow> canonical_duration p)
     \<and> list_all (\<lambda>s. parse_state s \<noteq> None) (up_states u)
     \<and> \<not> isl (proto_conflict (up_on_conflict u))
     \<and> up_args_keys u \<noteq> Some [] \<and> up_meta_keys u \<noteq> Some []"

lemma conv_str_simps [simp]:
  "conv_str f None = None"
  "conv_str f (Some (PStr s)) = Some (bindR (f s) (\<lambda>t. Inr (PStr t)))"
  by (simp_all add: conv_str_def)

lemma keep_if_simps [simp]:
  "keep_if p None = None"
  "keep_if p (Some w) = (if p w then Some (Inr w) else None)"
  by (simp_all add: keep_if_def)

lemma is_class_simps [simp]:
  "is_list (pstrs xs)" "is_list (PList ys)" "is_str (PStr s)" "is_int (PInt i)" "is_map (PDict d)" "is_bool (PBool b)"
  "is_number (PInt i)" "is_number (PFloat f)"
  by (simp_all add: is_list_def is_str_def is_int_def is_map_def is_bool_def is_number_def pstrs_def)

lemma nonempty_pstrs [simp]: "nonempty_list (pstrs xs) \<longleftrightarrow> xs \<noteq> []"
  by (simp add: nonempty_list_def) (simp add: pstrs_def)

lemma py_list_simps [simp]: "py_list (PList xs) = Inr xs" "py_list (pstrs ss) = Inr (map PStr ss)"
  by (simp_all add: py_list_def pstrs_def)

definition proto_policy :: "unique_policy \<Rightarrow> string option \<Rightarrow> string \<Rightarrow> pydict" where
  "proto_policy u t a = [(PStr ''key'', pstrs (up_keys u))]
     @ opt_entry (t \<noteq> None) ''period'' (opt_str t)
     @ [(PStr ''on_conflict'', PStr a),
        (PStr ''states'', PList (map state_message (up_states u)))]
     @ opt_entry (up_args_keys u \<noteq> None) ''args_keys'' (pstrs (the (up_args_keys u)))
     @ opt_entry (up_meta_keys u \<noteq> None) ''meta_keys'' (pstrs (the (up_meta_keys u)))"

definition json_policy :: "unique_policy \<Rightarrow> pydict" where
  "json_policy u = [(PStr ''key'', pstrs (up_keys u)), (PStr ''states'', pstrs (up_states u)),
      (PStr ''on_conflict'', PStr (up_on_conflict u))]
     @ opt_entry (up_period u \<noteq> None) ''period'' (opt_str (up_period u))
     @ opt_entry (up_args_keys u \<noteq> None) ''args_keys'' (pstrs (the (up_args_keys u)))
     @ opt_entry (up_meta_keys u \<noteq> None) ''meta_keys'' (pstrs (the (up_meta_keys u)))"

lemma proto_unique_policy:
  assumes "unique_wf u" "proto_conflict (up_on_conflict u) = Inr a"
    and t: "(case up_period u of None \<Rightarrow> t = None | Some p \<Rightarrow> \<exists>q. t = Some q \<and> iso_duration_to_protobuf p = Inr q)"
  shows "\<exists>d. unique_to_dict u = PDict d \<and> proto_unique str_of d = Inr (proto_policy u t a)"
proof -
  obtain d where d: "unique_to_dict u = PDict d" by (simp add: unique_to_dict_def)
  have "dget d ''key'' = Some (pstrs (up_keys u))" "dget d ''on_conflict'' = Some (PStr (up_on_conflict u))"
    "dget d ''states'' = Some (pstrs (up_states u))"
    "dget d ''period'' = map_option PStr (up_period u)"
    "dget d ''args_keys'' = map_option pstrs (up_args_keys u)"
    "dget d ''meta_keys'' = map_option pstrs (up_meta_keys u)"
    using d assms(1) by (auto simp: unique_to_dict_def unique_wf_def dget_append or_str_def opt_str_def split: option.splits)
  then have "proto_unique str_of d = Inr (proto_policy u t a)"
    using assms(2) t
    by (cases "up_period u"; cases "up_args_keys u"; cases "up_meta_keys u")
       (auto simp: proto_unique_def proto_policy_def proto_states_def pstrs_def opt_entry_def opt_str_def is_list_def)
  then show ?thesis using d by blast
qed

lemma proto_policy_fields:
  "dget (proto_policy u t a) ''key'' = Some (pstrs (up_keys u))"
  "dget (proto_policy u t a) ''period'' = map_option PStr t"
  "dget (proto_policy u t a) ''on_conflict'' = Some (PStr a)"
  "dget (proto_policy u t a) ''states'' = Some (PList (map state_message (up_states u)))"
  "dget (proto_policy u t a) ''args_keys'' = map_option pstrs (up_args_keys u)"
  "dget (proto_policy u t a) ''meta_keys'' = map_option pstrs (up_meta_keys u)"
  "dget (proto_policy u t a) k \<noteq> None \<Longrightarrow> k \<in> set UNIQUE_FIELDS"
  by (auto simp: proto_policy_def dget_append opt_str_def UNIQUE_FIELDS_def split: option.splits if_splits)

lemma str_list_pstrs [simp]: "str_list (pstrs xs)"
  by (simp add: str_list_def pstrs_def list_all_iff)

lemma proto_policy_accepted:
  assumes "unique_grpc_ok u" "proto_conflict (up_on_conflict u) = Inr a"
    and "case t of None \<Rightarrow> True | Some q \<Rightarrow> duration_value_ok (PStr q)"
  shows "unique_message (proto_policy u t a)"
proof -
  have "list_all (\<lambda>x. x \<in> (\<lambda>s. PStr (''JOB_STATE_'' @ str_upper (state_value s))) ` UNIV) (map state_message (up_states u))"
    using assms(1) by (auto simp: list_all_iff unique_grpc_ok_def state_message_def parse_state_iff image_iff)
  moreover have "PStr a \<in> PStr ` snd ` set CONFLICT_ACTIONS"
    using assms(2) by (auto simp: proto_conflict_def dest!: map_of_SomeD split: option.splits intro!: image_eqI)
  ultimately show ?thesis using assms(3) proto_policy_fields(7)[of u t a]
    unfolding unique_message_def opt_field_def proto_policy_fields(1-6)
    by (cases t; cases "up_args_keys u"; cases "up_meta_keys u") (simp_all del: map_map)
qed

lemma pstrs_zero: "proto_zero (pstrs xs) \<longleftrightarrow> xs = []" "proto_zero (PStr s) \<longleftrightarrow> s = []" "proto_zero (PList xs') \<longleftrightarrow> xs' = []"
  by (simp_all add: proto_zero_def pstrs_def)

lemma job_unique_policy:
  assumes "unique_grpc_ok u" "proto_conflict (up_on_conflict u) = Inr a"
    and t: "(case up_period u of None \<Rightarrow> t = None
      | Some p \<Rightarrow> \<exists>q. t = Some q \<and> duration_value_ok (PStr q) \<and> protobuf_duration_to_iso q = Inr p)"
    and wire: "unique_wire uw"
  shows "job_unique str_of (uw (proto_policy u t a)) = Inr (json_policy u)"
proof -
  let ?m = "proto_policy u t a"
  have "case t of None \<Rightarrow> True | Some q \<Rightarrow> duration_value_ok (PStr q)"
    using t by (auto split: option.splits)
  note acc = proto_policy_accepted[OF assms(1,2) this]
  note w = wire[unfolded unique_wire_def]
  have a: "a \<noteq> []" using assms(2) by (auto simp: proto_conflict_def CONFLICT_ACTIONS_def split: if_splits)
  have lists: "up_args_keys u \<noteq> Some []" "up_meta_keys u \<noteq> Some []" using assms(1) by (simp_all add: unique_grpc_ok_def)
  have fields: "dget_default (uw ?m) ''key'' (PList []) = pstrs (up_keys u)"
    "dget_default (uw ?m) ''states'' (PList []) = PList (map state_message (up_states u))"
    "dget_default (uw ?m) ''on_conflict'' (PStr []) = PStr a"
    "dget (uw ?m) ''args_keys'' = map_option pstrs (up_args_keys u)"
    "dget (uw ?m) ''meta_keys'' = map_option pstrs (up_meta_keys u)"
    using lists a by (auto simp: dget_default_def wire_field[OF w acc] proto_policy_fields pstrs_zero split: option.split)
      (simp_all add: pstrs_def)
  have period: "conv_str protobuf_duration_to_iso (dget (uw ?m) ''period'') = map_option (\<lambda>p. Inr (PStr p)) (up_period u)"
  proof (cases "up_period u")
    case None
    then show ?thesis using t wire_absent[OF w acc, of "''period''"] by (simp add: proto_policy_fields)
  next
    case (Some p)
    then obtain q where q: "t = Some q" "protobuf_duration_to_iso q = Inr p" using t by auto
    then show ?thesis using Some wire_duration[OF w acc, of "''period''" q] by (auto simp: proto_policy_fields)
  qed
  have states: "map (\<lambda>s. PStr (proto_job_state (state_message s))) (up_states u) = map PStr (up_states u)"
    using assms(1) by (intro states_there_and_back) (simp add: unique_grpc_ok_def list_all_iff)
  show ?thesis unfolding job_unique_def fields period
    using conflict_there_and_back[OF assms(2), of str_of] states lists
    by (cases "up_period u"; cases "up_args_keys u"; cases "up_meta_keys u")
       (simp_all add: json_policy_def opt_entry_def opt_str_def pstrs_def nonempty_list_def is_list_def comp_def)
qed

lemma json_policy_decodes:
  assumes "unique_wf u"
  shows "unique_from_dict (PDict (json_policy u)) = Inr u"
proof -
  let ?d = "\<lparr>dec_data = json_policy u, dec_path = ''unique''\<rparr>"
  have keys: "str_keys (json_policy u)" by (auto simp: json_policy_def opt_entry_def)
  have data: "dget (json_policy u) ''key'' = Some (pstrs (up_keys u))"
    "dget (json_policy u) ''states'' = Some (pstrs (up_states u))"
    "dget (json_policy u) ''args_keys'' = map_option pstrs (up_args_keys u)"
    "dget (json_policy u) ''meta_keys'' = map_option pstrs (up_meta_keys u)"
    "dget (json_policy u) ''period'' = map_option PStr (up_period u)"
    "dget (json_policy u) ''on_conflict'' = Some (PStr (up_on_conflict u))"
    by (auto simp: json_policy_def dget_append opt_str_def split: option.splits)
  have strs: "string_array ?d ''key'' x = Inr (up_keys u)" "string_array ?d ''states'' x = Inr (up_states u)"
    "\<And>xs. up_args_keys u = Some xs \<Longrightarrow> string_array ?d ''args_keys'' [] = Inr xs"
    "\<And>xs. up_meta_keys u = Some xs \<Longrightarrow> string_array ?d ''meta_keys'' [] = Inr xs" for x
    using data by (auto simp: string_array_Inr dget_default_def pstrs_def)
  then have "optional_string_array ?d ''args_keys'' = Inr (up_args_keys u)"
    "optional_string_array ?d ''meta_keys'' = Inr (up_meta_keys u)"
    using data by (cases "up_args_keys u"; cases "up_meta_keys u";
      auto simp: optional_string_array_def wire_value_def dget_default_def pstrs_def)+
  then show ?thesis using keys data strs(1,2) assms
    by (cases "up_period u")
      (auto simp: unique_from_dict_def unique_from_decoder_def wire_object_def wire_string_def
         dget_default_def or_str_def opt_str_def unique_wf_def)
qed

text \<open>Retry policies whose fields have the types of the message.\<close>

definition retry_grpc_ok :: "retry_policy \<Rightarrow> bool" where
  "retry_grpc_ok p \<longleftrightarrow> int32 (rp_max_attempts p) \<and> is_double (rp_backoff_coefficient p) \<and> is_bool (rp_jitter p)
     \<and> str_list (rp_non_retryable_errors p)
     \<and> (case rp_initial_interval p of PStr s \<Rightarrow> canonical_duration s | _ \<Rightarrow> False)
     \<and> (case rp_max_interval p of PStr s \<Rightarrow> canonical_duration s | _ \<Rightarrow> False)"

lemma retry_there_and_back:
  assumes "retry_grpc_ok p" and wire: "retry_wire rw"
  shows "\<exists>d m e. retry_to_dict p = PDict d \<and> proto_retry d = Inr m \<and> job_retry (rw m) = Inr e
    \<and> retry_from_dict e = p\<lparr>
        rp_max_attempts := (if rp_max_attempts p = PInt 0 then PInt 3 else rp_max_attempts p),
        rp_backoff_coefficient := (if rp_backoff_coefficient p = PFloat (Fin 0) then PFloat (Fin 2) else rp_backoff_coefficient p),
        rp_jitter := PBool True\<rparr>"
proof -
  obtain d where d: "retry_to_dict p = PDict d" by (simp add: retry_to_dict_def)
  obtain n c b i x errs where p: "rp_max_attempts p = PInt n" "rp_backoff_coefficient p = PFloat (Fin c)" "rp_jitter p = PBool b"
      "rp_initial_interval p = PStr i" "rp_max_interval p = PStr x" "rp_non_retryable_errors p = PList errs"
    and can: "canonical_duration i" "canonical_duration x" and errs: "str_list (PList errs)" and n: "int32 (PInt n)"
    using assms(1) by (auto simp: retry_grpc_ok_def int32_def is_double_def is_bool_def str_list_def split: pyval.splits pfloat.splits)
  obtain ti where ti: "iso_duration_to_protobuf i = Inr ti" "protobuf_duration_to_iso ti = Inr i" "duration_value_ok (PStr ti)"
    by (rule canonicalE[OF can(1)])
  obtain tx where tx: "iso_duration_to_protobuf x = Inr tx" "protobuf_duration_to_iso tx = Inr x" "duration_value_ok (PStr tx)"
    by (rule canonicalE[OF can(2)])
  have "dget d ''max_attempts'' = Some (PInt n)" "dget d ''initial_interval'' = Some (PStr i)"
    "dget d ''max_interval'' = Some (PStr x)" "dget d ''backoff_coefficient'' = Some (PFloat (Fin c))"
    "dget d ''jitter'' = Some (PBool b)" "dget d ''on_exhaustion'' = None"
    "dget d ''non_retryable_errors'' = (if errs = [] then None else Some (PList errs))"
    using d p by (auto simp: retry_to_dict_def)
  note dd = this
  define m where "m = [(PStr ''max_attempts'', PInt n), (PStr ''initial_interval'', PStr ti), (PStr ''max_interval'', PStr tx),
      (PStr ''backoff_coefficient'', PFloat (Fin c)), (PStr ''jitter'', PBool b)]
    @ opt_entry (errs \<noteq> []) ''non_retryable_errors'' (PList errs)"
  have "proto_retry d = Inr m"
    unfolding proto_retry_def dd by (cases "errs = []") (simp_all add: ti tx m_def opt_entry_def)
  then have m: "proto_retry d = Inr m" "dget m ''max_attempts'' = Some (PInt n)"
      "dget m ''initial_interval'' = Some (PStr ti)" "dget m ''max_interval'' = Some (PStr tx)"
      "dget m ''backoff_coefficient'' = Some (PFloat (Fin c))" "dget m ''jitter'' = Some (PBool b)"
      "dget m ''non_retryable_errors'' = (if errs = [] then None else Some (PList errs))" "dget m ''on_exhaustion'' = None"
      "\<forall>k. dget m k \<noteq> None \<longrightarrow> k \<in> set RETRY_FIELDS"
    by (simp_all add: m_def RETRY_FIELDS_def)
  have acc: "retry_message m" using m(2-9) ti(3) tx(3) errs n by (simp add: retry_message_def opt_field_def is_double_def)
  note w = wire[unfolded retry_wire_def]
  have fields: "dget (rw m) ''max_attempts'' = (if n = 0 then None else Some (PInt n))"
    "dget (rw m) ''backoff_coefficient'' = (if c = 0 then None else Some (PFloat (Fin c)))"
    "dget (rw m) ''jitter'' = (if b then Some (PBool True) else None)"
    "dget (rw m) ''non_retryable_errors'' = (if errs = [] then None else Some (PList errs))"
    by (simp_all add: wire_field[OF w acc] m proto_zero_def)
  obtain ti' tx' where durations: "dget (rw m) ''initial_interval'' = Some (PStr ti')" "protobuf_duration_to_iso ti' = Inr i"
      "dget (rw m) ''max_interval'' = Some (PStr tx')" "protobuf_duration_to_iso tx' = Inr x"
    using wire_duration[OF w acc _ m(3)] wire_duration[OF w acc _ m(4)] ti(2) tx(2) by auto
  define e where "e = opt_entry (n \<noteq> 0) ''max_attempts'' (PInt n) @ opt_entry (c \<noteq> 0) ''backoff_coefficient'' (PFloat (Fin c))
    @ opt_entry b ''jitter'' (PBool True) @ [(PStr ''initial_interval'', PStr i), (PStr ''max_interval'', PStr x)]
    @ opt_entry (errs \<noteq> []) ''non_retryable_errors'' (PList errs)"
  have "job_retry (rw m) = Inr e"
    unfolding job_retry_def fields durations
    by (cases "n = 0"; cases "c = 0"; cases b; cases "errs = []")
      (simp_all add: durations(2,4) nonempty_list_def e_def opt_entry_def)
  moreover have "dget e ''max_attempts'' = (if n = 0 then None else Some (PInt n))"
      "dget e ''backoff_coefficient'' = (if c = 0 then None else Some (PFloat (Fin c)))"
      "dget e ''jitter'' = (if b then Some (PBool True) else None)"
      "dget e ''initial_interval'' = Some (PStr i)" "dget e ''max_interval'' = Some (PStr x)"
      "dget e ''non_retryable_errors'' = (if errs = [] then None else Some (PList errs))"
    by (auto simp: e_def dget_append)
  ultimately show ?thesis using d m(1) p
    by (intro exI[of _ d] exI[of _ m] exI[of _ e]) (auto simp: retry_from_dict_def dget_default_def)
qed

text \<open>
  C30. What is left of a policy that is sent in an enqueue message, kept by the server and returned in a job
  message.  A uniqueness policy is decoded to the same policy: the projections agree on the duration, the
  conflict action and the state names, whatever the codec leaves out.  A retry policy is decoded to the
  same policy only but for its zero values, which the codec does not print: no attempts become three, a
  backoff coefficient of 0.0 becomes 2.0, and jitter is always on, also when it was switched off.  It
  holds for fields of the types of the messages, durations in the printed form, and key lists that are
  not empty (protobuf has no empty list).
\<close>

theorem policies_over_grpc:
  assumes "unique_grpc_ok u" and "retry_grpc_ok p" and "unique_wire uw" and "retry_wire rw"
  shows "(\<exists>d m e. unique_to_dict u = PDict d \<and> proto_unique str_of d = Inr m \<and> job_unique str_of (uw m) = Inr e
       \<and> unique_from_dict (PDict e) = Inr u)
    \<and> (\<exists>d m e. retry_to_dict p = PDict d \<and> proto_retry d = Inr m \<and> job_retry (rw m) = Inr e
       \<and> retry_from_dict e = p\<lparr>
           rp_max_attempts := (if rp_max_attempts p = PInt 0 then PInt 3 else rp_max_attempts p),
           rp_backoff_coefficient := (if rp_backoff_coefficient p = PFloat (Fin 0) then PFloat (Fin 2) else rp_backoff_coefficient p),
           rp_jitter := PBool True\<rparr>)"
proof -
  obtain a where a: "proto_conflict (up_on_conflict u) = Inr a"
    using assms(1) by (cases "proto_conflict (up_on_conflict u)") (auto simp: unique_grpc_ok_def)
  obtain t where t: "case up_period u of None \<Rightarrow> t = None
      | Some p \<Rightarrow> \<exists>q. t = Some q \<and> iso_duration_to_protobuf p = Inr q \<and> duration_value_ok (PStr q) \<and> protobuf_duration_to_iso q = Inr p"
  proof (cases "up_period u")
    case (Some p)
    then have "canonical_duration p" using assms(1) by (simp add: unique_grpc_ok_def)
    then show ?thesis using that Some by (auto elim!: canonicalE)
  qed (use that in auto)
  have "case up_period u of None \<Rightarrow> t = None | Some p \<Rightarrow> \<exists>q. t = Some q \<and> iso_duration_to_protobuf p = Inr q"
    "case up_period u of None \<Rightarrow> t = None
      | Some p \<Rightarrow> \<exists>q. t = Some q \<and> duration_value_ok (PStr q) \<and> protobuf_duration_to_iso q = Inr p"
    using t by (auto split: option.splits)
  then show ?thesis
    using proto_unique_policy[of u a t str_of] job_unique_policy[OF assms(1) a _ assms(3)] json_policy_decodes[of u] a assms(1)
      retry_there_and_back[OF assms(2,4)]
    unfolding unique_grpc_ok_def by blast
qed

text \<open>A wire of this kind: it drops the zero values and leaves the texts of durations as they are.\<close>

definition plain_wire :: "string list \<Rightarrow> string set \<Rightarrow> pydict \<Rightarrow> pydict" where
  "plain_wire names durations m = concat (map (\<lambda>k.
     opt_entry (case dget m k of None \<Rightarrow> False | Some v \<Rightarrow> k \<in> durations \<or> \<not> proto_zero v) k (the (dget m k))) names)"

lemma dget_entries:
  "dget (concat (map (\<lambda>k. opt_entry (P k) k (f k)) ks)) k = (if k \<in> set ks \<and> P k then Some (f k) else None)"
  by (induction ks) (auto simp: dget_append)

lemma plain_wire_json:
  assumes "\<And>m k. accepted m \<Longrightarrow> dget m k \<noteq> None \<Longrightarrow> k \<in> set names"
    and "\<And>m k. accepted m \<Longrightarrow> k \<in> durations \<Longrightarrow> opt_field duration_value_ok m k"
  shows "proto3_json accepted durations (plain_wire names durations)"
  unfolding proto3_json_def
proof (intro allI impI)
  fix m k assume m: "accepted m"
  show "case dget m k of None \<Rightarrow> dget (plain_wire names durations m) k = None
   | Some v \<Rightarrow> if k \<in> durations
       then \<exists>t t'. v = PStr t \<and> dget (plain_wire names durations m) k = Some (PStr t') \<and> same_duration t t'
       else dget (plain_wire names durations m) k = (if proto_zero v then None else Some v)"
  proof (cases "dget m k")
    case (Some v)
    then have k: "k \<in> set names" using assms(1)[OF m, of k] by simp
    have "\<exists>t. v = PStr t \<and> same_duration t t" if "k \<in> durations"
      using assms(2)[OF m that] Some
      by (auto simp: opt_field_def duration_value_ok_def same_duration_def split: pyval.splits option.splits)
    then show ?thesis using Some k by (simp add: plain_wire_def dget_entries) blast
  qed (simp add: plain_wire_def dget_entries)
qed

definition sample_unique :: unique_policy where
  "sample_unique = \<lparr>up_keys = [''type''], up_args_keys = None, up_meta_keys = None, up_period = Some ''PT1.5S'',
     up_states = [''active''], up_on_conflict = ''replace''\<rparr>"

lemma canonical_samples: "canonical_duration ''PT1.5S'' \<and> canonical_duration ''PT1S'' \<and> canonical_duration ''PT300S''"
  by code_simp

definition strict_policy :: retry_policy where
  "strict_policy = default_retry_policy\<lparr>rp_max_attempts := PInt 0, rp_max_interval := PStr ''PT300S'', rp_jitter := PBool False\<rparr>"

theorem policies_over_grpc_witness:
  "\<exists>d m e. retry_to_dict strict_policy = PDict d \<and> proto_retry d = Inr m
     \<and> job_retry (plain_wire RETRY_FIELDS {''initial_interval'', ''max_interval''} m) = Inr e
     \<and> retry_from_dict e = default_retry_policy\<lparr>rp_max_interval := PStr ''PT300S''\<rparr>"
proof -
  have u: "unique_grpc_ok sample_unique" and p: "retry_grpc_ok strict_policy"
    using canonical_samples by (simp_all add: unique_grpc_ok_def unique_wf_def sample_unique_def retry_grpc_ok_def
        default_retry_policy_def strict_policy_def proto_conflict_def CONFLICT_ACTIONS_def parse_state_def all_states_def
        int32_def is_double_def str_list_def)
  have uw: "unique_wire (plain_wire UNIQUE_FIELDS {''period''})"
    unfolding unique_wire_def by (rule plain_wire_json) (auto simp: unique_message_def)
  have rw: "retry_wire (plain_wire RETRY_FIELDS {''initial_interval'', ''max_interval''})"
    unfolding retry_wire_def by (rule plain_wire_json) (auto simp: retry_message_def)
  show ?thesis using policies_over_grpc[OF u p uw rw, of "\<lambda>_. []"]
    by (simp add: strict_policy_def default_retry_policy_def)
qed

subsection \<open>Requests are projected completely\<close>

definition proto_of :: "pydict \<Rightarrow> pydict" where
  "proto_of m = (case dget m ''options'' of Some (PDict o') \<Rightarrow> o' | _ \<Rightarrow> [])"

text \<open>A field of the message: what the conversion of what the request holds gives, or absent.\<close>

definition holds_field :: "pydict \<Rightarrow> string \<Rightarrow> (exn + pyval) option \<Rightarrow> bool" where
  "holds_field o' k r \<longleftrightarrow> (case r of None \<Rightarrow> dget o' k = None | Some (Inr v) \<Rightarrow> dget o' k = Some v | Some (Inl _) \<Rightarrow> False)"

lemma build_dict_holds:
  assumes "build_dict fs = Inr d" "distinct (map fst fs)" "(k, r) \<in> set fs"
  shows "holds_field d k r"
  using assms
proof (induction fs arbitrary: d)
  case (Cons f fs)
  obtain k' r' where f: "f = (k', r')" by (cases f)
  obtain d1 d2 where d: "field_entry k' r' = Inr d1" "build_dict fs = Inr d2" "d = d1 @ d2"
    using Cons.prems(1) f by (auto simp: bindR_eq_Inr_iff)
  show ?case
  proof (cases "k = k'")
    case True
    then have r: "r = r'" using Cons.prems f by (auto simp: image_iff)
    have "map_of (filter (\<lambda>(k, r). r \<noteq> None) fs) k' = None"
      using Cons.prems(2) f by (auto simp: map_of_eq_None_iff)
    then have "dget d2 k' = None" using build_dict_get[OF d(2), of k'] by simp
    then show ?thesis using d r True
      by (cases r') (auto simp: holds_field_def dget_append bindR_eq_Inr_iff)
  next
    case False
    then have "holds_field d2 k r" using Cons d(2) f by auto
    moreover have "dget d k = dget d2 k"
      using d False by (cases r') (auto simp: dget_append bindR_eq_Inr_iff)
    ultimately show ?thesis by (simp only: holds_field_def)
  qed
qed simp

lemma build_dict_holds_all:
  "build_dict fs = Inr d \<Longrightarrow> distinct (map fst fs) \<Longrightarrow> list_all (\<lambda>(k, r). holds_field d k r) fs"
  unfolding list_all_iff using build_dict_holds by fast

lemma project_enqueue_request:
  assumes "project_enqueue str_of isop now (request_to_dict r) = Inr m"
  shows "jr_type r \<noteq> [] \<and> or_str (jr_schema r) [] = []
    \<and> (\<exists>o'. proto_options str_of isop now (request_to_dict r) (request_options r) = Inr o' \<and> proto_of m = o'
        \<and> dget m ''type'' = Some (PStr (jr_type r)) \<and> dget m ''args'' = Some (PList (jr_args r)))"
proof -
  have src: "(case (case dget_default (request_to_dict r) ''options'' PNone of PNone \<Rightarrow> PDict [] | v \<Rightarrow> v) of
      PDict source \<Rightarrow> f source | _ \<Rightarrow> x) = f (request_options r)" for f :: "pydict \<Rightarrow> 'z" and x
    by (simp add: request_body)
  have schema: "or_str (jr_schema r) [] = []"
    using assms by (auto simp: project_enqueue_def request_body or_str_def opt_str_def split: if_splits option.splits)
  then show ?thesis
    using assms unfolding project_enqueue_def request_body(1,2,3) src
    by (auto simp: bindR_eq_Inr_iff proto_of_def split: if_splits)
qed

text \<open>
  C29. A request that can be sent has no schema, and its message carries all of it: type and arguments as they
  are, the queue unless it is the default one, a priority that is not zero, the timeout and the time to live as durations, the
  policies and the maximal number of attempts, the tags, the metadata and its trace id.
\<close>

theorem project_request_complete:
  assumes "project_enqueue str_of isop now (request_to_dict r) = Inr m"
  shows "or_str (jr_schema r) [] = [] \<and> dget m ''type'' = Some (PStr (jr_type r)) \<and> dget m ''args'' = Some (PList (jr_args r))
    \<and> list_all (\<lambda>(k, x). holds_field (proto_of m) k x)
       [(''queue'', if jr_queue r = ''default'' \<or> jr_queue r = [] then None else Some (Inr (PStr (jr_queue r)))),
        (''priority'', if jr_priority r = 0 then None else Some (Inr (PInt (jr_priority r)))),
        (''delay_until'', if or_str (jr_delay_until r) [] = [] then None else map_option (\<lambda>s. Inr (PStr s)) (jr_delay_until r)),
        (''timeout'', map_option (\<lambda>ms. map_sum id PStr (milliseconds_to_duration ms)) (jr_timeout_ms r)),
        (''ttl'', if or_str (jr_expires_at r) [] = [] then None
                 else map_option (\<lambda>s. map_sum id PStr (expiry_to_ttl isop now s)) (jr_expires_at r)),
        (''retry'', map_option (\<lambda>p. map_sum id PDict (proto_retry (the (as_dict (retry_to_dict p))))) (jr_retry r)),
        (''max_attempts'', case jr_retry r of None \<Rightarrow> None
            | Some p \<Rightarrow> if is_int (rp_max_attempts p) then Some (Inr (rp_max_attempts p)) else None),
        (''unique'', map_option (\<lambda>u. map_sum id PDict (proto_unique str_of (the (as_dict (unique_to_dict u))))) (jr_unique r)),
        (''tags'', case jr_tags r of None \<Rightarrow> None | Some ts \<Rightarrow> if ts = [] then None else Some (Inr (pstrs ts))),
        (''meta'', case jr_meta r of None \<Rightarrow> None | Some d \<Rightarrow> if d = [] then None else Some (Inr (PDict d))),
        (''trace_id'', case jr_meta r of None \<Rightarrow> None | Some d \<Rightarrow> map_option (\<lambda>s. Inr (PStr s)) (str_field d ''trace_id''))]"
proof -
  obtain o' where o': "proto_options str_of isop now (request_to_dict r) (request_options r) = Inr o'" "proto_of m = o'"
    and rest: "or_str (jr_schema r) [] = []" "dget m ''type'' = Some (PStr (jr_type r))" "dget m ''args'' = Some (PList (jr_args r))"
    using project_enqueue_request[OF assms] by blast
  have sum: "bindR x (\<lambda>t. Inr (f t)) = map_sum id f x" for x :: "exn + 'q" and f :: "'q \<Rightarrow> pyval"
    by (cases x) simp_all
  have policy: "\<exists>d. retry_to_dict p = PDict d \<and> dget d ''max_attempts'' = Some (rp_max_attempts p)" "\<exists>d. unique_to_dict u = PDict d" for p u
    by (simp_all add: retry_to_dict_def unique_to_dict_def)
  have opt: "keep_if is_str (map_option PStr x) = map_option (\<lambda>s. Inr (PStr s)) x"
    "conv_str f (map_option PStr x) = map_option (\<lambda>s. map_sum id PStr (f s)) x" for f x
    by (cases x; simp add: sum)+
  let ?b = "request_to_dict r" and ?s = "request_options r"
  have fields:
    "keep_if (\<lambda>v. is_str v \<and> truthy v) (get_or ?s ?b ''queue'')
       = (if jr_queue r = ''default'' \<or> jr_queue r = [] then None else Some (Inr (PStr (jr_queue r))))"
    "keep_if is_int (get_or ?s ?b ''priority'') = (if jr_priority r = 0 then None else Some (Inr (PInt (jr_priority r))))"
    "keep_if is_str (dget ?s ''delay_until'')
       = (if or_str (jr_delay_until r) [] = [] then None else map_option (\<lambda>s. Inr (PStr s)) (jr_delay_until r))"
    "conv_ms (dget ?s ''timeout_ms'') = map_option (\<lambda>ms. map_sum id PStr (milliseconds_to_duration ms)) (jr_timeout_ms r)"
    "conv_str (expiry_to_ttl isop now) (dget ?s ''expires_at'') = (if or_str (jr_expires_at r) [] = [] then None
                 else map_option (\<lambda>s. map_sum id PStr (expiry_to_ttl isop now s)) (jr_expires_at r))"
    "keep_if is_list (get_or ?s ?b ''tags'')
       = (case jr_tags r of None \<Rightarrow> None | Some ts \<Rightarrow> if ts = [] then None else Some (Inr (pstrs ts)))"
    "keep_if is_map (dget ?b ''meta'')
       = (case jr_meta r of None \<Rightarrow> None | Some d \<Rightarrow> if d = [] then None else Some (Inr (PDict d)))"
    by (simp_all add: get_or_def request_body request_option_fields conv_ms_def sum opt split: option.split)
  have policies:
    "sub_dict proto_retry (dget ?s ''retry'')
       = map_option (\<lambda>p. map_sum id PDict (proto_retry (the (as_dict (retry_to_dict p))))) (jr_retry r)"
    "keep_if is_int (dict_get ''max_attempts'' (dget ?s ''retry'')) = (case jr_retry r of None \<Rightarrow> None
            | Some p \<Rightarrow> if is_int (rp_max_attempts p) then Some (Inr (rp_max_attempts p)) else None)"
    using policy(1)
    by (auto simp: request_option_fields sub_dict_def dict_get_def sum retry_to_dict_def split: option.split)
  have unique: "sub_dict (proto_unique str_of) (dget ?s ''unique'')
       = map_option (\<lambda>u. map_sum id PDict (proto_unique str_of (the (as_dict (unique_to_dict u))))) (jr_unique r)"
    by (simp add: request_option_fields sub_dict_def sum unique_to_dict_def split: option.split)
  have trace: "keep_if is_str (dict_get ''trace_id'' (dget ?b ''meta''))
       = (case jr_meta r of None \<Rightarrow> None | Some d \<Rightarrow> map_option (\<lambda>s. Inr (PStr s)) (str_field d ''trace_id''))"
  proof -
    have "as_str v = None \<longleftrightarrow> (\<forall>y. v \<noteq> PStr y)" for v by (cases v) auto
    then show ?thesis
      by (auto simp: request_body dict_get_def str_field_def is_str_def keep_if_def split: option.split)
  qed
  note holds = build_dict_holds_all[OF o'(1)[unfolded proto_options_def fields policies unique trace]]
  show ?thesis
    using rest holds unfolding o'(2) list.pred_inject prod.case by simp
qed

definition sample_request :: job_request where
  "sample_request = (new_request ''mail.send'' [PInt 1])\<lparr>jr_queue := ''mail'', jr_timeout_ms := Some 1500\<rparr>"

lemma sample_request_sent: "\<not> isl (project_enqueue (\<lambda>_. []) (\<lambda>_. None) (NaiveDT 0) (request_to_dict sample_request))"
  by code_simp

lemma sample_timeout: "milliseconds_to_duration 1500 = Inr ''1.5s''"
  by code_simp

theorem project_request_complete_witness:
  "\<exists>m. project_enqueue (\<lambda>_. []) (\<lambda>_. None) (NaiveDT 0) (request_to_dict sample_request) = Inr m
     \<and> holds_field (proto_of m) ''timeout'' (Some (Inr (PStr ''1.5s'')))"
proof -
  obtain m where m: "project_enqueue (\<lambda>_. []) (\<lambda>_. None) (NaiveDT 0) (request_to_dict sample_request) = Inr m"
    using sample_request_sent by (cases "project_enqueue (\<lambda>_. []) (\<lambda>_. None) (NaiveDT 0) (request_to_dict sample_request)") simp_all
  show ?thesis
    using project_request_complete[OF m] m sample_timeout
    by (simp add: sample_request_def new_request_def)
qed

subsection \<open>Workflows keep their shape\<close>

lemma project_step_Inr:
  assumes "project_step str_of isop now defaults s = Inr m"
  shows "ws_schema s = None \<and> (case ws_options s of None \<Rightarrow> True | Some o' \<Rightarrow> dget_default o' ''callback_type'' PNone = PNone)
     \<and> dget m ''id'' = Some (PStr (ws_id s)) \<and> dget m ''type'' = Some (PStr (ws_type s))
     \<and> dget m ''args'' = Some (PList (ws_args s))
     \<and> dget m ''depends_on'' = (if ws_depends_on s = [] then None else Some (pstrs (ws_depends_on s)))"
proof -
  have none: "dget_default d k PNone = PNone \<longleftrightarrow> dget d k = None \<or> dget d k = Some PNone" for d k
    by (cases "dget d k") simp_all
  let ?o = "case ws_options s of None \<Rightarrow> [] | Some d \<Rightarrow> d"
  have guards: "ws_schema s = None" "dget_default ?o ''callback_type'' PNone = PNone"
    using assms by (auto simp: project_step_def Let_def split: if_splits)
  obtain p where p: "project_enqueue str_of isop now ([(PStr ''type'', PStr (ws_type s)), (PStr ''args'', PList (ws_args s)),
                 (PStr ''options'', PDict (merge_dict defaults ?o))]
                @ opt_entry (ws_meta s \<noteq> None) ''meta'' (opt_dict (ws_meta s))) = Inr p"
    and m: "m = [(PStr ''id'', PStr (ws_id s)), (PStr ''type'', dget_default p ''type'' PNone),
                (PStr ''args'', dget_default p ''args'' PNone)]
               @ opt_entry (ws_depends_on s \<noteq> []) ''depends_on'' (pstrs (ws_depends_on s))
               @ opt_entry (dhas p ''options'') ''options'' (dget_default p ''options'' PNone)"
    using assms guards by (auto simp: project_step_def Let_def bindR_eq_Inr_iff)
  have "dget p ''type'' = Some (PStr (ws_type s)) \<and> dget p ''args'' = Some (PList (ws_args s))"
    using p by (auto simp: project_enqueue_def dget_default_def bindR_eq_Inr_iff split: if_splits)
  then show ?thesis using guards unfolding m
    by (cases "ws_options s") (simp_all add: dget_append)
qed

text \<open>
  The gRPC message of a workflow has a step for each step of the definition, in order, with the same
  id, type, arguments and dependencies; and a batch with a callback is refused rather than sent as
  an unconditional step.
\<close>

theorem grpc_workflow_faithful:
  "(case project_workflow str_of isop now w of
      Inl _ \<Rightarrow> True
    | Inr m \<Rightarrow> \<exists>ms. m = [(PStr ''name'', PStr (wd_name w)), (PStr ''steps'', PList (map PDict ms))]
        \<and> list_all2 (\<lambda>s d. dget d ''id'' = Some (PStr (ws_id s)) \<and> dget d ''type'' = Some (PStr (ws_type s))
             \<and> dget d ''args'' = Some (PList (ws_args s))
             \<and> dget d ''depends_on'' = (if ws_depends_on s = [] then None else Some (pstrs (ws_depends_on s))))
            (wd_steps w) ms)
   \<and> (isl (project_workflow str_of isop now (workflow_batch n jobs on_complete on_success on_failure opts))
      \<or> (on_complete = None \<and> on_success = None \<and> on_failure = None))"
proof (intro conjI)
  show "case project_workflow str_of isop now w of Inl _ \<Rightarrow> True
    | Inr m \<Rightarrow> \<exists>ms. m = [(PStr ''name'', PStr (wd_name w)), (PStr ''steps'', PList (map PDict ms))]
        \<and> list_all2 (\<lambda>s d. dget d ''id'' = Some (PStr (ws_id s)) \<and> dget d ''type'' = Some (PStr (ws_type s))
             \<and> dget d ''args'' = Some (PList (ws_args s))
             \<and> dget d ''depends_on'' = (if ws_depends_on s = [] then None else Some (pstrs (ws_depends_on s))))
            (wd_steps w) ms"
    by (auto simp: project_workflow_def bindR_eq_Inr_iff mapR_Inr_iff elim!: list.rel_mono_strong
        dest!: project_step_Inr split: sum.split)
next
  let ?w = "workflow_batch n jobs on_complete on_success on_failure opts"
  show "isl (project_workflow str_of isop now ?w) \<or> (on_complete = None \<and> on_success = None \<and> on_failure = None)"
  proof (cases "project_workflow str_of isop now ?w")
    case (Inr m)
    have step: "\<And>s. s \<in> set (wd_steps ?w) \<Longrightarrow> case ws_options s of None \<Rightarrow> True | Some o' \<Rightarrow> dget_default o' ''callback_type'' PNone = PNone"
    proof -
      fix s assume s: "s \<in> set (wd_steps ?w)"
      obtain ms where "mapR (project_step str_of isop now (case wd_options ?w of None \<Rightarrow> [] | Some d \<Rightarrow> d)) (wd_steps ?w) = Inr ms"
        using Inr by (auto simp: project_workflow_def bindR_eq_Inr_iff)
      then obtain d where "project_step str_of isop now (case wd_options ?w of None \<Rightarrow> [] | Some d \<Rightarrow> d) s = Inr d"
        using s by (auto simp: mapR_Inr_iff list_all2_conv_all_nth in_set_conv_nth)
      then show "case ws_options s of None \<Rightarrow> True | Some o' \<Rightarrow> dget_default o' ''callback_type'' PNone = PNone"
        using project_step_Inr by blast
    qed
    have callback: "job = None" if "(t, job) \<in> set [(''on_complete'', on_complete), (''on_success'', on_success), (''on_failure'', on_failure)]" for t job
    proof (cases job)
      case (Some j)
      have "project_workflow_step t j (map step_name [0..<length jobs]) (Some t) \<in> set (wd_steps ?w)"
        using that Some by (auto simp: workflow_batch_def Let_def callback_step_def)
      from step[OF this] show ?thesis by (auto simp: project_workflow_step_def Let_def dget_default_def)
    qed
    show ?thesis
      using callback[of "''on_complete''" on_complete] callback[of "''on_success''" on_success]
        callback[of "''on_failure''" on_failure] by simp
  qed simp
qed

end
