(* ===== verification/Grpc_Paging.thy ===== *)
theory Grpc_Paging
  imports Effects Pyval
begin

section \<open>gRPC: offset pages over cursors\<close>

text \<open>
  \<open>src/ojs/transport/grpc/paging.py\<close>.  The client asks for an offset and a limit; the server hands out pages
  that end with a cursor.  \<open>collect_loop\<close> follows the cursors and need not end (a server may invent a new
  cursor for ever), so it is a partial function whose value \<open>None\<close> is not returning; \<open>offset_page_refines\<close>
  says it returns for every server that pages through a list.
\<close>

record offset_page =
  op_items :: "pyval list"
  op_total :: int
  op_next_cursor :: string

type_synonym 'w page_fetcher = "int \<Rightarrow> string \<Rightarrow> ('w, pydict) io"

text \<open>What one response holds: its items, the total (kept when the field is no number), the next cursor.\<close>

definition response_items :: "string \<Rightarrow> pydict \<Rightarrow> exn + pyval list" where
  "response_items items_key response = (case dget_default response items_key (PList []) of PList xs \<Rightarrow> Inr xs
     | _ \<Rightarrow> Inl (ValidationErr (''gRPC '' @ items_key @ '' response must be an array'')))"

definition response_total :: "pydict \<Rightarrow> int \<Rightarrow> exn + int" where
  "response_total response tot = (case dget_default response ''total_count'' (PInt tot) of
     PInt i \<Rightarrow> Inr i
   | PBool b \<Rightarrow> Inr (if b then 1 else 0)
   | PStr s \<Rightarrow> (case int_of_string s of Some i \<Rightarrow> Inr i
       | None \<Rightarrow> Inl (ValidationErr ''gRPC total_count response must be an integer''))
   | _ \<Rightarrow> Inr tot)"

definition response_cursor :: "pydict \<Rightarrow> string" where
  "response_cursor response = (case dget_default response ''next_cursor'' (PStr []) of PStr c \<Rightarrow> c | _ \<Rightarrow> [])"

text \<open>One turn: the items that are collected now, how many are still to be skipped, the total, the cursor.\<close>

definition absorb_page :: "string \<Rightarrow> int \<Rightarrow> int \<Rightarrow> pyval list \<Rightarrow> int \<Rightarrow> pydict \<Rightarrow> exn + int \<times> pyval list \<times> int \<times> string" where
  "absorb_page items_key limit skip collected tot response =
     bindR (response_items items_key response) (\<lambda>page.
     bindR (response_total response tot) (\<lambda>tot'.
       let skipped = min skip (int (length page));
           rest = drop (nat skipped) page in
       Inr (skip - skipped, collected @ take (nat (limit - int (length collected))) rest, tot', response_cursor response)))"

partial_function (option) collect_loop ::
  "'w page_fetcher \<Rightarrow> string \<Rightarrow> int \<Rightarrow> int \<Rightarrow> pyval list \<Rightarrow> string \<Rightarrow> int \<Rightarrow> string set \<Rightarrow> 'w
     \<Rightarrow> ((exn + offset_page) \<times> 'w) option" where
  "collect_loop fetch items_key limit skip collected cursor tot seen w =
     (case fetch (skip + (limit - int (length collected))) cursor w of
       (Inl e, w') \<Rightarrow> Some (Inl e, w')
     | (Inr response, w') \<Rightarrow>
       (case absorb_page items_key limit skip collected tot response of
         Inl e \<Rightarrow> Some (Inl e, w')
       | Inr (skip', collected', tot', next_cursor) \<Rightarrow>
           if limit \<le> int (length collected') \<or> next_cursor = []
           then Some (Inr \<lparr>op_items = collected', op_total = tot', op_next_cursor = next_cursor\<rparr>, w')
           else if next_cursor \<in> seen
           then Some (Inl (ValidationErr ''gRPC pagination returned a repeated cursor''), w')
           else collect_loop fetch items_key limit skip' collected' next_cursor tot' (insert next_cursor seen) w'))"

definition page_arguments :: "int \<Rightarrow> int \<Rightarrow> exn + unit" where
  "page_arguments limit offset = bindR (guardR (1 \<le> limit) (ValidationErr ''pagination limit must be at least 1'')) (\<lambda>_.
     guardR (0 \<le> offset) (ValidationErr ''pagination offset cannot be negative''))"

definition collect_offset_page ::
  "'w page_fetcher \<Rightarrow> string \<Rightarrow> int \<Rightarrow> int \<Rightarrow> 'w \<Rightarrow> ((exn + offset_page) \<times> 'w) option" where
  "collect_offset_page fetch items_key limit offset w = (case page_arguments limit offset of
     Inl e \<Rightarrow> Some (Inl e, w)
   | Inr _ \<Rightarrow> collect_loop fetch items_key limit offset [] [] 0 {} w)"

definition slice_offset_page :: "pyval list \<Rightarrow> int \<Rightarrow> int \<Rightarrow> exn + offset_page" where
  "slice_offset_page items limit offset = bindR (page_arguments limit offset) (\<lambda>_.
     Inr \<lparr>op_items = take (nat limit) (drop (nat offset) items), op_total = int (length items), op_next_cursor = []\<rparr>)"

subsection \<open>A server that pages through a list\<close>

text \<open>
  The contract of a paging server: a cursor stands for a position (the empty cursor for the start), a page
  has at most the items asked for, and is empty only at the end; the next cursor is the empty one exactly
  at the end, and it stands for the position after the page otherwise.  A \<open>counted\<close> server also says how
  many items there are.
\<close>

definition pages_through ::
  "bool \<Rightarrow> 'w page_fetcher \<Rightarrow> string \<Rightarrow> pyval list \<Rightarrow> (string \<Rightarrow> nat) \<Rightarrow> ('w \<Rightarrow> bool) \<Rightarrow> bool" where
  "pages_through counted fetch items_key items position ok \<longleftrightarrow> position [] = 0 \<and>
     (\<forall>w n c. ok w \<longrightarrow> 1 \<le> n \<longrightarrow> position c \<le> length items \<longrightarrow>
       (\<exists>r w' k. fetch n c w = (Inr r, w') \<and> ok w' \<and> int k \<le> n \<and> position c + k \<le> length items
          \<and> dget r items_key = Some (PList (take k (drop (position c) items)))
          \<and> (counted \<longrightarrow> dget r ''total_count'' = Some (PInt (int (length items))))
          \<and> (if position c + k = length items then response_cursor r = []
             else 0 < k \<and> response_cursor r \<noteq> [] \<and> position (response_cursor r) = position c + k)))"

text \<open>Such a server, that sends at most \<open>cap\<close> items at a time and whose cursors are decimal positions.\<close>

definition list_page :: "nat \<Rightarrow> string \<Rightarrow> pyval list \<Rightarrow> nat \<Rightarrow> nat \<Rightarrow> pydict" where
  "list_page cap items_key items k p =
     [(PStr items_key, PList (take k (drop p items))), (PStr ''total_count'', PInt (int (length items))),
      (PStr ''next_cursor'', PStr (if p + k = length items then [] else string_of_nat (p + k)))]"

definition list_server :: "nat \<Rightarrow> string \<Rightarrow> pyval list \<Rightarrow> nat page_fetcher" where
  "list_server cap items_key items n c w =
     (let p = nat_of_digits c; k = min (min (nat n) cap) (length items - p)
      in (Inr (list_page cap items_key items k p), w + 1))"

lemma list_page_fields:
  assumes "items_key \<noteq> ''total_count''" "items_key \<noteq> ''next_cursor''"
  shows "dget (list_page cap items_key items k p) items_key = Some (PList (take k (drop p items)))"
    "dget (list_page cap items_key items k p) ''total_count'' = Some (PInt (int (length items)))"
    "response_cursor (list_page cap items_key items k p) = (if p + k = length items then [] else string_of_nat (p + k))"
  using assms by (simp_all add: list_page_def response_cursor_def dget_default_def)

lemma list_server_pages:
  assumes "1 \<le> cap" "items_key \<noteq> ''total_count''" "items_key \<noteq> ''next_cursor''"
  shows "pages_through True (list_server cap items_key items) items_key items nat_of_digits (\<lambda>_. True)"
proof -
  have "\<exists>r w' k. list_server cap items_key items n c w = (Inr r, w') \<and> int k \<le> n \<and> nat_of_digits c + k \<le> length items
          \<and> dget r items_key = Some (PList (take k (drop (nat_of_digits c) items)))
          \<and> dget r ''total_count'' = Some (PInt (int (length items)))
          \<and> (if nat_of_digits c + k = length items then response_cursor r = []
             else 0 < k \<and> response_cursor r \<noteq> [] \<and> nat_of_digits (response_cursor r) = nat_of_digits c + k)"
    if "1 \<le> n" "nat_of_digits c \<le> length items" for w n c
  proof -
    let ?k = "min (min (nat n) cap) (length items - nat_of_digits c)"
    have k: "int ?k \<le> n" "nat_of_digits c + ?k \<le> length items" "nat_of_digits c + ?k \<noteq> length items \<Longrightarrow> 0 < ?k"
      using that assms(1) by auto
    show ?thesis
      by (rule exI[of _ "list_page cap items_key items ?k (nat_of_digits c)"], rule exI[of _ "w + 1"], rule exI[of _ ?k])
        (use k list_page_fields[OF assms(2,3)] in \<open>simp add: list_server_def Let_def\<close>)
  qed
  then show ?thesis by (simp add: pages_through_def) (simp add: nat_of_digits_def)
qed

text \<open>From position \<open>p\<close> the loop collects what is missing of the page, and every cursor it has seen stands for
  an earlier position.\<close>

lemma collect_loop_page:
  assumes "pages_through True fetch items_key items position ok"
    and "ok w" "position c \<le> length items" "0 \<le> skip" "int (length got) < limit"
    and "\<forall>s \<in> seen. position s \<le> position c"
  shows "\<exists>w' nc. collect_loop fetch items_key limit skip got c tot seen w
     = Some (Inr \<lparr>op_items = got @ take (nat limit - length got) (drop (position c + nat skip) items),
         op_total = int (length items), op_next_cursor = nc\<rparr>, w') \<and> ok w'"
  using assms(2-)
proof (induction "length items - position c" arbitrary: c skip got tot seen w rule: less_induct)
  case less
  define n where "n = skip + (limit - int (length got))"
  have n: "1 \<le> n" using less.prems by (simp add: n_def)
  obtain r w' k where r: "fetch n c w = (Inr r, w')" "ok w'" "int k \<le> n" "position c + k \<le> length items"
    and page: "dget r items_key = Some (PList (take k (drop (position c) items)))"
      "dget r ''total_count'' = Some (PInt (int (length items)))"
    and cur: "if position c + k = length items then response_cursor r = []
             else 0 < k \<and> response_cursor r \<noteq> [] \<and> position (response_cursor r) = position c + k"
    using assms(1) less.prems(1,2) n unfolding pages_through_def by blast
  define s where "s = min skip (int k)"
  define a where "a = k - nat skip"
  define q where "q = position c + nat skip"
  define got' where "got' = got @ take a (drop q items)"
  have need: "int a \<le> limit - int (length got)" using r(3) less.prems(3,4) by (simp add: a_def n_def)
  have len: "length (take k (drop (position c) items)) = k" using r(4) by simp
  have s: "0 \<le> s" "s \<le> skip" "nat s \<le> k" using less.prems(3) by (auto simp: s_def)
  have q': "position c + k + nat (skip - s) = q + a"
    using less.prems(3) by (simp add: q_def a_def s_def min_def) arith
  have "take (nat (limit - int (length got))) (drop (nat s) (take k (drop (position c) items))) = take a (drop q items)"
  proof (cases "skip \<le> int k")
    case True
    then have "min (nat (limit - int (length got))) a = a" using need by (simp add: min_def) arith
    then show ?thesis using True by (simp add: s_def drop_take a_def q_def add.commute)
  next
    case False
    then show ?thesis by (simp add: s_def a_def)
  qed
  moreover define pg where "pg = take k (drop (position c) items)"
  ultimately have "take (nat (limit - int (length got))) (drop (nat s) pg) = take a (drop q items)"
    "dget r items_key = Some (PList pg)" "min skip (int (length pg)) = s"
    using page(1) len by (simp_all add: s_def)
  then have absorb: "absorb_page items_key limit skip got tot r = Inr (skip - s, got', int (length items), response_cursor r)"
    using page(2) by (simp add: absorb_page_def response_items_def response_total_def dget_default_def Let_def got'_def)
  have len': "length got' = length got + a" using r(4) by (simp add: got'_def q_def a_def)
  have step: "collect_loop fetch items_key limit skip got c tot seen w =
      (if limit \<le> int (length got') \<or> response_cursor r = []
       then Some (Inr \<lparr>op_items = got', op_total = int (length items), op_next_cursor = response_cursor r\<rparr>, w')
       else if response_cursor r \<in> seen
       then Some (Inl (ValidationErr ''gRPC pagination returned a repeated cursor''), w')
       else collect_loop fetch items_key limit (skip - s) got' (response_cursor r) (int (length items))
              (insert (response_cursor r) seen) w')"
    using r(1) absorb by (subst collect_loop.simps) (simp add: n_def)
  show ?case
  proof (cases "limit \<le> int (length got') \<or> response_cursor r = []")
    case True
    have "take (nat limit - length got) (drop q items) = take a (drop q items)"
    proof (cases "limit \<le> int (length got')")
      case True
      then have "nat limit - length got = a" using need len' by linarith
      then show ?thesis by simp
    next
      case False
      then have "position c + k = length items" using True cur by (auto split: if_splits)
      then have short: "length (drop q items) \<le> a" by (simp add: q_def a_def)
      moreover have "a \<le> nat limit - length got" using need by linarith
      ultimately show ?thesis by (simp add: take_all)
    qed
    then show ?thesis using True step r(2) by (auto simp: got'_def q_def)
  next
    case False
    then have more: "0 < k" "position (response_cursor r) = position c + k" using cur by (auto split: if_splits)
    then have "response_cursor r \<notin> seen" using less.prems(5) by fastforce
    then have next_: "collect_loop fetch items_key limit skip got c tot seen w =
        collect_loop fetch items_key limit (skip - s) got' (response_cursor r) (int (length items))
          (insert (response_cursor r) seen) w'"
      using False step by simp
    have "length items - position (response_cursor r) < length items - position c" using more r(4) by simp
    moreover have "position (response_cursor r) \<le> length items" "0 \<le> skip - s" "int (length got') < limit"
      "\<forall>x \<in> insert (response_cursor r) seen. position x \<le> position (response_cursor r)"
      using more r(4) s(2) False less.prems(5) by auto
    ultimately obtain w'' nc where "collect_loop fetch items_key limit skip got c tot seen w
        = Some (Inr \<lparr>op_items = got' @ take (nat limit - length got') (drop (q + a) items),
            op_total = int (length items), op_next_cursor = nc\<rparr>, w'')" "ok w''"
      using less.hyps[of "response_cursor r" w' "skip - s" got'] r(2) q' more(2) unfolding next_ by metis
    moreover have "take a (drop q items) @ take (nat limit - length got') (drop (q + a) items)
        = take (nat limit - length got) (drop q items)"
      using need len' by (simp add: take_add[symmetric] add.commute flip: drop_drop)
    ultimately show ?thesis by (auto simp: got'_def q_def)
  qed
qed

text \<open>
  C11. The cursor pagination implements the slice: for every server that pages through a list the collection
  returns, and gives exactly the items and the total that slicing the whole list gives, whatever the sizes
  of the server's pages.
\<close>

theorem offset_page_refines:
  assumes "pages_through True fetch items_key items position ok" and "ok w" "1 \<le> limit" "0 \<le> offset"
  shows "\<exists>page w' slice. collect_offset_page fetch items_key limit offset w = Some (Inr page, w') \<and> ok w'
     \<and> slice_offset_page items limit offset = Inr slice
     \<and> op_items page = op_items slice \<and> op_total page = op_total slice"
proof -
  have "position [] = 0" using assms(1) by (simp add: pages_through_def)
  then obtain w' nc where "collect_loop fetch items_key limit offset [] [] 0 {} w
     = Some (Inr \<lparr>op_items = take (nat limit) (drop (nat offset) items), op_total = int (length items), op_next_cursor = nc\<rparr>, w')"
    "ok w'"
    using collect_loop_page[OF assms(1,2), of "[]" offset "[]" limit "{}" 0] assms(3,4) by auto
  then show ?thesis using assms(3,4) by (simp add: collect_offset_page_def slice_offset_page_def page_arguments_def)
qed

theorem offset_page_refines_witness:
  "\<exists>page w' slice. collect_offset_page (list_server 2 ''jobs'' [PInt 1, PInt 2, PInt 3, PInt 4]) ''jobs'' 2 1 0 = Some (Inr page, w')
     \<and> slice_offset_page [PInt 1, PInt 2, PInt 3, PInt 4] 2 1 = Inr slice \<and> op_items page = op_items slice"
proof -
  have "pages_through True (list_server 2 ''jobs'' [PInt 1, PInt 2, PInt 3, PInt 4]) ''jobs'' [PInt 1, PInt 2, PInt 3, PInt 4] nat_of_digits (\<lambda>_. True)"
    by (rule list_server_pages) simp_all
  from offset_page_refines[OF this, where w = 0 and limit = 2 and offset = 1] show ?thesis by fastforce
qed

end
