(* ===== verification/Grpc_Transport.thy ===== *)
theory Grpc_Transport
  imports Grpc_Errors Grpc_Projection Grpc_Paging Queues_Events Effects
begin

section \<open>gRPC: the transport\<close>

text \<open>
  \<open>src/ojs/transport/grpc/transport.py\<close> and \<open>worker_lease.py\<close>: the operations of \<open>GrpcTransport\<close> over a
  stub that sends one message and gives one answer.  The stub (channel, codec and generated descriptors) and
  the server are a function of the method and the request that acts on a world \<open>'w\<close>; messages are protobuf
  JSON.
\<close>

subsection \<open>Calls\<close>

datatype stub_failure = Rpc_failed rpc_error | Stub_raised exn

record 'w grpc_client =
  gc_stub :: "string \<Rightarrow> pydict \<Rightarrow> 'w \<Rightarrow> (stub_failure + pyval) \<times> 'w"
  gc_env :: grpc_env
  gc_str_exn :: "exn \<Rightarrow> string"
  gc_str :: "pyval \<Rightarrow> string"
  gc_isop :: "string \<Rightarrow> pydatetime option"
  gc_now :: "'w \<Rightarrow> pydatetime"

definition is_import_or_ojs :: "exn \<Rightarrow> bool" where
  "is_import_or_ojs e \<longleftrightarrow> is_ojs_error e \<or> (case e of UserErr c _ \<Rightarrow> c = ''ImportError'' | _ \<Rightarrow> False)"

definition grpc_call :: "'w grpc_client \<Rightarrow> string \<Rightarrow> pydict \<Rightarrow> ('w, pydict) io" where
  "grpc_call g meth request = (\<lambda>w. case gc_stub g meth request w of
     (Inl (Rpc_failed err), w') \<Rightarrow> (Inl (map_grpc_error (gc_env g) err), w')
   | (Inl (Stub_raised e), w') \<Rightarrow>
       (Inl (if is_import_or_ojs e \<or> \<not> is_exception e then e
             else ConnectionErr (''gRPC call '' @ meth @ '' failed: '' @ gc_str_exn g e)), w')
   | (Inr (PDict d), w') \<Rightarrow> (Inr d, w')
   | (Inr _, w') \<Rightarrow> (Inl (ConnectionErr (''gRPC call '' @ meth @ '' returned a non-object response'')), w'))"

subsection \<open>Protobuf values\<close>

fun to_proto_value :: "(pyval \<Rightarrow> string) \<Rightarrow> pyval \<Rightarrow> pyval" where
  "to_proto_value str_of PNone = PDict [(PStr ''null_value'', PInt 0)]"
| "to_proto_value str_of (PStr s) = PDict [(PStr ''string_value'', PStr s)]"
| "to_proto_value str_of (PBool b) = PDict [(PStr ''bool_value'', PBool b)]"
| "to_proto_value str_of (PInt i) = PDict [(PStr ''number_value'', PInt i)]"
| "to_proto_value str_of (PFloat f) = PDict [(PStr ''number_value'', PFloat f)]"
| "to_proto_value str_of (PList xs) =
     PDict [(PStr ''list_value'', PDict [(PStr ''values'', PList (map (to_proto_value str_of) xs))])]"
| "to_proto_value str_of (PDict d) =
     PDict [(PStr ''struct_value'', PDict [(PStr ''fields'', PDict (map (\<lambda>(k, v). (k, to_proto_value str_of v)) d))])]"
| "to_proto_value str_of v = PDict [(PStr ''string_value'', PStr (str_of v))]"

lemma dget_size: "dget d k = Some v \<Longrightarrow> size v < size (PDict d)"
proof -
  assume "dget d k = Some v"
  then have m: "(PStr k, v) \<in> set d" by (auto simp: dget_def dest: map_of_SomeD)
  then have "size v < Suc (size_list (size_prod size size) d)"
    by (induction d) auto
  then show ?thesis by simp
qed

text \<open>\<open>_from_proto_value\<close>: the first key of a value message decides; other values are left as they are.\<close>

function (sequential) from_proto_value :: "pyval \<Rightarrow> exn + pyval" where
  "from_proto_value (PDict d) =
     (if d = [] then Inr (PDict d)
      else case dget d ''string_value'' of Some v \<Rightarrow> Inr v
      | None \<Rightarrow> (case dget d ''number_value'' of Some v \<Rightarrow> Inr v
      | None \<Rightarrow> (case dget d ''bool_value'' of Some v \<Rightarrow> Inr v
      | None \<Rightarrow> if dhas d ''null_value'' then Inr PNone
        else (case dget d ''list_value'' of
            Some (PDict l) \<Rightarrow> (case dget_default l ''values'' (PList []) of
                PList xs \<Rightarrow> bindR (mapR from_proto_value xs) (\<lambda>ys. Inr (PList ys))
              | v \<Rightarrow> bindR (py_list v) (\<lambda>ys. Inr (PList ys)))
          | Some _ \<Rightarrow> Inl (UserErr ''AttributeError'' ''get'')
          | None \<Rightarrow> (case dget d ''struct_value'' of
              Some (PDict s) \<Rightarrow> (case dget_default s ''fields'' (PDict []) of
                  PDict fs \<Rightarrow> bindR (mapR (\<lambda>(k, v). bindR (from_proto_value v) (\<lambda>w. Inr (k, w))) fs) (\<lambda>ys. Inr (PDict ys))
                | _ \<Rightarrow> Inl (UserErr ''AttributeError'' ''items''))
            | Some _ \<Rightarrow> Inl (UserErr ''AttributeError'' ''get'')
            | None \<Rightarrow> Inr (PDict d))))))"
| "from_proto_value v = Inr v"
  by pat_completeness auto

lemma nested_size:
  assumes "dget d k = Some (PDict l)" "dget_default l k' x = v" "v \<noteq> x"
  shows "size v < size (PDict d)"
proof -
  have "dget l k' = Some v" using assms(2,3) by (cases "dget l k'") simp_all
  then show ?thesis using dget_size[OF assms(1)] dget_size[of l k' v] by simp
qed

lemma size_in_list: "x \<in> set xs \<Longrightarrow> size x < size (PList xs)"
  by (induction xs) auto

lemma size_in_dict: "(k, v) \<in> set fs \<Longrightarrow> size v < size (PDict fs)"
  by (induction fs) auto

termination from_proto_value
proof (relation "measure size")
  fix d s fs :: pydict and sv p k v
  assume "dget d ''struct_value'' = Some sv" "sv = PDict s" "dget_default s ''fields'' (PDict []) = PDict fs"
    "p \<in> set fs" "(k, v) = p"
  moreover from this have "PDict fs \<noteq> PDict []" by auto
  ultimately show "(v, PDict d) \<in> measure size"
    using nested_size[of d "''struct_value''" s "''fields''"] size_in_dict[of k v fs] by fastforce
next
  fix d l :: pydict and lv x xs
  assume "dget d ''list_value'' = Some lv" "lv = PDict l" "dget_default l ''values'' (PList []) = PList xs" "x \<in> set xs"
  moreover from this have "PList xs \<noteq> PList []" by auto
  ultimately show "(x, PDict d) \<in> measure size"
    using nested_size[of d "''list_value''" l "''values''"] size_in_list[of x xs] by fastforce
qed simp

text \<open>JSON values: what a decoder of JSON makes.\<close>

fun json_value :: "pyval \<Rightarrow> bool" where
  "json_value (PBytes _) = False"
| "json_value (PDatetime _) = False"
| "json_value (PList xs) = list_all json_value xs"
| "json_value (PDict d) = list_all (\<lambda>(k, v). str_key k \<and> json_value v) d"
| "json_value _ = True"

lemma mapR_id: "(\<And>x. x \<in> set xs \<Longrightarrow> f (g x) = Inr x) \<Longrightarrow> mapR f (map g xs) = Inr xs"
  by (induction xs) auto

lemma proto_value_back: "json_value v \<Longrightarrow> from_proto_value (to_proto_value str_of v) = Inr v"
proof (induction v rule: to_proto_value.induct)
  case (6 str_of xs)
  then have "mapR from_proto_value (map (to_proto_value str_of) xs) = Inr xs"
    by (intro mapR_id) (simp add: list_all_iff)
  then show ?case by (simp add: dhas_def dget_default_def)
next
  case (7 str_of d)
  have "mapR (\<lambda>(k, v). bindR (from_proto_value v) (\<lambda>w. Inr (k, w))) (map (\<lambda>(k, v). (k, to_proto_value str_of v)) d) = Inr d"
    using 7 by (intro mapR_id) (force simp: list_all_iff)
  then show ?case by (simp add: dhas_def dget_default_def)
qed (simp_all add: dhas_def)

text \<open>
  Every JSON value survives the two converters of protobuf values.
\<close>

theorem proto_value_roundtrip:
  assumes "json_value v"
  shows "from_proto_value (to_proto_value str_of v) = Inr v"
  using assms by (rule proto_value_back)

theorem proto_value_roundtrip_witness:
  "from_proto_value (to_proto_value (\<lambda>_. []) (PDict [(PStr ''string_value'', PList [PNone, PInt 3])]))
     = Inr (PDict [(PStr ''string_value'', PList [PNone, PInt 3])])"
  by (rule proto_value_roundtrip) simp

subsection \<open>Worker leases\<close>

definition DEFAULT_FETCH_VISIBILITY_TIMEOUT_MS :: int where
  "DEFAULT_FETCH_VISIBILITY_TIMEOUT_MS = 30000"

definition fetch_request :: "string list \<Rightarrow> int \<Rightarrow> string option \<Rightarrow> int \<Rightarrow> exn + pydict" where
  "fetch_request queues count worker_id visibility_timeout_ms =
     (if visibility_timeout_ms \<noteq> DEFAULT_FETCH_VISIBILITY_TIMEOUT_MS
      then Inl (CapabilityErr (''The canonical OJS v1 gRPC FetchRequest cannot carry a custom ''
             @ ''visibility timeout; use HTTP transport or the 30000ms default.''))
      else Inr ([(PStr ''queues'', pstrs queues), (PStr ''count'', PInt count)]
             @ opt_entry (or_str worker_id [] \<noteq> []) ''worker_id'' (opt_str worker_id)))"

definition heartbeat_request :: "string \<Rightarrow> int option \<Rightarrow> string \<Rightarrow> exn + pydict" where
  "heartbeat_request worker_id visibility_timeout_ms lease_id =
     (let base = [(PStr ''id'', PStr lease_id), (PStr ''worker_id'', PStr worker_id),
                  (PStr ''current_state'', PStr ''WORKER_STATE_RUNNING'')] in
      case visibility_timeout_ms of None \<Rightarrow> Inr base
      | Some ms \<Rightarrow> bindR (milliseconds_to_duration ms) (\<lambda>t. Inr (base @ [(PStr ''extend_by'', PStr t)])))"

definition heartbeat_requests :: "string \<Rightarrow> string list option \<Rightarrow> int option \<Rightarrow> exn + pydict list" where
  "heartbeat_requests worker_id active_jobs visibility_timeout_ms =
     (let ids = (case active_jobs of None \<Rightarrow> [] | Some js \<Rightarrow> js);
          ids' = (if ids = [] then [worker_id] else ids)
      in mapR (heartbeat_request worker_id visibility_timeout_ms) ids')"

definition state_priority :: "string \<Rightarrow> nat option" where
  "state_priority s = map_of [(''running'', 0), (''quiet'', 1), (''terminate'', 2)] s"

definition directed_state :: "(pyval \<Rightarrow> string) \<Rightarrow> pydict \<Rightarrow> string" where
  "directed_state str_of response =
     remove_prefix (str_lower (py_str str_of (dget_default response ''directed_state'' (PStr ''WORKER_STATE_RUNNING''))))
       ''worker_state_''"

definition stronger :: "string \<Rightarrow> string \<Rightarrow> string" where
  "stronger selected state =
     (if (case state_priority state of Some n \<Rightarrow> n | None \<Rightarrow> 0) > (case state_priority selected of Some n \<Rightarrow> n | None \<Rightarrow> 0)
      then state else selected)"

definition aggregate_heartbeat_states :: "(pyval \<Rightarrow> string) \<Rightarrow> pydict list \<Rightarrow> string" where
  "aggregate_heartbeat_states str_of responses = foldl (\<lambda>selected r. stronger selected (directed_state str_of r)) ''running'' responses"

subsection \<open>Job operations\<close>

definition from_proto_args :: "pydict \<Rightarrow> exn + pydict" where
  "from_proto_args d = bindR (py_list (dget_default d ''args'' (PList []))) (\<lambda>xs.
     bindR (mapR from_proto_value xs) (\<lambda>ys. Inr (dset d ''args'' (PList ys))))"

definition from_proto_job :: "(pyval \<Rightarrow> string) \<Rightarrow> pyval \<Rightarrow> exn + pydict" where
  "from_proto_job str_of v = (case v of
     PDict d \<Rightarrow> bindR (from_proto_args d) (\<lambda>d'. project_job str_of (PDict d'))
   | _ \<Rightarrow> project_job str_of v)"

definition decode_job :: "'w grpc_client \<Rightarrow> pyval \<Rightarrow> exn + job" where
  "decode_job g v = bindR (from_proto_job (gc_str g) v) (\<lambda>d. job_from_dict (gc_isop g) (PDict d))"

definition decode_jobs :: "'w grpc_client \<Rightarrow> pyval \<Rightarrow> exn + job list" where
  "decode_jobs g v = bindR (py_list v) (mapR (decode_job g))"

definition job_call :: "'w grpc_client \<Rightarrow> string \<Rightarrow> pydict \<Rightarrow> ('w, job) io" where
  "job_call g meth request = bindIO (grpc_call g meth request) (\<lambda>r.
     liftIO (decode_job g (dget_default r ''job'' (PDict []))))"

definition project_body :: "'w grpc_client \<Rightarrow> pydict \<Rightarrow> ('w, pydict) io" where
  "project_body g body = (\<lambda>w. (project_enqueue (gc_str g) (gc_isop g) (gc_now g w) body, w))"

definition grpc_push :: "'w grpc_client \<Rightarrow> pydict \<Rightarrow> ('w, job) io" where
  "grpc_push g body = bindIO (project_body g body) (job_call g ''Enqueue'')"

definition grpc_push_batch :: "'w grpc_client \<Rightarrow> pydict list \<Rightarrow> ('w, job list) io" where
  "grpc_push_batch g jobs = bindIO (mapIO (project_body g) jobs) (\<lambda>entries.
     bindIO (grpc_call g ''EnqueueBatch'' [(PStr ''jobs'', PList (map PDict entries))]) (\<lambda>r.
       liftIO (decode_jobs g (dget_default r ''jobs'' (PList [])))))"

definition job_id_request :: "string \<Rightarrow> pydict" where
  "job_id_request job_id = [(PStr ''job_id'', PStr job_id)]"

definition grpc_info :: "'w grpc_client \<Rightarrow> string \<Rightarrow> ('w, job) io" where
  "grpc_info g job_id = job_call g ''GetJob'' (job_id_request job_id)"

definition grpc_cancel :: "'w grpc_client \<Rightarrow> string \<Rightarrow> ('w, job) io" where
  "grpc_cancel g job_id = job_call g ''CancelJob'' (job_id_request job_id)"

subsection \<open>Worker operations\<close>

definition grpc_fetch :: "'w grpc_client \<Rightarrow> string list \<Rightarrow> int \<Rightarrow> string option \<Rightarrow> int \<Rightarrow> ('w, job list) io" where
  "grpc_fetch g queues count worker_id visibility_timeout_ms =
     bindIO (liftIO (fetch_request queues count worker_id visibility_timeout_ms)) (\<lambda>request.
     bindIO (grpc_call g ''Fetch'' request) (\<lambda>r. liftIO (decode_jobs g (dget_default r ''jobs'' (PList [])))))"

definition grpc_ack :: "'w grpc_client \<Rightarrow> string \<Rightarrow> pyval \<Rightarrow> ('w, pyval) io" where
  "grpc_ack g job_id result =
     bindIO (grpc_call g ''Ack'' (job_id_request job_id @ opt_entry (result \<noteq> PNone) ''result'' result)) (\<lambda>r.
       retIO (PDict [(PStr ''acknowledged'', dget_default r ''acknowledged'' (PBool False))]))"

text \<open>\<open>_map_job_state\<close>; replacing the prefix by the empty string removes every occurrence of it.\<close>

function str_delete :: "string \<Rightarrow> string \<Rightarrow> string" where
  "str_delete p s = (if p = [] \<or> s = [] then s
     else if starts_with s p then str_delete p (drop (length p) s)
     else hd s # str_delete p (tl s))"
  by pat_completeness auto

termination
  by (relation "measure (\<lambda>(p, s). length s)") auto

declare str_delete.simps [simp del]

definition JOB_STATE_MAP :: "(string \<times> string) list" where
  "JOB_STATE_MAP = [(''JOB_STATE_SCHEDULED'', ''scheduled''), (''JOB_STATE_AVAILABLE'', ''available''),
     (''JOB_STATE_PENDING'', ''pending''), (''JOB_STATE_ACTIVE'', ''active''), (''JOB_STATE_COMPLETED'', ''completed''),
     (''JOB_STATE_RETRYABLE'', ''retryable''), (''JOB_STATE_CANCELLED'', ''cancelled''),
     (''JOB_STATE_DISCARDED'', ''discarded'')]"

definition map_job_state :: "pyval \<Rightarrow> exn + string" where
  "map_job_state v = (case v of
     PStr s \<Rightarrow> Inr (case map_of JOB_STATE_MAP s of Some t \<Rightarrow> t | None \<Rightarrow> str_delete ''job_state_'' (str_lower s))
   | PInt i \<Rightarrow> Inr (state_of_number i)
   | PBool b \<Rightarrow> Inr (state_of_number (if b then 1 else 0))
   | PFloat (Fin r) \<Rightarrow> Inr (if r = of_int \<lfloor>r\<rfloor> then state_of_number \<lfloor>r\<rfloor> else ''available'')
   | PList _ \<Rightarrow> Inl (TypeErr ''unhashable type'')
   | PDict _ \<Rightarrow> Inl (TypeErr ''unhashable type'')
   | _ \<Rightarrow> Inr ''available'')"

definition nack_request :: "string \<Rightarrow> pydict \<Rightarrow> pydict" where
  "nack_request job_id err = job_id_request job_id @ [(PStr ''error'', PDict
     [(PStr ''code'', dget_default err ''code'' (dget_default err ''type'' (PStr []))),
      (PStr ''message'', dget_default err ''message'' (PStr [])),
      (PStr ''retryable'', dget_default err ''retryable'' (PBool False)),
      (PStr ''attempt'', dget_default err ''attempt'' (PInt 0)),
      (PStr ''occurred_at'', dget_default err ''occurred_at'' PNone),
      (PStr ''backtrace'', dget_default err ''backtrace'' (dget_default err ''stack'' (PStr []))),
      (PStr ''details'', dget_default err ''details'' (PDict []))])]"

definition grpc_nack :: "'w grpc_client \<Rightarrow> string \<Rightarrow> pydict \<Rightarrow> ('w, pyval) io" where
  "grpc_nack g job_id err = bindIO (grpc_call g ''Nack'' (nack_request job_id err)) (\<lambda>r.
     bindIO (liftIO (map_job_state (dget_default r ''state'' (PStr [])))) (\<lambda>state.
       retIO (PDict [(PStr ''state'', PStr state), (PStr ''next_attempt_at'', dget_default r ''next_attempt_at'' PNone)])))"

definition grpc_heartbeat :: "'w grpc_client \<Rightarrow> string \<Rightarrow> string list option \<Rightarrow> int option \<Rightarrow> ('w, pydict) io" where
  "grpc_heartbeat g worker_id active_jobs visibility_timeout_ms =
     (let ids = (case active_jobs of None \<Rightarrow> [] | Some js \<Rightarrow> js) in
      bindIO (liftIO (heartbeat_requests worker_id (Some ids) visibility_timeout_ms)) (\<lambda>requests.
      bindIO (mapIO (grpc_call g ''Heartbeat'') requests) (\<lambda>responses.
        retIO [(PStr ''state'', PStr (aggregate_heartbeat_states (gc_str g) responses)),
               (PStr ''jobs_extended'', pstrs ids)])))"

definition grpc_progress :: "pydict \<Rightarrow> ('w, pyval) io" where
  "grpc_progress body = raiseIO (CapabilityErr (''The canonical OJS v1 gRPC service has no progress RPC. ''
     @ ''Use HTTP transport for progress reporting.''))"

subsection \<open>Queue operations\<close>

definition proto_get :: "pyval \<Rightarrow> string \<Rightarrow> pyval \<Rightarrow> exn + pyval" where
  "proto_get v k dflt = (case v of PDict d \<Rightarrow> Inr (dget_default d k dflt)
     | _ \<Rightarrow> Inl (UserErr ''AttributeError'' ''get''))"

definition queue_status :: "pyval \<Rightarrow> pyval" where
  "queue_status paused = PStr (if truthy paused then ''paused'' else ''active'')"

definition decode_queue :: "'w grpc_client \<Rightarrow> pyval \<Rightarrow> exn + queue" where
  "decode_queue g v = bindR (proto_get v ''name'' (PStr [])) (\<lambda>name.
     bindR (proto_get v ''paused'' PNone) (\<lambda>paused.
       queue_from_dict (gc_isop g) (PDict [(PStr ''name'', name), (PStr ''status'', queue_status paused)])))"

definition queues_request :: "string \<Rightarrow> pydict" where
  "queues_request cursor = [(PStr ''limit'', PInt 100)] @ opt_entry (cursor \<noteq> []) ''cursor'' (PStr cursor)"

definition decode_queues :: "'w grpc_client \<Rightarrow> pydict \<Rightarrow> exn + queue list" where
  "decode_queues g r = bindR (py_list (dget_default r ''queues'' (PList []))) (mapR (decode_queue g))"

partial_function (option) list_queues_loop ::
  "'w grpc_client \<Rightarrow> string \<Rightarrow> string set \<Rightarrow> queue list \<Rightarrow> 'w \<Rightarrow> ((exn + queue list) \<times> 'w) option" where
  "list_queues_loop g cursor seen queues w =
     (case grpc_call g ''ListQueues'' (queues_request cursor) w of
       (Inl e, w') \<Rightarrow> Some (Inl e, w')
     | (Inr r, w') \<Rightarrow> (case decode_queues g r of
         Inl e \<Rightarrow> Some (Inl e, w')
       | Inr qs \<Rightarrow>
           if response_cursor r = [] then Some (Inr (queues @ qs), w')
           else if response_cursor r \<in> seen
           then Some (Inl (ConnectionErr ''gRPC queue pagination returned a repeated cursor''), w')
           else list_queues_loop g (response_cursor r) (insert (response_cursor r) seen) (queues @ qs) w'))"

definition grpc_list_queues :: "'w grpc_client \<Rightarrow> 'w \<Rightarrow> ((exn + queue list) \<times> 'w) option" where
  "grpc_list_queues g = list_queues_loop g [] {} []"

definition proto_stats :: "string \<Rightarrow> pydict \<Rightarrow> pydict \<Rightarrow> pydict" where
  "proto_stats queue_name r stats =
     [(PStr ''queue'', dget_default r ''queue'' (PStr queue_name)),
      (PStr ''status'', queue_status (dget_default stats ''paused'' PNone)),
      (PStr ''stats'', PDict (map (\<lambda>k. (PStr k, dget_default stats k (PInt 0)))
         [''available'', ''active'', ''scheduled'', ''retryable'', ''dead'', ''completed_last_hour'', ''failed_last_hour'']))]"

definition grpc_queue_stats :: "'w grpc_client \<Rightarrow> string \<Rightarrow> ('w, queue_stats) io" where
  "grpc_queue_stats g queue_name = bindIO (grpc_call g ''QueueStats'' [(PStr ''queue'', PStr queue_name)]) (\<lambda>r.
     liftIO (case dget_default r ''stats'' (PDict []) of
         PDict stats \<Rightarrow> queue_stats_from_dict (gc_isop g) (PDict (proto_stats queue_name r stats))
       | _ \<Rightarrow> Inl (UserErr ''AttributeError'' ''get'')))"

definition grpc_pause_queue :: "'w grpc_client \<Rightarrow> string \<Rightarrow> ('w, pyval) io" where
  "grpc_pause_queue g queue_name = bindIO (grpc_call g ''PauseQueue'' [(PStr ''queue'', PStr queue_name)]) (\<lambda>_.
     retIO (PDict [(PStr ''status'', PStr ''paused'')]))"

definition grpc_resume_queue :: "'w grpc_client \<Rightarrow> string \<Rightarrow> ('w, pyval) io" where
  "grpc_resume_queue g queue_name = bindIO (grpc_call g ''ResumeQueue'' [(PStr ''queue'', PStr queue_name)]) (\<lambda>_.
     retIO (PDict [(PStr ''status'', PStr ''active'')]))"

subsection \<open>Workflow operations\<close>

definition WORKFLOW_STATE_MAP :: "(string \<times> string) list" where
  "WORKFLOW_STATE_MAP = [(''WORKFLOW_STATE_RUNNING'', ''running''), (''WORKFLOW_STATE_COMPLETED'', ''completed''),
     (''WORKFLOW_STATE_FAILED'', ''failed''), (''WORKFLOW_STATE_CANCELLED'', ''cancelled'')]"

definition STEP_STATE_MAP :: "(string \<times> string) list" where
  "STEP_STATE_MAP = [(''WORKFLOW_STEP_STATE_WAITING'', ''waiting''), (''WORKFLOW_STEP_STATE_PENDING'', ''pending''),
     (''WORKFLOW_STEP_STATE_ACTIVE'', ''active''), (''WORKFLOW_STEP_STATE_COMPLETED'', ''completed''),
     (''WORKFLOW_STEP_STATE_FAILED'', ''failed''), (''WORKFLOW_STEP_STATE_CANCELLED'', ''cancelled'')]"

text \<open>\<open>table.get(value, default)\<close> for a table keyed by strings: an unhashable value raises.\<close>

definition lookup_state :: "(string \<times> string) list \<Rightarrow> pyval \<Rightarrow> pyval \<Rightarrow> exn + pyval" where
  "lookup_state table v dflt = (case v of
     PStr s \<Rightarrow> Inr (case map_of table s of Some t \<Rightarrow> PStr t | None \<Rightarrow> dflt)
   | PList _ \<Rightarrow> Inl (TypeErr ''unhashable type'')
   | PDict _ \<Rightarrow> Inl (TypeErr ''unhashable type'')
   | _ \<Rightarrow> Inr dflt)"

definition from_proto_step :: "pyval \<Rightarrow> exn + pyval" where
  "from_proto_step v = (case v of
     PDict s \<Rightarrow> bindR (lookup_state STEP_STATE_MAP (dget_default s ''state'' (PStr [])) (PStr ''pending'')) (\<lambda>state.
       Inr (PDict [(PStr ''id'', dget_default s ''id'' (PStr [])), (PStr ''type'', dget_default s ''type'' (PStr [])),
          (PStr ''state'', state), (PStr ''job_id'', dget_default s ''job_id'' (PStr [])),
          (PStr ''depends_on'', dget_default s ''depends_on'' (PList []))]))
   | _ \<Rightarrow> Inl (UserErr ''AttributeError'' ''get''))"

definition from_proto_workflow :: "pyval \<Rightarrow> exn + pydict" where
  "from_proto_workflow v = (case v of
     PDict w \<Rightarrow>
       bindR (lookup_state WORKFLOW_STATE_MAP (dget_default w ''state'' (PStr [])) (dget_default w ''state'' (PStr ''running''))) (\<lambda>state.
       bindR (py_list (dget_default w ''steps'' (PList []))) (\<lambda>raw.
       bindR (mapR from_proto_step raw) (\<lambda>steps.
         Inr [(PStr ''id'', dget_default w ''id'' (PStr [])), (PStr ''name'', dget_default w ''name'' (PStr [])),
              (PStr ''state'', state), (PStr ''steps'', PList steps)])))
   | _ \<Rightarrow> Inr [])"

definition workflow_call :: "'w grpc_client \<Rightarrow> string \<Rightarrow> pydict \<Rightarrow> ('w, pydict) io" where
  "workflow_call g meth request = bindIO (grpc_call g meth request) (\<lambda>r.
     liftIO (from_proto_workflow (dget_default r ''workflow'' (PDict []))))"

definition grpc_create_workflow :: "'w grpc_client \<Rightarrow> workflow_definition \<Rightarrow> ('w, workflow) io" where
  "grpc_create_workflow g def = bindIO (\<lambda>w. (project_workflow (gc_str g) (gc_isop g) (gc_now g w) def, w)) (\<lambda>request.
     bindIO (workflow_call g ''CreateWorkflow'' request) (\<lambda>d. liftIO (workflow_from_dict (gc_isop g) (PDict d))))"

definition workflow_id_request :: "string \<Rightarrow> pydict" where
  "workflow_id_request workflow_id = [(PStr ''workflow_id'', PStr workflow_id)]"

definition grpc_get_workflow :: "'w grpc_client \<Rightarrow> string \<Rightarrow> ('w, workflow) io" where
  "grpc_get_workflow g workflow_id = bindIO (workflow_call g ''GetWorkflow'' (workflow_id_request workflow_id)) (\<lambda>d.
     liftIO (workflow_from_dict (gc_isop g) (PDict d)))"

definition grpc_cancel_workflow :: "'w grpc_client \<Rightarrow> string \<Rightarrow> ('w, pydict) io" where
  "grpc_cancel_workflow g workflow_id = workflow_call g ''CancelWorkflow'' (workflow_id_request workflow_id)"

subsection \<open>Manifest, dead letters, cron, schemas, health\<close>

definition pick_fields :: "pydict \<Rightarrow> (string \<times> pyval) list \<Rightarrow> pydict" where
  "pick_fields d fs = map (\<lambda>(k, dflt). (PStr k, dget_default d k dflt)) fs"

definition grpc_manifest :: "'w grpc_client \<Rightarrow> ('w, pydict) io" where
  "grpc_manifest g = bindIO (grpc_call g ''Manifest'' []) (\<lambda>r.
     retIO (pick_fields r [(''ojs_version'', PStr []), (''implementation'', PDict []), (''conformance_level'', PInt 0),
       (''protocols'', PList []), (''backend'', PStr []), (''extensions'', PList [])]))"

definition dead_letter_page :: "'w grpc_client \<Rightarrow> string option \<Rightarrow> 'w page_fetcher" where
  "dead_letter_page g queue page_limit cursor = grpc_call g ''ListDeadLetter''
     ([(PStr ''limit'', PInt page_limit)] @ opt_entry (queue \<noteq> None) ''queue'' (opt_str queue)
      @ opt_entry (cursor \<noteq> []) ''cursor'' (PStr cursor))"

definition pagination :: "offset_page \<Rightarrow> int \<Rightarrow> int \<Rightarrow> pydict \<Rightarrow> pyval" where
  "pagination page limit offset rest = PDict ([(PStr ''total'', PInt (op_total page)), (PStr ''limit'', PInt limit),
     (PStr ''offset'', PInt offset)] @ rest)"

definition grpc_list_dead_letter :: "'w grpc_client \<Rightarrow> string option \<Rightarrow> int \<Rightarrow> int \<Rightarrow> 'w \<Rightarrow> ((exn + pydict) \<times> 'w) option" where
  "grpc_list_dead_letter g queue limit offset w =
     (case collect_offset_page (dead_letter_page g queue) ''jobs'' limit offset w of
        None \<Rightarrow> None
      | Some (r, w') \<Rightarrow> Some (bindR r (\<lambda>page. bindR (mapR (from_proto_job (gc_str g)) (op_items page)) (\<lambda>jobs.
          Inr [(PStr ''jobs'', PList (map PDict jobs)),
               (PStr ''pagination'', pagination page limit offset [(PStr ''next_cursor'', PStr (op_next_cursor page))])])), w'))"

definition grpc_retry_dead_letter :: "'w grpc_client \<Rightarrow> string \<Rightarrow> ('w, job) io" where
  "grpc_retry_dead_letter g job_id = job_call g ''RetryDeadLetter'' (job_id_request job_id)"

definition grpc_delete_dead_letter :: "'w grpc_client \<Rightarrow> string \<Rightarrow> ('w, pydict) io" where
  "grpc_delete_dead_letter g job_id = bindIO (grpc_call g ''DeleteDeadLetter'' (job_id_request job_id)) (\<lambda>_. retIO [])"

text \<open>Slicing: strings and lists are sequences, other values raise.\<close>

definition py_sequence :: "pyval \<Rightarrow> exn + pyval list" where
  "py_sequence v = (case v of PList _ \<Rightarrow> py_list v | PStr _ \<Rightarrow> py_list v | PBytes _ \<Rightarrow> py_list v
     | _ \<Rightarrow> Inl (TypeErr ''object is not subscriptable''))"

definition cron_entry :: "pyval \<Rightarrow> exn + pyval" where
  "cron_entry v = (case v of
     PDict e \<Rightarrow> Inr (PDict (pick_fields e [(''name'', PStr []), (''cron'', PStr []), (''timezone'', PStr ''UTC''), (''type'', PStr [])]))
   | _ \<Rightarrow> Inl (UserErr ''AttributeError'' ''get''))"

definition grpc_list_cron :: "'w grpc_client \<Rightarrow> int \<Rightarrow> int \<Rightarrow> ('w, pydict) io" where
  "grpc_list_cron g limit offset = bindIO (grpc_call g ''ListCron'' []) (\<lambda>r. liftIO
     (bindR (page_arguments limit offset) (\<lambda>_.
      bindR (py_sequence (dget_default r ''entries'' (PList []))) (\<lambda>entries.
      bindR (slice_offset_page entries limit offset) (\<lambda>page.
      bindR (mapR cron_entry (op_items page)) (\<lambda>crons.
        Inr [(PStr ''cron_jobs'', PList crons), (PStr ''pagination'', pagination page limit offset [])]))))))"

definition require_key :: "pydict \<Rightarrow> string \<Rightarrow> exn + pyval" where
  "require_key d k = (case dget d k of Some v \<Rightarrow> Inr v | None \<Rightarrow> Inl (KeyErr k))"

definition grpc_register_cron :: "'w grpc_client \<Rightarrow> pydict \<Rightarrow> ('w, pydict) io" where
  "grpc_register_cron g body =
     bindIO (liftIO (require_key body ''type'')) (\<lambda>ty.
     bindIO (project_body g [(PStr ''type'', ty), (PStr ''args'', dget_default body ''args'' (PList [])),
         (PStr ''meta'', dget_default body ''meta'' PNone), (PStr ''options'', dget_default body ''options'' (PDict []))]) (\<lambda>enqueue.
     bindIO (liftIO (require_key body ''name'')) (\<lambda>name.
     bindIO (liftIO (require_key body ''cron'')) (\<lambda>cron.
     bindIO (grpc_call g ''RegisterCron''
         ([(PStr ''name'', name), (PStr ''cron'', cron), (PStr ''type'', ty),
           (PStr ''args'', dget_default body ''args'' (PList []))]
          @ opt_entry (dhas enqueue ''options'') ''options'' (dget_default enqueue ''options'' PNone)
          @ opt_entry (dhas body ''timezone'') ''timezone'' (dget_default body ''timezone'' PNone))) (\<lambda>r.
       retIO [(PStr ''name'', dget_default r ''name'' name)])))))"

definition grpc_unregister_cron :: "'w grpc_client \<Rightarrow> string \<Rightarrow> ('w, pydict) io" where
  "grpc_unregister_cron g name = bindIO (grpc_call g ''UnregisterCron'' [(PStr ''name'', PStr name)]) (\<lambda>_. retIO [])"

definition unsupported_schema_operation :: "string \<Rightarrow> exn" where
  "unsupported_schema_operation opn = CapabilityErr (''The canonical OJS v1 gRPC service cannot '' @ opn @ '' schemas. ''
     @ ''Use HTTP transport for schema operations.'')"

definition grpc_list_schemas :: "int \<Rightarrow> int \<Rightarrow> ('w, pydict) io" where
  "grpc_list_schemas limit offset = raiseIO (unsupported_schema_operation ''list'')"

definition grpc_register_schema :: "pydict \<Rightarrow> ('w, pydict) io" where
  "grpc_register_schema body = raiseIO (unsupported_schema_operation ''register'')"

definition grpc_get_schema :: "string \<Rightarrow> ('w, pydict) io" where
  "grpc_get_schema uri = raiseIO (unsupported_schema_operation ''get'')"

definition grpc_delete_schema :: "string \<Rightarrow> ('w, pydict) io" where
  "grpc_delete_schema uri = raiseIO (unsupported_schema_operation ''delete'')"

definition grpc_health :: "'w grpc_client \<Rightarrow> ('w, pydict) io" where
  "grpc_health g = bindIO (grpc_call g ''Health'' []) (\<lambda>r.
     bindIO (liftIO (lookup_state [(''HEALTH_STATUS_OK'', ''ok''), (''HEALTH_STATUS_DEGRADED'', ''degraded''),
         (''HEALTH_STATUS_UNHEALTHY'', ''unhealthy'')] (dget_default r ''status'' (PStr [])) (PStr ''unknown''))) (\<lambda>s.
       retIO [(PStr ''status'', s)]))"

definition grpc_request :: "string \<Rightarrow> string \<Rightarrow> pydict option \<Rightarrow> ('w, pydict) io" where
  "grpc_request meth path body = raiseIO (CapabilityErr (''Generic request() is not supported over gRPC. ''
     @ ''Durable execution checkpoints require an HTTP transport.''))"

definition grpc_metadata :: "string option \<Rightarrow> string option \<Rightarrow> (string \<times> string) list option \<Rightarrow> (string \<times> string) list option" where
  "grpc_metadata api_key auth metadata =
     (let meta = (if or_str api_key [] = [] then [] else [(''x-ojs-api-key'', or_str api_key [])])
          @ (if or_str auth [] = [] then [] else [(''authorization'', or_str auth [])])
          @ (case metadata of None \<Rightarrow> [] | Some m \<Rightarrow> m)
      in if meta = [] then None else Some meta)"

end
