(* ===== verification/Grpc_Codec.thy ===== *)
theory Grpc_Codec
  imports Grpc_Transport
begin

section \<open>gRPC: descriptors, codec and the unary stub\<close>

text \<open>
  \<open>src/ojs/transport/grpc/descriptor_registry.py\<close>, \<open>protobuf_codec.py\<close> and \<open>channel.py\<close>: the registry of
  the service's methods, the encoding of requests, the decoding of responses with the integers that
  protobuf's JSON form prints as strings restored, and the call of one unary method.  The generated
  descriptors are a schema (the fields of each message type); \<open>google.protobuf\<close>'s parsing, serialising and
  JSON printing and the channel are parameters.
\<close>

subsection \<open>The registry\<close>

record rpc_descriptor =
  rp_request_type :: string
  rp_response_type :: string
  rp_client_streaming :: bool
  rp_server_streaming :: bool

record registry_service =
  sv_full_name :: string
  sv_methods :: "(string \<times> rpc_descriptor) list"

text \<open>\<open>DescriptorRegistryError\<close> and \<open>ProtobufCodecError\<close> are classes of their own.\<close>

abbreviation registry_error :: "string \<Rightarrow> exn" where
  "registry_error m \<equiv> UserErr ''DescriptorRegistryError'' m"

abbreviation codec_error :: "string \<Rightarrow> exn" where
  "codec_error m \<equiv> UserErr ''ProtobufCodecError'' m"

definition REQUIRED_UNARY_METHODS :: "string list" where
  "REQUIRED_UNARY_METHODS = [''Ack'', ''CancelJob'', ''CancelWorkflow'', ''CreateWorkflow'', ''DeleteCheckpoint'',
     ''DeleteDeadLetter'', ''Enqueue'', ''EnqueueBatch'', ''Fetch'', ''GetCheckpoint'', ''GetJob'', ''GetWorkflow'',
     ''Health'', ''Heartbeat'', ''ListCron'', ''ListDeadLetter'', ''ListQueues'', ''Manifest'', ''Nack'', ''PauseQueue'',
     ''QueueStats'', ''RegisterCron'', ''ResumeQueue'', ''RetryDeadLetter'', ''SaveCheckpoint'', ''UnregisterCron'']"

definition missing_methods :: "registry_service \<Rightarrow> string list" where
  "missing_methods sv = filter (\<lambda>m. map_of (sv_methods sv) m = None) REQUIRED_UNARY_METHODS"

fun comma_separated :: "string list \<Rightarrow> string" where
  "comma_separated [] = []"
| "comma_separated [x] = x"
| "comma_separated (x # xs) = x @ '', '' @ comma_separated xs"

text \<open>\<open>is_message\<close> stands for \<open>issubclass(cls, Message)\<close>.  The required names are listed in sorted order.\<close>

definition registry_validate :: "(string \<Rightarrow> bool) \<Rightarrow> registry_service \<Rightarrow> exn + unit" where
  "registry_validate is_message sv =
     (if sv_methods sv = [] then Inl (registry_error ''Generated OJSService contains no RPC descriptors'')
      else if missing_methods sv \<noteq> [] then
        Inl (registry_error (''Generated OJSService is missing required RPC descriptors: '' @ comma_separated (missing_methods sv)))
      else bindR (mapR (\<lambda>(name, rpc).
            if \<not> is_message (rp_request_type rpc) then Inl (registry_error (name @ '' request descriptor is invalid''))
            else if \<not> is_message (rp_response_type rpc) then Inl (registry_error (name @ '' response descriptor is invalid''))
            else Inr ()) (sv_methods sv)) (\<lambda>_. Inr ()))"

definition new_registry :: "(string \<Rightarrow> bool) \<Rightarrow> registry_service option \<Rightarrow> exn + registry_service" where
  "new_registry is_message service = (case service of
     None \<Rightarrow> Inl (registry_error ''Generated OJSService descriptor is missing. Reinstall the SDK with the 'grpc' extra.'')
   | Some sv \<Rightarrow> bindR (registry_validate is_message sv) (\<lambda>_. Inr sv))"

definition registry_method :: "registry_service \<Rightarrow> string \<Rightarrow> exn + rpc_descriptor" where
  "registry_method sv name = (case map_of (sv_methods sv) name of
     Some rpc \<Rightarrow> Inr rpc
   | None \<Rightarrow> Inl (registry_error (''Generated OJSService has no RPC named '' @ repr_str name)))"

subsection \<open>Messages and their integers\<close>

text \<open>
  A field is an integer, another scalar (or enum), a message of some type, or a map (with integer values
  or others); a message is its type and the messages in its fields, which is all that the restoring of
  integers reads of it.
\<close>

datatype field_type = Integer_type | Other_type | Message_type string | Map_type bool

record field_descriptor =
  fd_name :: string
  fd_repeated :: bool
  fd_type :: field_type

type_synonym schema = "string \<Rightarrow> field_descriptor list"

datatype message = Message (message_type: string) (submessages: "(string \<times> message list) list")

definition repeated_messages :: "message \<Rightarrow> string \<Rightarrow> message list" where
  "repeated_messages m n = (case map_of (submessages m) n of None \<Rightarrow> [] | Some ms \<Rightarrow> ms)"

text \<open>\<open>getattr\<close> of a message field that is not set gives an empty message of its type.\<close>

definition message_field :: "message \<Rightarrow> string \<Rightarrow> string \<Rightarrow> message" where
  "message_field m n t = (case repeated_messages m n of [] \<Rightarrow> Message t [] | m' # _ \<Rightarrow> m')"

definition int_map_values :: "pydict \<Rightarrow> exn + pydict" where
  "int_map_values d = mapR (\<lambda>(k, x). bindR (py_int x) (\<lambda>i. Inr (k, PInt i))) d"

definition int_items :: "pyval list \<Rightarrow> exn + pyval list" where
  "int_items xs = mapR (\<lambda>x. bindR (py_int x) (\<lambda>i. Inr (PInt i))) xs"

text \<open>
  \<open>_normalize_integer_fields(message, data)\<close>: the new value of a field, if it is to be assigned (\<open>rec\<close> treats
  the nested messages), and the loop over the fields.  The names of a type's fields are distinct, so no
  field reads what another one assigned.
\<close>

definition field_update :: "(message \<Rightarrow> pydict \<Rightarrow> exn + pydict) \<Rightarrow> message \<Rightarrow> field_descriptor \<Rightarrow> pyval option \<Rightarrow> exn + pyval option" where
  "field_update rec m f value = (case value of
      None \<Rightarrow> Inr None
    | Some v \<Rightarrow> if v = PNone then Inr None else (case fd_type f of
        Map_type integers \<Rightarrow> (case v of
            PDict d \<Rightarrow> if integers then bindR (int_map_values d) (\<lambda>d'. Inr (Some (PDict d'))) else Inr None
          | _ \<Rightarrow> Inr None)
      | Message_type t \<Rightarrow> if fd_repeated f
          then (case v of
              PList xs \<Rightarrow> bindR (mapR (\<lambda>(i, x). case x of
                  PDict d \<Rightarrow> if i < length (repeated_messages m (fd_name f))
                    then bindR (rec (repeated_messages m (fd_name f) ! i) d) (\<lambda>d'. Inr (PDict d'))
                    else Inr x
                | _ \<Rightarrow> Inr x) (enumerated xs)) (\<lambda>ys. Inr (Some (PList ys)))
            | _ \<Rightarrow> Inr None)
          else (case v of
              PDict d \<Rightarrow> bindR (rec (message_field m (fd_name f) t) d) (\<lambda>d'. Inr (Some (PDict d')))
            | _ \<Rightarrow> Inr None)
      | Integer_type \<Rightarrow> if fd_repeated f
          then (case v of PList xs \<Rightarrow> bindR (int_items xs) (\<lambda>ys. Inr (Some (PList ys))) | _ \<Rightarrow> Inr None)
          else bindR (py_int v) (\<lambda>i. Inr (Some (PInt i)))
      | Other_type \<Rightarrow> Inr None))"

lemma enumerated_item: "(i, x) \<in> set (enumerated xs) \<Longrightarrow> x \<in> set xs"
  by (auto simp: enumerated_def dest: set_zip_rightD)

lemma field_update_cong [fundef_cong]:
  assumes "m = m'" and "f = f'" and "value = value'"
    and "\<And>m d. value' = Some (PDict d) \<Longrightarrow> rec m d = rec' m d"
    and "\<And>m d xs. value' = Some (PList xs) \<Longrightarrow> PDict d \<in> set xs \<Longrightarrow> rec m d = rec' m d"
  shows "field_update rec m f value = field_update rec' m' f' value'"
proof -
  have items: "mapR (\<lambda>(i, x). case x of
        PDict d \<Rightarrow> if i < length ms then bindR (rec (ms ! i) d) (\<lambda>d'. Inr (PDict d')) else Inr x | _ \<Rightarrow> Inr x) (enumerated xs)
      = mapR (\<lambda>(i, x). case x of
        PDict d \<Rightarrow> if i < length ms then bindR (rec' (ms ! i) d) (\<lambda>d'. Inr (PDict d')) else Inr x | _ \<Rightarrow> Inr x) (enumerated xs)"
    if "value' = Some (PList xs)" for ms xs
    using assms(5)[OF that] enumerated_item by (intro mapR_cong) (fastforce split: pyval.split)+
  show ?thesis
    unfolding assms(1-3) field_update_def using assms(4) items
    by (auto split: option.split pyval.split field_type.split)
qed

function normalize_integer_fields :: "schema \<Rightarrow> message \<Rightarrow> pydict \<Rightarrow> exn + pydict" where
  "normalize_integer_fields sch m data =
     bindR (mapR (\<lambda>f. bindR (field_update (\<lambda>m' d. normalize_integer_fields sch m' d) m f (dget data (fd_name f)))
         (\<lambda>w. Inr (fd_name f, w))) (sch (message_type m)))
       (\<lambda>news. Inr (foldl (\<lambda>d (n, w). case w of None \<Rightarrow> d | Some v \<Rightarrow> dset d n v) data news))"
  by pat_completeness auto

termination
proof (relation "measure (\<lambda>(sch, m, d). size (PDict d))")
  fix sch and m m' :: message and data d :: pydict and f
  assume "dget data (fd_name f) = Some (PDict d)"
  then show "((sch, m', d), (sch, m, data)) \<in> measure (\<lambda>(sch, m, d). size (PDict d))"
    using dget_size[of data "fd_name f" "PDict d"] by simp
next
  fix sch and m m' :: message and data d :: pydict and f xs
  assume "dget data (fd_name f) = Some (PList xs)" "PDict d \<in> set xs"
  then show "((sch, m', d), (sch, m, data)) \<in> measure (\<lambda>(sch, m, d). size (PDict d))"
    using dget_size[of data "fd_name f" "PList xs"] size_in_list[of "PDict d" xs] by simp
qed simp

declare normalize_integer_fields.simps [simp del]

subsection \<open>Integers survive protobuf's JSON form\<close>

text \<open>The decimal form of an integer is read back as that integer.\<close>

lemma digits_us_digits: "s \<noteq> [] \<Longrightarrow> \<forall>c \<in> set s. is_digit c \<Longrightarrow> digits_us s"
proof (induction s rule: digits_us.induct)
  case (3 c d s)
  then show ?case by (auto simp: is_digit_def)
qed simp_all

lemma digit_not_space: "is_digit c \<Longrightarrow> \<not> is_space c"
  by (auto simp: is_digit_def is_space_def)

lemma str_strip_solid: "\<forall>c \<in> set s. \<not> is_space c \<Longrightarrow> str_strip s = s"
proof -
  assume s: "\<forall>c \<in> set s. \<not> is_space c"
  then have "dropWhile is_space t = t" if "set t \<subseteq> set s" for t
    using that by (cases t) auto
  then show ?thesis by (simp add: str_strip_def)
qed

lemma int_of_printed: "int_of_string (string_of_int i) = Some i"
proof -
  have digits: "digits_us (string_of_nat n)" "filter is_digit (string_of_nat n) = string_of_nat n" for n
    using digits_us_digits[of "string_of_nat n"] string_of_nat_digits[of n] by simp_all
  have "\<not> is_space CHR ''-''" by (simp add: is_space_def)
  then have "\<forall>c \<in> set (string_of_int i). \<not> is_space c"
    using string_of_nat_digits digit_not_space by (auto simp: string_of_int_def)
  then have strip: "str_strip (string_of_int i) = string_of_int i" by (rule str_strip_solid)
  obtain c s where hd: "string_of_nat (nat i) = c # s" "is_digit c"
    using string_of_nat_digits[of "nat i"] by (cases "string_of_nat (nat i)") auto
  then have "c \<noteq> CHR ''-''" "c \<noteq> CHR ''+''" by (auto simp: is_digit_def)
  with hd(1) have "split_sign (string_of_int i) = (if i < 0 then (-1, string_of_nat (nat (- i))) else (1, string_of_nat (nat i)))"
    by (simp add: split_sign_def string_of_int_def)
  then show ?thesis using digits unfolding int_of_string_def strip
    by (simp add: digits_value_def)
qed

text \<open>
  A decoded message as a tree: an integer field knows whether it is 64 bits wide.  \<open>json_form\<close> is what
  \<open>MessageToDict\<close> makes of it, by protobuf's documented JSON mapping (wide integers are strings); \<open>native_form\<close>
  has Python integers throughout, and leaves the values of other maps in their JSON form.
\<close>

datatype pb_value =
    Pb_int bool int
  | Pb_ints bool "int list"
  | Pb_other pyval
  | Pb_int_map bool "(string \<times> int) list"
  | Pb_map "(string \<times> pyval) list"
  | Pb_message pb_tree
  | Pb_messages "pb_tree list"
and pb_tree = Pb_tree (tree_type: string) "(string \<times> pb_value) list"

definition json_int :: "bool \<Rightarrow> int \<Rightarrow> pyval" where
  "json_int wide i = (if wide then PStr (string_of_int i) else PInt i)"

lemma py_int_json [simp]: "py_int (json_int wide i) = Inr i"
  by (simp add: json_int_def py_int_def int_of_printed)

text \<open>
  How the JSON printer shows a message: a dict of the fields present.  Fields of the well-known types
  that it prints otherwise (\<open>Timestamp\<close>, \<open>Duration\<close>, \<open>Struct\<close> and \<open>Value\<close>) are not messages here: a
  schema counts them as \<open>Other_type\<close>, with the printed value as it is.
\<close>

fun json_value_form :: "pb_value \<Rightarrow> pyval" and json_form :: "pb_tree \<Rightarrow> pydict" where
  "json_value_form (Pb_int w i) = json_int w i"
| "json_value_form (Pb_ints w is) = PList (map (json_int w) is)"
| "json_value_form (Pb_other v) = v"
| "json_value_form (Pb_int_map w d) = PDict (map (\<lambda>(k, i). (PStr k, json_int w i)) d)"
| "json_value_form (Pb_map d) = PDict (map (\<lambda>(k, v). (PStr k, v)) d)"
| "json_value_form (Pb_message t) = PDict (json_form t)"
| "json_value_form (Pb_messages ts) = PList (map (\<lambda>t. PDict (json_form t)) ts)"
| "json_form (Pb_tree _ fs) = map (\<lambda>(n, v). (PStr n, json_value_form v)) fs"

fun native_value_form :: "pb_value \<Rightarrow> pyval" and native_form :: "pb_tree \<Rightarrow> pydict" where
  "native_value_form (Pb_int w i) = PInt i"
| "native_value_form (Pb_ints w is) = PList (map PInt is)"
| "native_value_form (Pb_other v) = v"
| "native_value_form (Pb_int_map w d) = PDict (map (\<lambda>(k, i). (PStr k, PInt i)) d)"
| "native_value_form (Pb_map d) = PDict (map (\<lambda>(k, v). (PStr k, v)) d)"
| "native_value_form (Pb_message t) = PDict (native_form t)"
| "native_value_form (Pb_messages ts) = PList (map (\<lambda>t. PDict (native_form t)) ts)"
| "native_form (Pb_tree _ fs) = map (\<lambda>(n, v). (PStr n, native_value_form v)) fs"

fun message_values :: "pb_value \<Rightarrow> message list" and message_of :: "pb_tree \<Rightarrow> message" where
  "message_values (Pb_message t) = [message_of t]"
| "message_values (Pb_messages ts) = map message_of ts"
| "message_values _ = []"
| "message_of (Pb_tree t fs) = Message t (map (\<lambda>(n, v). (n, message_values v)) fs)"

text \<open>A tree of the schema: its fields are declared, once, and their values have the declared types.\<close>

fun conforms_value :: "schema \<Rightarrow> field_descriptor \<Rightarrow> pb_value \<Rightarrow> bool" and conforms :: "schema \<Rightarrow> pb_tree \<Rightarrow> bool" where
  "conforms_value sch f (Pb_int _ _) = (fd_type f = Integer_type \<and> \<not> fd_repeated f)"
| "conforms_value sch f (Pb_ints _ _) = (fd_type f = Integer_type \<and> fd_repeated f)"
| "conforms_value sch f (Pb_other _) = (fd_type f = Other_type)"
| "conforms_value sch f (Pb_int_map _ _) = (fd_type f = Map_type True)"
| "conforms_value sch f (Pb_map _) = (fd_type f = Map_type False)"
| "conforms_value sch f (Pb_message t) = (fd_type f = Message_type (tree_type t) \<and> \<not> fd_repeated f \<and> conforms sch t)"
| "conforms_value sch f (Pb_messages ts) = (fd_repeated f \<and> (case fd_type f of
     Message_type t' \<Rightarrow> list_all (\<lambda>t. tree_type t = t' \<and> conforms sch t) ts | _ \<Rightarrow> False))"
| "conforms sch (Pb_tree t fs) = (distinct (map fst fs) \<and> distinct (map fd_name (sch t))
     \<and> list_all (\<lambda>(n, v). case find (\<lambda>f. fd_name f = n) (sch t) of None \<Rightarrow> False | Some f \<Rightarrow> conforms_value sch f v) fs)"

text \<open>Assigning to fields that a dict has changes their values in place.\<close>

lemma dset_in_place:
  "distinct (map fst fs) \<Longrightarrow> n \<in> fst ` set fs \<Longrightarrow>
     dset (map (\<lambda>(k, x). (PStr k, c k x)) fs) n v = map (\<lambda>(k, x). (PStr k, if k = n then v else c k x)) fs"
proof (induction fs)
  case (Cons p fs)
  obtain k x where p: "p = (k, x)" by (cases p)
  show ?case
  proof (cases "k = n")
    case True
    then have "n \<notin> fst ` set fs" using Cons.prems(1) p by simp
    then have "map (\<lambda>(k, x). (PStr k, c k x)) fs = map (\<lambda>(k, x). (PStr k, if k = n then v else c k x)) fs"
      by (auto simp: image_iff split_def)
    then show ?thesis using True by (simp add: p dset_def)
  next
    case False
    then show ?thesis using Cons by (auto simp: p dset_def)
  qed
qed simp

lemma assigned_in_place:
  "distinct (map fst fs) \<Longrightarrow> distinct (map fst news) \<Longrightarrow> (\<And>n v. (n, Some v) \<in> set news \<Longrightarrow> n \<in> fst ` set fs) \<Longrightarrow>
     foldl (\<lambda>d (n, w). case w of None \<Rightarrow> d | Some v \<Rightarrow> dset d n v) (map (\<lambda>(k, x). (PStr k, c k x)) fs) news
     = map (\<lambda>(k, x). (PStr k, case map_of news k of Some (Some v) \<Rightarrow> v | _ \<Rightarrow> c k x)) fs"
proof (induction news arbitrary: c)
  case (Cons p news)
  obtain n w where p: "p = (n, w)" by (cases p)
  have n: "map_of news n = None" using Cons.prems(2) by (simp add: p map_of_eq_None_iff)
  show ?case
  proof (cases w)
    case None
    have "(case map_of (p # news) k of Some (Some v) \<Rightarrow> v | _ \<Rightarrow> c k x) = (case map_of news k of Some (Some v) \<Rightarrow> v | _ \<Rightarrow> c k x)" for k x
      using n by (simp add: p None)
    then show ?thesis using Cons by (simp add: p None)
  next
    case (Some v)
    have "n \<in> fst ` set fs" using Cons.prems(3)[of n v] by (simp add: p Some)
    then have "dset (map (\<lambda>(k, x). (PStr k, c k x)) fs) n v = map (\<lambda>(k, x). (PStr k, if k = n then v else c k x)) fs"
      using Cons.prems(1) by (intro dset_in_place)
    moreover have "(case map_of (p # news) k of Some (Some v) \<Rightarrow> v | _ \<Rightarrow> c k x)
        = (case map_of news k of Some (Some v) \<Rightarrow> v | _ \<Rightarrow> if k = n then v else c k x)" for k x
      using n by (simp add: p Some)
    moreover have "foldl (\<lambda>d (n, w). case w of None \<Rightarrow> d | Some v \<Rightarrow> dset d n v)
          (map (\<lambda>(k, x). (PStr k, if k = n then v else c k x)) fs) news
        = map (\<lambda>(k, x). (PStr k, case map_of news k of Some (Some v') \<Rightarrow> v' | _ \<Rightarrow> if k = n then v else c k x)) fs"
      using Cons.prems by (intro Cons.IH) auto
    ultimately show ?thesis by (simp add: p Some)
  qed
qed simp

definition restored :: "pb_value \<Rightarrow> pyval option \<Rightarrow> bool" where
  "restored x w \<longleftrightarrow> (case w of None \<Rightarrow> native_value_form x = json_value_form x | Some v \<Rightarrow> v = native_value_form x)"

lemma ints_restored: "int_items (map (json_int w) is) = Inr (map PInt is)"
  by (induction "is") (simp_all add: int_items_def)

lemma int_map_restored:
  "int_map_values (map (\<lambda>(k, i). (PStr k, json_int w i)) d) = Inr (map (\<lambda>(k, i). (PStr k, PInt i)) d)"
  by (induction d) (auto simp: int_map_values_def)

lemma mapR_enumerated_items:
  "(\<And>i. i < length xs \<Longrightarrow> g i (xs ! i) = Inr (h (xs ! i))) \<Longrightarrow> mapR (\<lambda>(i, x). g i x) (enumerated xs) = Inr (map h xs)"
proof -
  assume g: "\<And>i. i < length xs \<Longrightarrow> g i (xs ! i) = Inr (h (xs ! i))"
  have "mapR (\<lambda>(i, x). g i x) (enumerated xs) = Inr (map (\<lambda>p. h (snd p)) (enumerated xs))"
    using g by (intro mapR_all_ok) (auto simp: enumerated_def set_zip)
  also have "map (\<lambda>p. h (snd p)) (enumerated xs) = map h (map snd (enumerated xs))"
    by (simp add: comp_def del: map_snd_enumerated)
  finally show ?thesis by simp
qed

lemma json_int_not_none: "json_int w i \<noteq> PNone"
  by (simp add: json_int_def)

text \<open>One field of a conforming message, when the nested messages are restored.\<close>

lemma field_restored:
  assumes "conforms_value sch f x" and "repeated_messages m (fd_name f) = message_values x"
    and "\<And>t. x = Pb_message t \<Longrightarrow> rec (message_of t) (json_form t) = Inr (native_form t)"
    and "\<And>t ts. x = Pb_messages ts \<Longrightarrow> t \<in> set ts \<Longrightarrow> rec (message_of t) (json_form t) = Inr (native_form t)"
  shows "\<exists>w. field_update rec m f (Some (json_value_form x)) = Inr w \<and> restored x w"
proof (cases x)
  case (Pb_messages ts)
  let ?items = "map (\<lambda>t. PDict (json_form t)) ts"
  have "mapR (\<lambda>(i, x). case x of PDict d \<Rightarrow> if i < length (map message_of ts)
          then bindR (rec (map message_of ts ! i) d) (\<lambda>d'. Inr (PDict d')) else Inr x | _ \<Rightarrow> Inr x) (enumerated ?items)
      = Inr (map (\<lambda>t. PDict (native_form t)) ts)"
  proof -
    have "mapR (\<lambda>(i, x). case x of PDict d \<Rightarrow> if i < length (map message_of ts)
          then bindR (rec (map message_of ts ! i) d) (\<lambda>d'. Inr (PDict d')) else Inr x | _ \<Rightarrow> Inr x) (zip [0..<length ts] ?items)
        = Inr (map (\<lambda>p. PDict (native_form (ts ! fst p))) (zip [0..<length ts] ?items))"
      using assms(4)[OF Pb_messages] by (intro mapR_all_ok) (auto simp: set_zip)
    moreover have "map (\<lambda>p. PDict (native_form (ts ! fst p))) (zip [0..<length ts] ?items) = map (\<lambda>t. PDict (native_form t)) ts"
      by (rule nth_equalityI) simp_all
    ultimately show ?thesis by (simp add: enumerated_def)
  qed
  then have items: "mapR (\<lambda>(i, x). case x of PDict d \<Rightarrow> if i < length (repeated_messages m (fd_name f))
          then bindR (rec (repeated_messages m (fd_name f) ! i) d) (\<lambda>d'. Inr (PDict d')) else Inr x | _ \<Rightarrow> Inr x) (enumerated ?items)
      = Inr (map (\<lambda>t. PDict (native_form t)) ts)"
    using assms(2) by (simp only: Pb_messages message_values.simps)
  obtain t' where "fd_type f = Message_type t'" "fd_repeated f"
    using assms(1) by (auto simp: Pb_messages split: field_type.splits)
  with items show ?thesis by (simp add: Pb_messages field_update_def restored_def)
qed (use assms in \<open>auto simp: field_update_def restored_def json_int_not_none ints_restored int_map_restored
      message_field_def split: pyval.splits\<close>)

lemma dget_json_form: "dget (map (\<lambda>(n, v). (PStr n, g v)) fs) k = map_option g (map_of fs k)"
  by (induction fs) auto

lemma normalize_conforming:
  "conforms sch t \<Longrightarrow> normalize_integer_fields sch (message_of t) (json_form t) = Inr (native_form t)"
proof (induction t rule: pb_tree.induct[where ?P1.0 = "\<lambda>x. \<forall>t \<in> set (case x of Pb_message t \<Rightarrow> [t] | Pb_messages ts \<Rightarrow> ts | _ \<Rightarrow> []).
      conforms sch t \<longrightarrow> normalize_integer_fields sch (message_of t) (json_form t) = Inr (native_form t)"])
  case (Pb_tree t fs)
  let ?rec = "normalize_integer_fields sch" and ?m = "message_of (Pb_tree t fs)"
  have ok: "distinct (map fst fs)" "distinct (map fd_name (sch t))"
    and fields: "\<And>n x. (n, x) \<in> set fs \<Longrightarrow> \<exists>f. find (\<lambda>f. fd_name f = n) (sch t) = Some f \<and> conforms_value sch f x"
    using Pb_tree(2) by (auto simp: list_all_iff split: option.splits)
  have "\<exists>w. field_update ?rec ?m f (dget (json_form (Pb_tree t fs)) (fd_name f)) = Inr w
      \<and> (case map_of fs (fd_name f) of None \<Rightarrow> w = None | Some x \<Rightarrow> restored x w)" if f: "f \<in> set (sch t)" for f
  proof (cases "map_of fs (fd_name f)")
    case None
    then show ?thesis by (simp add: dget_json_form field_update_def)
  next
    case (Some x)
    then have x: "(fd_name f, x) \<in> set fs" by (rule map_of_SomeD)
    obtain f' where f': "find (\<lambda>f'. fd_name f' = fd_name f) (sch t) = Some f'" "conforms_value sch f' x" using fields[OF x] by blast
    then have "f' \<in> set (sch t)" "fd_name f' = fd_name f" by (auto simp: find_Some_iff)
    then have "f' = f" using ok(2) f by (auto simp: distinct_map inj_on_def)
    have nested: "?rec (message_of s) (json_form s) = Inr (native_form s)"
      if "s \<in> set (case x of Pb_message t \<Rightarrow> [t] | Pb_messages ts \<Rightarrow> ts | _ \<Rightarrow> [])" "conforms sch s" for s
      using Pb_tree(1)[of "(fd_name f, x)" x] x that by auto
    have "repeated_messages ?m (fd_name f) = message_values x"
      using Some by (induction fs) (auto simp: repeated_messages_def split: if_splits)
    then have "\<exists>w. field_update ?rec ?m f (Some (json_value_form x)) = Inr w \<and> restored x w"
      using f'(2) nested unfolding \<open>f' = f\<close>
      by (intro field_restored) (auto simp: list_all_iff split: field_type.splits)
    then show ?thesis by (simp add: dget_json_form Some)
  qed
  then obtain w where w: "\<And>f. f \<in> set (sch t) \<Longrightarrow>
      field_update ?rec ?m f (dget (json_form (Pb_tree t fs)) (fd_name f)) = Inr (w f)
      \<and> (case map_of fs (fd_name f) of None \<Rightarrow> w f = None | Some x \<Rightarrow> restored x (w f))"
    by metis
  let ?news = "map (\<lambda>f. (fd_name f, w f)) (sch t)"
  have news: "mapR (\<lambda>f. bindR (field_update ?rec ?m f (dget (json_form (Pb_tree t fs)) (fd_name f))) (\<lambda>v. Inr (fd_name f, v))) (sch t)
      = Inr ?news"
    using w by (intro mapR_all_ok) simp
  have assigned: "foldl (\<lambda>d (n, w). case w of None \<Rightarrow> d | Some v \<Rightarrow> dset d n v) (map (\<lambda>(k, x). (PStr k, json_value_form x)) fs) ?news
      = map (\<lambda>(k, x). (PStr k, case map_of ?news k of Some (Some v) \<Rightarrow> v | _ \<Rightarrow> json_value_form x)) fs"
  proof (rule assigned_in_place)
    fix n v assume "(n, Some v) \<in> set ?news"
    then obtain f where "f \<in> set (sch t)" "n = fd_name f" "w f = Some v" by auto
    then show "n \<in> fst ` set fs" using w[of f] by (cases "map_of fs n") (auto dest: map_of_SomeD intro: rev_image_eqI)
  qed (use ok in \<open>simp_all add: comp_def\<close>)
  have "(case map_of ?news k of Some (Some v) \<Rightarrow> v | _ \<Rightarrow> json_value_form x) = native_value_form x" if kx: "(k, x) \<in> set fs" for k x
  proof -
    obtain f where "find (\<lambda>f. fd_name f = k) (sch t) = Some f" using fields[OF kx] by blast
    then have f: "f \<in> set (sch t)" "fd_name f = k" by (auto simp: find_Some_iff)
    have "map_of ?news k = Some (w f)"
      using ok(2) f by (intro map_of_is_SomeI) (auto simp: comp_def)
    moreover have "restored x (w f)" using w[OF f(1)] kx ok(1) by (simp add: f(2))
    ultimately show ?thesis by (simp add: restored_def split: option.splits)
  qed
  then have "map (\<lambda>(k, x). (PStr k, case map_of ?news k of Some (Some v) \<Rightarrow> v | _ \<Rightarrow> json_value_form x)) fs = native_form (Pb_tree t fs)"
    by (auto simp: split_def)
  then show ?case using assigned news
    by (subst normalize_integer_fields.simps) simp
qed auto

subsection \<open>The codec and the stub\<close>

text \<open>
  \<open>google.protobuf\<close>: parsing a dict into a request of a type, serialising it, parsing a response, its JSON
  dict, and the structure that the restoring of integers reads.
\<close>

record ('r, 'm) protobuf =
  pb_is_message :: "string \<Rightarrow> bool"
  pb_parse_dict :: "string \<Rightarrow> pydict \<Rightarrow> exn + 'r"
  pb_serialize :: "'r \<Rightarrow> nat list"
  pb_parse :: "string \<Rightarrow> nat list \<Rightarrow> exn + 'm"
  pb_to_dict :: "'m \<Rightarrow> pyval"
  pb_view :: "'m \<Rightarrow> message"
  pb_schema :: schema
  pb_str_exn :: "exn \<Rightarrow> string"

definition is_parse_failure :: "exn \<Rightarrow> bool" where
  "is_parse_failure e = (case e of ValueErr _ \<Rightarrow> True | TypeErr _ \<Rightarrow> True | UserErr c _ \<Rightarrow> c = ''ParseError'' | _ \<Rightarrow> False)"

definition request_message :: "('r, 'm) protobuf \<Rightarrow> registry_service \<Rightarrow> string \<Rightarrow> pydict \<Rightarrow> exn + 'r" where
  "request_message pb sv meth data = bindR (registry_method sv meth) (\<lambda>rpc.
     case pb_parse_dict pb (rp_request_type rpc) data of
       Inr m \<Rightarrow> Inr m
     | Inl e \<Rightarrow> Inl (if is_parse_failure e
         then codec_error (''Invalid '' @ meth @ '' request for the OJS protobuf schema: '' @ pb_str_exn pb e) else e))"

definition encode_request :: "('r, 'm) protobuf \<Rightarrow> registry_service \<Rightarrow> string \<Rightarrow> pydict \<Rightarrow> exn + nat list" where
  "encode_request pb sv meth data = bindR (request_message pb sv meth data) (\<lambda>m. Inr (pb_serialize pb m))"

definition response_dict :: "('r, 'm) protobuf \<Rightarrow> 'm \<Rightarrow> exn + pydict" where
  "response_dict pb m = (case pb_to_dict pb m of
     PDict d \<Rightarrow> normalize_integer_fields (pb_schema pb) (pb_view pb m) d
   | _ \<Rightarrow> Inl (codec_error ''Expected protobuf response to decode to an object''))"

definition decode_response :: "('r, 'm) protobuf \<Rightarrow> registry_service \<Rightarrow> string \<Rightarrow> nat list \<Rightarrow> exn + pydict" where
  "decode_response pb sv meth data = bindR (registry_method sv meth) (\<lambda>rpc.
     case pb_parse pb (rp_response_type rpc) data of
       Inr m \<Rightarrow> response_dict pb m
     | Inl (UserErr c s) \<Rightarrow> Inl (if c = ''DecodeError''
         then codec_error (''Invalid '' @ meth @ '' protobuf response: '' @ pb_str_exn pb (UserErr c s)) else UserErr c s)
     | Inl e \<Rightarrow> Inl e)"

text \<open>
  \<open>GrpcUnaryStub.call\<close>; the channel sends the bytes to a path with a deadline and metadata and answers with
  bytes, with a status of the call, or raises.
\<close>

type_synonym 'w unary_channel =
  "string \<Rightarrow> nat list \<Rightarrow> rat \<Rightarrow> (string \<times> string) list option \<Rightarrow> 'w \<Rightarrow> (stub_failure + nat list) \<times> 'w"

definition unary_call :: "('r, 'm) protobuf \<Rightarrow> registry_service \<Rightarrow> 'w unary_channel \<Rightarrow> rat
    \<Rightarrow> (string \<times> string) list option \<Rightarrow> string \<Rightarrow> pydict \<Rightarrow> 'w \<Rightarrow> (stub_failure + pydict) \<times> 'w" where
  "unary_call pb sv chan timeout metadata meth request w = (case registry_method sv meth of
     Inl e \<Rightarrow> (Inl (Stub_raised e), w)
   | Inr rpc \<Rightarrow> if rp_client_streaming rpc \<or> rp_server_streaming rpc
       then (Inl (Stub_raised (ValueErr (meth @ '' is not a unary RPC''))), w)
       else (case encode_request pb sv meth request of
         Inl e \<Rightarrow> (Inl (Stub_raised e), w)
       | Inr body \<Rightarrow> (case chan (''/'' @ sv_full_name sv @ ''/'' @ meth) body timeout metadata w of
           (Inl f, w') \<Rightarrow> (Inl f, w')
         | (Inr answer_bytes, w') \<Rightarrow> (case decode_response pb sv meth answer_bytes of
             Inl e \<Rightarrow> (Inl (Stub_raised e), w')
           | Inr d \<Rightarrow> (Inr d, w')))))"

text \<open>
  \<open>GrpcTransport.__init__\<close>: the metadata of every call, and the stub of the transport made of the registry,
  the codec and the channel.
\<close>

definition default_metadata :: "string option \<Rightarrow> string option \<Rightarrow> (string \<times> string) list option \<Rightarrow> (string \<times> string) list option" where
  "default_metadata api_key auth metadata =
     (let meta = (case api_key of None \<Rightarrow> [] | Some k \<Rightarrow> if k = [] then [] else [(''x-ojs-api-key'', k)])
        @ (case auth of None \<Rightarrow> [] | Some a \<Rightarrow> if a = [] then [] else [(''authorization'', a)])
        @ (case metadata of None \<Rightarrow> [] | Some m \<Rightarrow> m)
      in if meta = [] then None else Some meta)"

definition transport_stub :: "('r, 'm) protobuf \<Rightarrow> registry_service \<Rightarrow> 'w unary_channel \<Rightarrow> rat
    \<Rightarrow> (string \<times> string) list option \<Rightarrow> string \<Rightarrow> pydict \<Rightarrow> 'w \<Rightarrow> (stub_failure + pyval) \<times> 'w" where
  "transport_stub pb sv chan timeout metadata meth request w =
     (case unary_call pb sv chan timeout metadata meth request w of (Inl f, w') \<Rightarrow> (Inl f, w') | (Inr d, w') \<Rightarrow> (Inr (PDict d), w'))"

lemma valid_registry_has:
  "new_registry is_message service = Inr sv \<Longrightarrow> meth \<in> set REQUIRED_UNARY_METHODS \<Longrightarrow>
     \<exists>rpc. registry_method sv meth = Inr rpc \<and> map_of (sv_methods sv) meth = Some rpc \<and> is_message (rp_request_type rpc) \<and> is_message (rp_response_type rpc)"
proof -
  assume new: "new_registry is_message service = Inr sv" and m: "meth \<in> set REQUIRED_UNARY_METHODS"
  then have v: "registry_validate is_message sv = Inr ()"
    by (auto simp: new_registry_def bindR_eq_Inr_iff split: option.splits)
  then have "missing_methods sv = []" by (auto simp: registry_validate_def split: if_splits)
  with m obtain rpc where rpc: "map_of (sv_methods sv) meth = Some rpc"
    by (auto simp: missing_methods_def filter_empty_conv)
  then have "(meth, rpc) \<in> set (sv_methods sv)" by (rule map_of_SomeD)
  moreover obtain us where "mapR (\<lambda>(name, rpc).
            if \<not> is_message (rp_request_type rpc) then Inl (registry_error (name @ '' request descriptor is invalid''))
            else if \<not> is_message (rp_response_type rpc) then Inl (registry_error (name @ '' response descriptor is invalid''))
            else Inr ()) (sv_methods sv) = Inr us"
    using v by (auto simp: registry_validate_def bindR_eq_Inr_iff split: if_splits)
  ultimately show ?thesis using rpc unfolding mapR_Inr_iff
    by (auto simp: registry_method_def list_all2_conv_all_nth in_set_conv_nth split: if_splits)
qed

text \<open>
  C17. What the transport gets from the wire: over a registry that passed its validation, every required method
  that is not a streaming one reaches the channel under its path, and a response that protobuf decodes to a
  message of the schema is returned as a dict with Python integers in all its integer fields, nested and
  repeated ones included, whether protobuf's JSON form wrote them as numbers or as strings.
\<close>

theorem grpc_call_native:
  assumes "new_registry (pb_is_message pb) service = Inr sv" and "meth \<in> set REQUIRED_UNARY_METHODS"
    and "map_of (sv_methods sv) meth = Some rpc" and "\<not> rp_client_streaming rpc" and "\<not> rp_server_streaming rpc"
    and "gc_stub g = transport_stub pb sv chan timeout metadata"
    and "pb_parse_dict pb (rp_request_type rpc) request = Inr rq"
    and "chan (''/'' @ sv_full_name sv @ ''/'' @ meth) (pb_serialize pb rq) timeout metadata w = (Inr body, w')"
    and "pb_parse pb (rp_response_type rpc) body = Inr m" and "pb_to_dict pb m = PDict (json_form t)"
    and "pb_view pb m = message_of t" and "conforms (pb_schema pb) t"
  shows "grpc_call g meth request w = (Inr (native_form t), w')"
proof -
  have meth: "registry_method sv meth = Inr rpc"
    using valid_registry_has[OF assms(1,2)] assms(3) by auto
  have "encode_request pb sv meth request = Inr (pb_serialize pb rq)"
    by (simp add: encode_request_def request_message_def meth assms(7))
  moreover have "decode_response pb sv meth body = Inr (native_form t)"
    using normalize_conforming[OF assms(12)]
    by (simp add: decode_response_def meth assms(9) response_dict_def assms(10,11))
  ultimately show ?thesis using assms(4,5,8)
    by (simp add: grpc_call_def assms(6) transport_stub_def unary_call_def meth)
qed

text \<open>The queue statistics of a service whose counts are 64 bits wide.\<close>

definition sample_schema :: schema where
  "sample_schema t = (if t = ''Stats'' then [\<lparr>fd_name = ''available'', fd_repeated = False, fd_type = Integer_type\<rparr>,
       \<lparr>fd_name = ''paused'', fd_repeated = False, fd_type = Other_type\<rparr>]
     else [\<lparr>fd_name = ''queue'', fd_repeated = False, fd_type = Other_type\<rparr>,
       \<lparr>fd_name = ''stats'', fd_repeated = False, fd_type = Message_type ''Stats''\<rparr>,
       \<lparr>fd_name = ''parts'', fd_repeated = True, fd_type = Message_type ''Stats''\<rparr>])"

definition sample_tree :: pb_tree where
  "sample_tree = Pb_tree ''Reply'' [(''queue'', Pb_other (PStr ''q'')),
     (''stats'', Pb_message (Pb_tree ''Stats'' [(''available'', Pb_int True 12)])),
     (''parts'', Pb_messages [Pb_tree ''Stats'' [(''available'', Pb_int True 5), (''paused'', Pb_other (PBool True))],
        Pb_tree ''Stats'' []])]"

definition sample_rpc :: rpc_descriptor where
  "sample_rpc = \<lparr>rp_request_type = ''Request'', rp_response_type = ''Reply'', rp_client_streaming = False, rp_server_streaming = False\<rparr>"

definition sample_service :: registry_service where
  "sample_service = \<lparr>sv_full_name = ''ojs.v1.OJSService'', sv_methods = map (\<lambda>m. (m, sample_rpc)) REQUIRED_UNARY_METHODS\<rparr>"

definition sample_protobuf :: "(pydict, pb_tree) protobuf" where
  "sample_protobuf = \<lparr>pb_is_message = (\<lambda>_. True), pb_parse_dict = (\<lambda>_ d. Inr d), pb_serialize = (\<lambda>_. []),
     pb_parse = (\<lambda>_ _. Inr sample_tree), pb_to_dict = (\<lambda>t. PDict (json_form t)), pb_view = message_of,
     pb_schema = sample_schema, pb_str_exn = (\<lambda>_. [])\<rparr>"

theorem grpc_call_native_witness:
  "\<forall>g :: nat grpc_client. grpc_call (g\<lparr>gc_stub := transport_stub sample_protobuf sample_service (\<lambda>_ _ _ _ n. (Inr [], Suc n)) 30 None\<rparr>)
       ''QueueStats'' [] 0
    = (Inr [(PStr ''queue'', PStr ''q''), (PStr ''stats'', PDict [(PStr ''available'', PInt 12)]),
        (PStr ''parts'', PList [PDict [(PStr ''available'', PInt 5), (PStr ''paused'', PBool True)], PDict []])], 1)"
proof
  fix g :: "nat grpc_client"
  have reg: "new_registry (pb_is_message sample_protobuf) (Some sample_service) = Inr sample_service"
    by (simp add: new_registry_def sample_protobuf_def registry_validate_def sample_service_def missing_methods_def
        REQUIRED_UNARY_METHODS_def)
  have req: "''QueueStats'' \<in> set REQUIRED_UNARY_METHODS" by (simp add: REQUIRED_UNARY_METHODS_def)
  have rpc: "map_of (sv_methods sample_service) ''QueueStats'' = Some sample_rpc"
    by (simp add: sample_service_def REQUIRED_UNARY_METHODS_def)
  have conf: "conforms (pb_schema sample_protobuf) sample_tree"
    by (simp add: sample_protobuf_def sample_tree_def sample_schema_def)
  let ?g = "g\<lparr>gc_stub := transport_stub sample_protobuf sample_service (\<lambda>_ _ _ _ n. (Inr [], Suc n)) 30 None\<rparr>"
  show "grpc_call ?g ''QueueStats'' [] 0 = (Inr [(PStr ''queue'', PStr ''q''), (PStr ''stats'', PDict [(PStr ''available'', PInt 12)]),
        (PStr ''parts'', PList [PDict [(PStr ''available'', PInt 5), (PStr ''paused'', PBool True)], PDict []])], 1)"
    using grpc_call_native[where g = ?g and pb = sample_protobuf and t = sample_tree and m = sample_tree, OF reg req rpc, where w = "0::nat" and w' = 1 and request = "[]"
        and rq = "[]" and body = "[]" and timeout = 30 and metadata = None and chan = "\<lambda>_ _ _ _ n. (Inr [], Suc n)", OF _ _ _ _ _ _ _ _ conf]
    by (simp add: sample_rpc_def sample_protobuf_def sample_tree_def)
qed

end
