(* ===== verification/Grpc_Facts.thy ===== *)
theory Grpc_Facts
  imports Grpc_Transport
begin

section \<open>gRPC: what the transport promises\<close>

text \<open>
  Facts that span the projections, the error mapper, the paging and the operations of
  \<open>Grpc_Transport\<close>: the exceptions of a call, the heartbeat's aggregated state, the listing of every queue,
  the job that a push returns, and two behaviours where an answer is lost.
\<close>

subsection \<open>Failures\<close>

lemma map_grpc_error_ojs: "is_ojs_error (map_grpc_error env err)"
proof (cases "structured_error env err (grpc_code_to_http_status (rpc_code err))")
  case None
  then show ?thesis by (simp add: map_grpc_error_def Let_def)
next
  case (Some e)
  then obtain hs body where "e = map_error_response (ge_http_date env) (ge_now env) (grpc_code_to_http_status (rpc_code err)) body hs"
    by (auto simp: structured_error_def split: option.splits prod.splits)
  then obtain c d where "e = APIErr c (grpc_code_to_http_status (rpc_code err)) d"
    using map_error_response_api by metis
  then show ?thesis using Some by (simp add: map_grpc_error_def Let_def)
qed

text \<open>
  Whatever the stub raises, a call fails with an exception of the SDK, with \<open>ImportError\<close>, or with what is
  no \<open>Exception\<close> at all (a cancellation); a successful answer is an object, and is passed on unchanged.
\<close>

theorem grpc_call_errors:
  "case grpc_call g meth request w of
     (Inl e, w') \<Rightarrow> (is_ojs_error e \<or> (\<exists>m. e = UserErr ''ImportError'' m) \<or> e = CancelledErr) \<and> w' = snd (gc_stub g meth request w)
   | (Inr d, w') \<Rightarrow> gc_stub g meth request w = (Inr (PDict d), w')"
proof (cases "gc_stub g meth request w")
  case (Pair r w')
  have cancel: "\<not> is_exception e \<longleftrightarrow> e = CancelledErr" for e by (cases e) simp_all
  show ?thesis
  proof (cases r)
    case (Inl f)
    then show ?thesis using Pair map_grpc_error_ojs
      by (cases f) (auto simp: grpc_call_def is_import_or_ojs_def cancel split: exn.splits)
  next
    case (Inr v)
    then show ?thesis using Pair by (cases v) (simp_all add: grpc_call_def)
  qed
qed

subsection \<open>Heartbeats\<close>

lemma state_priority_cases:
  "(case state_priority s of Some n \<Rightarrow> n | None \<Rightarrow> 0) = (if s = ''terminate'' then 2 else if s = ''quiet'' then 1 else (0::nat))"
  by (simp add: state_priority_def)

text \<open>
  The directives of a server in the order of their strength, and the aggregation of many answers as the
  maximum of this order (an unknown name counts as the weakest).
\<close>

datatype directive = Keep_running | Go_quiet | Go_terminate

fun directive_rank :: "directive \<Rightarrow> nat" where
  "directive_rank Keep_running = 0"
| "directive_rank Go_quiet = 1"
| "directive_rank Go_terminate = 2"

fun directive_name :: "directive \<Rightarrow> string" where
  "directive_name Keep_running = ''running''"
| "directive_name Go_quiet = ''quiet''"
| "directive_name Go_terminate = ''terminate''"

definition directive_of :: "string \<Rightarrow> directive" where
  "directive_of s = (if s = ''terminate'' then Go_terminate else if s = ''quiet'' then Go_quiet else Keep_running)"

lemma directive_rank_inj: "directive_rank x = directive_rank y \<longleftrightarrow> x = y"
  by (cases x; cases y) simp_all

instantiation directive :: linorder
begin

definition less_eq_directive :: "directive \<Rightarrow> directive \<Rightarrow> bool" where
  "x \<le> y \<longleftrightarrow> directive_rank x \<le> directive_rank y"

definition less_directive :: "directive \<Rightarrow> directive \<Rightarrow> bool" where
  "x < y \<longleftrightarrow> directive_rank x < directive_rank y"

instance
  by standard (auto simp: less_eq_directive_def less_directive_def directive_rank_inj[symmetric])

end

lemma stronger_max: "stronger (directive_name d) s = directive_name (max d (directive_of s))"
  by (cases d) (simp_all add: stronger_def state_priority_cases directive_of_def max_def less_eq_directive_def)

lemma foldl_stronger_max:
  "foldl (\<lambda>selected r. stronger selected (f r)) (directive_name d) rs = directive_name (Max (insert d (set (map (directive_of \<circ> f) rs))))"
proof (induction rs arbitrary: d)
  case (Cons r rs)
  have "Max (insert (max d x) A) = Max (insert d (insert x A))" if "finite A" for x and A :: "directive set"
    using that by (cases "A = {}") (simp_all add: max.assoc)
  then show ?case using Cons.IH[of "max d (directive_of (f r))"] by (simp add: stronger_max)
qed simp

lemma aggregate_is_maximum:
  "aggregate_heartbeat_states str_of responses
     = directive_name (Max (insert Keep_running (set (map (directive_of \<circ> directed_state str_of) responses))))"
  using foldl_stronger_max[where d = Keep_running] by (simp add: aggregate_heartbeat_states_def)

lemma foldl_stronger:
  "s \<in> {''running'', ''quiet'', ''terminate''} \<Longrightarrow>
     foldl (\<lambda>selected r. stronger selected (f r)) s rs =
       (if s = ''terminate'' \<or> (\<exists>r \<in> set rs. f r = ''terminate'') then ''terminate''
        else if s = ''quiet'' \<or> (\<exists>r \<in> set rs. f r = ''quiet'') then ''quiet'' else ''running'')"
proof (induction rs arbitrary: s)
  case (Cons r rs)
  have "stronger s (f r) \<in> {''running'', ''quiet'', ''terminate''}"
    "stronger s (f r) = (if s = ''terminate'' \<or> f r = ''terminate'' then ''terminate''
        else if s = ''quiet'' \<or> f r = ''quiet'' then ''quiet'' else ''running'')"
    using Cons.prems by (auto simp: stronger_def state_priority_cases)
  then show ?case using Cons.IH[of "stronger s (f r)"] by auto
qed auto

lemma heartbeat_requests_length:
  assumes "heartbeat_requests worker_id active vis = Inr requests"
  shows "length requests = max 1 (length (case active of None \<Rightarrow> [] | Some js \<Rightarrow> js))"
proof -
  define ids where "ids = (case active of None \<Rightarrow> [] | Some js \<Rightarrow> js)"
  have "mapR (heartbeat_request worker_id vis) (if ids = [] then [worker_id] else ids) = Inr requests"
    using assms by (simp only: heartbeat_requests_def Let_def ids_def)
  from mapR_length[OF this] show ?thesis
    unfolding ids_def[symmetric] by (cases ids) simp_all
qed

text \<open>
  C31. A heartbeat makes one call for each active job, or a single one for an idle worker; the state it reports is
  the strongest that any answer directs (terminate before quiet before running), so no directive is
  lost among the answers, and every job is reported as extended.
\<close>

theorem grpc_heartbeat_strongest:
  "case grpc_heartbeat g worker_id active vis w of
     (Inl _, _) \<Rightarrow> True
   | (Inr d, w') \<Rightarrow> (\<exists>requests responses.
        heartbeat_requests worker_id active vis = Inr requests
      \<and> length requests = max 1 (length (case active of None \<Rightarrow> [] | Some js \<Rightarrow> js))
      \<and> mapIO (grpc_call g ''Heartbeat'') requests w = (Inr responses, w')
      \<and> dget d ''state'' = Some (PStr
          (if list_ex (\<lambda>r. directed_state (gc_str g) r = ''terminate'') responses then ''terminate''
           else if list_ex (\<lambda>r. directed_state (gc_str g) r = ''quiet'') responses then ''quiet'' else ''running''))
      \<and> dget d ''jobs_extended'' = Some (pstrs (case active of None \<Rightarrow> [] | Some js \<Rightarrow> js)))"
proof -
  let ?ids = "case active of None \<Rightarrow> [] | Some js \<Rightarrow> js"
  have ids: "heartbeat_requests worker_id (Some ?ids) vis = heartbeat_requests worker_id active vis"
    by (simp add: heartbeat_requests_def Let_def)
  show ?thesis
  proof (cases "heartbeat_requests worker_id active vis")
    case (Inl e)
    then show ?thesis by (simp add: grpc_heartbeat_def Let_def ids bindIO_def liftIO_def)
  next
    case (Inr requests)
    show ?thesis
    proof (cases "mapIO (grpc_call g ''Heartbeat'') requests w")
      case (Pair r w')
      then show ?thesis using Inr heartbeat_requests_length[OF Inr]
        foldl_stronger[of "''running''" "directed_state (gc_str g)"]
        by (cases r) (simp_all add: grpc_heartbeat_def Let_def ids bindIO_def liftIO_def retIO_def
            aggregate_heartbeat_states_def list_ex_iff)
    qed
  qed
qed

subsection \<open>Listing every queue\<close>

text \<open>The listing as a paging server: the limit and the cursor of a request.\<close>

definition queues_page :: "'w grpc_client \<Rightarrow> 'w page_fetcher" where
  "queues_page g n cursor = grpc_call g ''ListQueues'' ([(PStr ''limit'', PInt n)] @ opt_entry (cursor \<noteq> []) ''cursor'' (PStr cursor))"

lemma queues_page_request: "grpc_call g ''ListQueues'' (queues_request c) = queues_page g 100 c"
  by (simp add: queues_page_def queues_request_def)

lemma mapR_append: "mapR f (xs @ ys) = bindR (mapR f xs) (\<lambda>as. bindR (mapR f ys) (\<lambda>bs. Inr (as @ bs)))"
proof (induction xs)
  case Nil
  then show ?case by (cases "mapR f ys") simp_all
next
  case (Cons x xs)
  then show ?case by (cases "f x"; cases "mapR f xs"; cases "mapR f ys") simp_all
qed

lemma list_queues_page:
  assumes pages: "pages_through counted (queues_page g) ''queues'' items position ok"
    and "ok w" "position c \<le> length items" "\<forall>s \<in> seen. position s \<le> position c"
    and "mapR (decode_queue g) (drop (position c) items) = Inr rest"
  shows "\<exists>w'. list_queues_loop g c seen got w = Some (Inr (got @ rest), w') \<and> ok w'"
  using assms(2-)
proof (induction "length items - position c" arbitrary: c seen got rest w rule: less_induct)
  case less
  obtain r w' k where r: "queues_page g 100 c w = (Inr r, w')" "ok w'" "position c + k \<le> length items"
    and page: "dget r ''queues'' = Some (PList (take k (drop (position c) items)))"
    and cur: "if position c + k = length items then response_cursor r = []
             else 0 < k \<and> response_cursor r \<noteq> [] \<and> position (response_cursor r) = position c + k"
    using pages less.prems(1,2) unfolding pages_through_def by (metis one_le_numeral)
  have "take k (drop (position c) items) @ drop (position c + k) items = drop (position c) items"
    by (metis append_take_drop_id drop_drop add.commute)
  then have "mapR (decode_queue g) (take k (drop (position c) items) @ drop (position c + k) items) = Inr rest"
    using less.prems(4) by simp
  then obtain qs rest' where qs: "mapR (decode_queue g) (take k (drop (position c) items)) = Inr qs"
    and rest': "mapR (decode_queue g) (drop (position c + k) items) = Inr rest'" "rest = qs @ rest'"
    by (auto simp: mapR_append bindR_eq_Inr_iff)
  have step: "list_queues_loop g c seen got w =
      (if response_cursor r = [] then Some (Inr (got @ qs), w')
       else if response_cursor r \<in> seen
       then Some (Inl (ConnectionErr ''gRPC queue pagination returned a repeated cursor''), w')
       else list_queues_loop g (response_cursor r) (insert (response_cursor r) seen) (got @ qs) w')"
    using r(1) page qs by (subst list_queues_loop.simps) (simp add: queues_page_request decode_queues_def dget_default_def)
  show ?case
  proof (cases "response_cursor r = []")
    case True
    then have "position c + k = length items" using cur by (auto split: if_splits)
    then have "rest' = []" using rest'(1) by simp
    then show ?thesis using True step r(2) rest'(2) by simp
  next
    case False
    then have more: "0 < k" "position (response_cursor r) = position c + k" using cur by (auto split: if_splits)
    then have new: "response_cursor r \<notin> seen" using less.prems(3) by fastforce
    have "length items - position (response_cursor r) < length items - position c"
      "position (response_cursor r) \<le> length items"
      "\<forall>x \<in> insert (response_cursor r) seen. position x \<le> position (response_cursor r)"
      "mapR (decode_queue g) (drop (position (response_cursor r)) items) = Inr rest'"
      using more r(3) less.prems(3) rest'(1) by auto
    then show ?thesis
      using less.hyps[of "response_cursor r" w' "insert (response_cursor r) seen" rest' "got @ qs"] r(2) rest'(2) False step new
      by simp
  qed
qed

text \<open>
  C32. Against a server that pages through its queues, listing returns: every queue once, in the order of the
  server, however the server cuts the pages.
\<close>

theorem list_queues_complete:
  assumes "pages_through counted (queues_page g) ''queues'' items position ok" "ok w"
    and "mapR (decode_queue g) items = Inr queues"
  shows "\<exists>w'. grpc_list_queues g w = Some (Inr queues, w') \<and> ok w'"
proof -
  have "position [] = 0" using assms(1) by (simp add: pages_through_def)
  then show ?thesis
    using list_queues_page[OF assms(1,2), of "[]" "{}" queues "[]"] assms(3) by (simp add: grpc_list_queues_def)
qed

text \<open>A client whose server pages through a list of queues, and answers an enqueue with its own job.\<close>

definition echo_job :: "string \<Rightarrow> pydict \<Rightarrow> pyval" where
  "echo_job i m = PDict [(PStr ''id'', PStr i), (PStr ''type'', dget_default m ''type'' PNone),
     (PStr ''args'', dget_default m ''args'' PNone)]"

definition sample_client :: "pyval list \<Rightarrow> nat grpc_client" where
  "sample_client queues = \<lparr>
     gc_stub = (\<lambda>meth m w. if meth = ''ListQueues''
        then (case (dget m ''limit'', dget_default m ''cursor'' (PStr [])) of
            (Some (PInt n), PStr c) \<Rightarrow> (case list_server 2 ''queues'' queues n c w of (Inr r, w') \<Rightarrow> (Inr (PDict r), w')
               | (Inl e, w') \<Rightarrow> (Inl (Stub_raised e), w'))
          | _ \<Rightarrow> (Inr PNone, w))
        else (Inr (PDict [(PStr ''job'', echo_job ''j1'' m)]), w + 1)),
     gc_env = grpc_sample_env None, gc_str_exn = (\<lambda>_. []), gc_str = (\<lambda>_. []), gc_isop = (\<lambda>_. None),
     gc_now = (\<lambda>_. NaiveDT 0)\<rparr>"

definition queue_message :: "string \<Rightarrow> pyval" where
  "queue_message n = PDict [(PStr ''name'', PStr n)]"

lemma sample_client_pages:
  "pages_through True (queues_page (sample_client queues)) ''queues'' queues nat_of_digits (\<lambda>_. True)"
proof -
  have "queues_page (sample_client queues) n c w = list_server 2 ''queues'' queues n c w" for n c w
    by (simp add: queues_page_def grpc_call_def sample_client_def dget_default_def opt_entry_def list_server_def Let_def)
  then have "queues_page (sample_client queues) = list_server 2 ''queues'' queues" by (intro ext)
  then show ?thesis using list_server_pages[of 2 "''queues''" queues] by simp
qed

theorem list_queues_complete_witness:
  "\<exists>w' queues. grpc_list_queues (sample_client (map queue_message [''a'', ''b'', ''c''])) 0 = Some (Inr queues, w')
     \<and> map q_name queues = [''a'', ''b'', ''c'']"
proof -
  let ?items = "map queue_message [''a'', ''b'', ''c'']"
  have "mapR (decode_queue (sample_client ?items)) ?items
      = Inr (map (\<lambda>n. \<lparr>q_name = n, q_status = ''active'', q_created_at = None\<rparr>) [''a'', ''b'', ''c''])"
    by (simp add: decode_queue_def queue_message_def proto_get_def queue_from_dict_def wire_object_def required_string_def
        wire_string_def wire_datetime_def queue_status_def or_str_def dget_default_def sample_client_def)
  from list_queues_complete[OF sample_client_pages _ this, where w = 0] show ?thesis by fastforce
qed

subsection \<open>A pushed job comes back\<close>

text \<open>The dicts \<open>_from_proto_value\<close> takes for a protobuf value.\<close>

definition value_message :: "pydict \<Rightarrow> bool" where
  "value_message d \<longleftrightarrow> list_ex (dhas d) [''string_value'', ''number_value'', ''bool_value'', ''null_value'', ''list_value'', ''struct_value'']"

fun plain_argument :: "pyval \<Rightarrow> bool" where
  "plain_argument (PDict d) = (\<not> value_message d)"
| "plain_argument _ = True"

lemma plain_argument_kept: "plain_argument v \<Longrightarrow> from_proto_value v = Inr v"
  by (cases v) (auto simp: value_message_def dhas_def)

lemma plain_arguments_kept: "list_all plain_argument xs \<Longrightarrow> mapR from_proto_value xs = Inr xs"
  by (induction xs) (simp_all add: plain_argument_kept)

lemma proto_job_state_available: "proto_job_state (PStr ''available'') = ''available''"
  by code_simp

lemma project_echo:
  "project_job_dict str_of [(PStr ''id'', PStr i), (PStr ''type'', PStr t), (PStr ''args'', PList xs)]
     = Inr [(PStr ''id'', PStr i), (PStr ''type'', PStr t), (PStr ''queue'', PStr ''default''), (PStr ''args'', PList xs),
        (PStr ''meta'', PDict []), (PStr ''state'', PStr ''available''), (PStr ''priority'', PInt 0), (PStr ''attempt'', PInt 0),
        (PStr ''tags'', PList []), (PStr ''errors'', PList []), (PStr ''result'', PNone), (PStr ''created_at'', PNone),
        (PStr ''enqueued_at'', PNone), (PStr ''started_at'', PNone), (PStr ''completed_at'', PNone),
        (PStr ''scheduled_at'', PNone), (PStr ''expires_at'', PNone)]"
  by (simp add: project_job_dict_def dget_default_def as_plist_def py_dict_def sub_dict_def conv_timeout_def
      proto_job_state_available Let_def)

lemma available_state: "job_state_field \<lparr>dec_data = d, dec_path = p\<rparr> = Inr Available"
  if "dget d ''state'' = Some (PStr ''available'')" for d p
proof -
  have "parse_state ''available'' = Some Available" using parse_state_value[of Available] by simp
  then show ?thesis using that by (simp add: job_state_field_def wire_string_def dget_default_def or_str_def)
qed

lemma decode_echo:
  assumes "mapR from_proto_value xs = Inr ys"
  shows "\<exists>j. decode_job g (echo_job i [(PStr ''type'', PStr t), (PStr ''args'', PList xs)]) = Inr j
     \<and> j_id j = i \<and> j_type j = t \<and> j_args j = ys \<and> j_state j = Available \<and> j_queue j = ''default''"
proof -
  let ?p = "[(PStr ''id'', PStr i), (PStr ''type'', PStr t), (PStr ''queue'', PStr ''default''), (PStr ''args'', PList ys),
        (PStr ''meta'', PDict []), (PStr ''state'', PStr ''available''), (PStr ''priority'', PInt 0), (PStr ''attempt'', PInt 0),
        (PStr ''tags'', PList []), (PStr ''errors'', PList []), (PStr ''result'', PNone), (PStr ''created_at'', PNone),
        (PStr ''enqueued_at'', PNone), (PStr ''started_at'', PNone), (PStr ''completed_at'', PNone),
        (PStr ''scheduled_at'', PNone), (PStr ''expires_at'', PNone)]"
  have "from_proto_job (gc_str g) (echo_job i [(PStr ''type'', PStr t), (PStr ''args'', PList xs)]) = Inr ?p"
    using assms by (simp add: from_proto_job_def echo_job_def from_proto_args_def dget_default_def dset_def project_job_def project_echo)
  moreover have "\<exists>j. job_from_dict (gc_isop g) (PDict ?p) = Inr j
     \<and> j_id j = i \<and> j_type j = t \<and> j_args j = ys \<and> j_state j = Available \<and> j_queue j = ''default''"
    by (simp add: job_from_dict_def wire_object_def optional_mapping_def available_state job_errors_field_def wire_array_def
        required_string_def wire_string_def wire_mapping_def wire_integer_def string_array_def wire_datetime_def
        dget_default_def or_str_def)
  ultimately show ?thesis by (simp add: decode_job_def)
qed

lemma echo_job_fields: "dget m ''type'' = Some t \<Longrightarrow> dget m ''args'' = Some a \<Longrightarrow>
    echo_job i m = echo_job i [(PStr ''type'', t), (PStr ''args'', a)]"
  by (simp add: echo_job_def dget_default_def)

lemma push_echo:
  assumes "project_enqueue (gc_str g) (gc_isop g) (gc_now g w) (request_to_dict r) = Inr m"
    and "gc_stub g ''Enqueue'' m w = (Inr (PDict [(PStr ''job'', echo_job i m)]), w')"
    and "mapR from_proto_value (jr_args r) = Inr ys"
  shows "\<exists>j. grpc_push g (request_to_dict r) w = (Inr j, w') \<and> j_id j = i \<and> j_type j = jr_type r \<and> j_args j = ys
     \<and> j_state j = Available \<and> j_queue j = ''default''"
proof -
  have m: "dget m ''type'' = Some (PStr (jr_type r))" "dget m ''args'' = Some (PList (jr_args r))"
    using project_enqueue_request[OF assms(1)] by blast+
  obtain j where j: "decode_job g (echo_job i m) = Inr j" "j_id j = i" "j_type j = jr_type r" "j_args j = ys"
      "j_state j = Available" "j_queue j = ''default''"
    using decode_echo[OF assms(3), of g i "jr_type r"] unfolding echo_job_fields[OF m] by blast
  have "grpc_push g (request_to_dict r) w = (Inr j, w')"
    using assms(1,2) j(1)
    by (simp add: grpc_push_def project_body_def job_call_def bindIO_def grpc_call_def liftIO_def dget_default_def)
  then show ?thesis using j by blast
qed

text \<open>
  A request pushed to a server that answers with the job as it was sent returns that job, with its
  type and its arguments, available and in the default queue, provided no argument looks like a protobuf value.
\<close>

theorem grpc_push_returns_job:
  assumes "project_enqueue (gc_str g) (gc_isop g) (gc_now g w) (request_to_dict r) = Inr m"
    and "gc_stub g ''Enqueue'' m w = (Inr (PDict [(PStr ''job'', echo_job i m)]), w')"
    and "list_all plain_argument (jr_args r)"
  shows "\<exists>j. grpc_push g (request_to_dict r) w = (Inr j, w') \<and> j_id j = i \<and> j_type j = jr_type r \<and> j_args j = jr_args r
     \<and> j_state j = Available \<and> j_queue j = ''default''"
  using push_echo[OF assms(1,2) plain_arguments_kept[OF assms(3)]] .

lemma sample_client_echo:
  "gc_stub (sample_client []) ''Enqueue'' m w = (Inr (PDict [(PStr ''job'', echo_job ''j1'' m)]), w + 1)"
  by (simp add: sample_client_def)

lemma project_plain_request:
  "jr_type r \<noteq> [] \<Longrightarrow> r = new_request (jr_type r) (jr_args r) \<Longrightarrow>
     project_enqueue str_of isop now (request_to_dict r)
       = Inr [(PStr ''type'', PStr (jr_type r)), (PStr ''args'', PList (jr_args r))]"
proof -
  assume t: "jr_type r \<noteq> []" and r: "r = new_request (jr_type r) (jr_args r)"
  have "request_to_dict r = [(PStr ''type'', PStr (jr_type r)), (PStr ''args'', PList (jr_args r))]"
    by (subst r) (simp add: request_to_dict_def request_options_def new_request_def opt_entry_def or_str_def)
  then show ?thesis using t
    by (simp add: project_enqueue_def dget_default_def proto_options_def get_or_def dict_get_def conv_ms_def sub_dict_def
        opt_entry_def)
qed

theorem grpc_push_returns_job_witness:
  "\<exists>j. grpc_push (sample_client []) (request_to_dict (new_request ''mail.send'' [PInt 7])) 0 = (Inr j, 1)
     \<and> j_args j = [PInt 7]"
  using grpc_push_returns_job[OF project_plain_request[of "new_request ''mail.send'' [PInt 7]" _ _ _] sample_client_echo, of 0]
  by (auto simp: new_request_def)

text \<open>
  C39. An argument that is a dict with a key \<open>string_value\<close> is taken for a protobuf value although the codec has
  already decoded it: the job that comes back has only the value under that key, and everything else
  of the argument is lost.
\<close>

theorem grpc_argument_unwrapped:
  assumes "project_enqueue (gc_str g) (gc_isop g) (gc_now g w) (request_to_dict r) = Inr m"
    and "gc_stub g ''Enqueue'' m w = (Inr (PDict [(PStr ''job'', echo_job i m)]), w')"
    and "jr_args r = [PDict d]" "dget d ''string_value'' = Some v"
  shows "\<exists>j. grpc_push g (request_to_dict r) w = (Inr j, w') \<and> j_args j = [v]"
proof -
  have "mapR from_proto_value (jr_args r) = Inr [v]" using assms(3,4) by (cases "d = []") simp_all
  from push_echo[OF assms(1,2) this] show ?thesis by blast
qed

theorem grpc_argument_unwrapped_witness:
  "\<exists>j. grpc_push (sample_client []) (request_to_dict (new_request ''mail.send''
       [PDict [(PStr ''string_value'', PStr ''x''), (PStr ''to'', PStr ''y'')]])) 0 = (Inr j, 1) \<and> j_args j = [PStr ''x'']"
proof -
  let ?r = "new_request ''mail.send'' [PDict [(PStr ''string_value'', PStr ''x''), (PStr ''to'', PStr ''y'')]]"
  have "project_enqueue (gc_str (sample_client [])) (gc_isop (sample_client [])) (gc_now (sample_client []) 0) (request_to_dict ?r)
      = Inr [(PStr ''type'', PStr (jr_type ?r)), (PStr ''args'', PList (jr_args ?r))]"
    by (rule project_plain_request) (simp_all add: new_request_def)
  from grpc_argument_unwrapped[OF this sample_client_echo] show ?thesis by (auto simp: new_request_def)
qed

subsection \<open>Queue statistics\<close>

lemma queue_stats_counts:
  assumes "queue_stats_from_dict isop (PDict d) = Inr s" "dget d ''stats'' = Some (PDict st)"
  shows "stat_count \<lparr>dec_data = st, dec_path = ''queue_stats.stats''\<rparr> ''discarded'' = Inr (qs_discarded s)
    \<and> stat_count \<lparr>dec_data = st, dec_path = ''queue_stats.stats''\<rparr> ''available'' = Inr (qs_available s)"
proof -
  let ?w = "\<lparr>dec_data = d, dec_path = ''queue_stats''\<rparr>" and ?v = "\<lparr>dec_data = st, dec_path = ''queue_stats.stats''\<rparr>"
  have outer: "wire_object (PDict d) ''queue_stats'' = Inr ?w"
    using assms(1) by (cases "str_keys d") (simp_all add: queue_stats_from_dict_def wire_object_def)
  have stats: "wire_value ?w ''stats'' (PDict []) = PDict st" using assms(2) by (simp add: wire_value_def)
  have inner: "wire_object (PDict st) ''queue_stats.stats'' = Inr ?v"
    using assms(1) unfolding queue_stats_from_dict_def outer bindR_simps stats
    by (cases "str_keys st") (simp_all add: wire_object_def)
  show ?thesis
    using assms(1) unfolding queue_stats_from_dict_def outer bindR_simps stats inner bindR_eq_Inr_iff
    by (elim exE conjE) (simp only: sum.inject, hypsubst, simp)
qed

text \<open>
  The number of discarded jobs is always reported as zero: the transport passes the server's count
  on under the name \<open>dead\<close>, and \<open>QueueStats\<close> reads \<open>discarded\<close>.  The other counts are those of the answer.
\<close>

theorem grpc_queue_stats_discarded:
  "case grpc_queue_stats g queue_name w of
     (Inl _, _) \<Rightarrow> True
   | (Inr s, w') \<Rightarrow> qs_discarded s = 0
       \<and> (\<exists>r stats. grpc_call g ''QueueStats'' [(PStr ''queue'', PStr queue_name)] w = (Inr r, w')
            \<and> dget_default r ''stats'' (PDict []) = PDict stats
            \<and> (dget_default stats ''available'' (PInt 0) = PInt (qs_available s) \<or> dget stats ''available'' = Some PNone))"
proof (cases "grpc_queue_stats g queue_name w")
  case (Pair res w')
  show ?thesis
  proof (cases res)
    case (Inr s)
    then obtain r stats where r: "grpc_call g ''QueueStats'' [(PStr ''queue'', PStr queue_name)] w = (Inr r, w')"
      "dget_default r ''stats'' (PDict []) = PDict stats"
      "queue_stats_from_dict (gc_isop g) (PDict (proto_stats queue_name r stats)) = Inr s"
      using Pair by (auto simp: grpc_queue_stats_def bindIO_def liftIO_def split: prod.splits sum.splits pyval.splits)
    define st where "st = map (\<lambda>k. (PStr k, dget_default stats k (PInt 0)))
         [''available'', ''active'', ''scheduled'', ''retryable'', ''dead'', ''completed_last_hour'', ''failed_last_hour'']"
    have st: "dget st ''discarded'' = None" "dget st ''available'' = Some (dget_default stats ''available'' (PInt 0))"
      by (simp_all add: st_def)
    have "dget (proto_stats queue_name r stats) ''stats'' = Some (PDict st)" by (simp add: proto_stats_def st_def)
    from queue_stats_counts[OF r(3) this]
    have counts: "qs_discarded s = 0"
        "wire_integer \<lparr>dec_data = st, dec_path = ''queue_stats.stats''\<rparr> ''available'' (Some 0) \<in> {Inr (Some (qs_available s)), Inr None}"
      using st by (auto simp: stat_count_def bindR_eq_Inr_iff or_zero_def wire_integer_def[of _ "''discarded''"] dget_default_def[of st]
          split: option.splits)
    then have "qs_discarded s = 0
      \<and> (dget_default stats ''available'' (PInt 0) = PInt (qs_available s) \<or> dget_default stats ''available'' (PInt 0) = PNone)"
      using st(2) unfolding wire_integer_def decoder.simps dget_default_def[of st] option.case
      by (cases "dget_default stats ''available'' (PInt 0)") simp_all
    moreover have "dget_default stats ''available'' (PInt 0) = PNone \<Longrightarrow> dget stats ''available'' = Some PNone"
      by (cases "dget stats ''available''") simp_all
    ultimately have "qs_discarded s = 0 \<and> (dget_default stats ''available'' (PInt 0) = PInt (qs_available s) \<or> dget stats ''available'' = Some PNone)"
      by blast
    then show ?thesis unfolding Pair Inr prod.case sum.case using r(1,2) by blast
  qed (simp add: Pair)
qed

end
