(* ===== verification/Job_Context.thy ===== *)
theory Job_Context
  imports Middleware Queues_Events Lease
begin

section \<open>The job context at run time\<close>

text \<open>
  \<open>JobContext\<close> of \<open>src/ojs/job.py\<close> with the hooks a worker binds, \<open>src/ojs/progress.py\<close>, and the binding
  in \<open>Worker._process_job\<close> (\<open>src/ojs/worker/runtime.py\<close>).  The hooks act on a world \<open>'w\<close>; the transport a
  context carries is of any type.
\<close>

record ('w, 't) runtime_context =
  rt_context :: job_context
  rt_transport :: "'t option"
  rt_retry_sleep :: "(rat \<Rightarrow> ('w, unit) io) option"
  rt_lease_remaining :: "('w \<Rightarrow> rat) option"
  rt_progress :: "(int \<Rightarrow> string \<Rightarrow> pydict option \<Rightarrow> ('w, unit) io) option"

text \<open>
  \<open>JobContext(job, attempt, parent_results)\<close>: a list of its own of the results, and no hooks.  The two
  deprecated arguments warn when they are used (\<open>warn\<close>: a filter may make that an exception).
\<close>

definition construct_context :: "('w, unit) io \<Rightarrow> job \<Rightarrow> int \<Rightarrow> pyval list option \<Rightarrow> bool \<Rightarrow> 't option
    \<Rightarrow> ('w, ('w, 't) runtime_context) io" where
  "construct_context warn j attempt parents cancelled transport =
     (let c = \<lparr>rt_context = (new_context j attempt (case parents of None \<Rightarrow> [] | Some ps \<Rightarrow> ps))\<lparr>jc_cancelled := cancelled\<rparr>,
        rt_transport = transport, rt_retry_sleep = None, rt_lease_remaining = None, rt_progress = None\<rparr>
      in if cancelled \<or> transport \<noteq> None then bindIO warn (\<lambda>_. retIO c) else retIO c)"

definition bind_runtime :: "'t option \<Rightarrow> (rat \<Rightarrow> ('w, unit) io) option \<Rightarrow> ('w \<Rightarrow> rat) option
    \<Rightarrow> (int \<Rightarrow> string \<Rightarrow> pydict option \<Rightarrow> ('w, unit) io) option \<Rightarrow> ('w, 't) runtime_context \<Rightarrow> ('w, 't) runtime_context" where
  "bind_runtime transport retry_sleep remaining progress c =
     c\<lparr>rt_transport := transport, rt_retry_sleep := retry_sleep, rt_lease_remaining := remaining, rt_progress := progress\<rparr>"

definition context_job_id :: "('w, 't) runtime_context \<Rightarrow> string" where
  "context_job_id c = j_id (jc_job (rt_context c))"

definition context_job_type :: "('w, 't) runtime_context \<Rightarrow> string" where
  "context_job_type c = j_type (jc_job (rt_context c))"

definition context_args :: "('w, 't) runtime_context \<Rightarrow> pyval list" where
  "context_args c = j_args (jc_job (rt_context c))"

definition context_meta :: "('w, 't) runtime_context \<Rightarrow> pydict" where
  "context_meta c = j_meta (jc_job (rt_context c))"

definition context_is_cancelled :: "('w, 't) runtime_context \<Rightarrow> bool" where
  "context_is_cancelled c = jc_cancelled (rt_context c)"

definition context_cancel :: "('w, 't) runtime_context \<Rightarrow> ('w, 't) runtime_context" where
  "context_cancel c = c\<lparr>rt_context := cancel_context (rt_context c)\<rparr>"

definition context_lease_remaining :: "('w, 't) runtime_context \<Rightarrow> 'w \<Rightarrow> rat option" where
  "context_lease_remaining c w = (case rt_lease_remaining c of None \<Rightarrow> None | Some f \<Rightarrow> Some (f w))"

definition context_sleep_before_retry :: "(rat \<Rightarrow> ('w, unit) io) \<Rightarrow> ('w, 't) runtime_context \<Rightarrow> rat \<Rightarrow> ('w, unit) io" where
  "context_sleep_before_retry asyncio_sleep c delay = (case rt_retry_sleep c of
     None \<Rightarrow> asyncio_sleep delay | Some slp \<Rightarrow> slp delay)"

definition context_report_progress :: "('w, 't) runtime_context \<Rightarrow> int \<Rightarrow> string \<Rightarrow> pydict option \<Rightarrow> ('w, unit) io" where
  "context_report_progress c percentage message data = (case rt_progress c of
     None \<Rightarrow> raiseIO (CapabilityErr ''progress reporting is unavailable outside an active worker execution'')
   | Some f \<Rightarrow> f percentage message data)"

text \<open>\<open>_report_progress\<close>: the checked body goes to the transport, whose answer is dropped.\<close>

definition report_progress :: "(pydict \<Rightarrow> ('w, pyval) io) \<Rightarrow> string \<Rightarrow> int \<Rightarrow> string \<Rightarrow> pydict option \<Rightarrow> ('w, unit) io" where
  "report_progress transport job_id percentage message data =
     bindIO (liftIO (progress_body job_id percentage message data)) (\<lambda>body. bindIO (transport body) (\<lambda>_. retIO ()))"

text \<open>\<open>_process_job\<close>: the context of an execution; without a lease its two hooks stay unbound.\<close>

definition worker_context :: "'t \<Rightarrow> (pydict \<Rightarrow> ('w, pyval) io) \<Rightarrow> ((rat \<Rightarrow> ('w, unit) io) \<times> ('w \<Rightarrow> rat)) option \<Rightarrow> job
    \<Rightarrow> ('w, ('w, 't) runtime_context) io" where
  "worker_context transport progress lease j =
     bindIO (construct_context (retIO ()) j (max 1 (j_attempt j)) None False None) (\<lambda>c.
       retIO (bind_runtime (Some transport) (map_option fst lease) (map_option snd lease)
         (Some (\<lambda>percentage message data. report_progress progress (j_id j) percentage message data)) c))"

text \<open>
  What a handler can do through its context.  In a worker, progress goes to the worker's transport under the
  id of the handler's own job, checked first, and the retry sleep is the lease's; outside one, progress is
  refused, the lease is unknown and the sleep is a plain one.
\<close>

theorem context_hooks:
  "(\<exists>c. worker_context t progress lease j w = (Inr c, w)
      \<and> context_report_progress c p msg d = report_progress progress (j_id j) p msg d
      \<and> context_job_id c = j_id j \<and> \<not> context_is_cancelled c \<and> context_is_cancelled (context_cancel c)
      \<and> context_lease_remaining c w = map_option (\<lambda>(_, rem). rem w) lease
      \<and> context_sleep_before_retry plain c delay = (case lease of None \<Rightarrow> plain delay | Some (slp, _) \<Rightarrow> slp delay))
   \<and> (\<exists>c :: ('w, 't) runtime_context. construct_context warn j a ps False None w = (Inr c, w)
      \<and> fst (context_report_progress c p msg d w) = Inl (CapabilityErr ''progress reporting is unavailable outside an active worker execution'')
      \<and> context_lease_remaining c w = None \<and> context_sleep_before_retry plain c delay = plain delay)"
  by (cases lease)
    (auto simp: worker_context_def construct_context_def bind_runtime_def bindIO_def retIO_def raiseIO_def new_context_def
      context_report_progress_def context_job_id_def context_is_cancelled_def context_cancel_def cancel_context_def
      context_lease_remaining_def context_sleep_before_retry_def)

lemma report_progress_spec:
  "report_progress transport i p msg d w = (if i = [] then (Inl (ValueErr ''job_id is required for progress reporting''), w)
     else if p < 0 \<or> 100 < p then (Inl (ValueErr (''percentage must be between 0 and 100, got '' @ string_of_int p)), w)
     else (case transport ([(PStr ''job_id'', PStr i), (PStr ''percentage'', PInt p)]
        @ opt_entry (msg \<noteq> []) ''message'' (PStr msg) @ opt_entry (d \<noteq> None) ''data'' (PDict (the d))) w of
       (Inl e, w') \<Rightarrow> (Inl e, w') | (Inr _, w') \<Rightarrow> (Inr (), w')))"
  by (simp add: report_progress_def progress_body_def bindIO_def liftIO_def retIO_def split: prod.splits sum.splits)

end
