(* ===== verification/Ml.thy ===== *)
theory Ml
  imports Pyval
begin

section \<open>Machine-learning resource metadata\<close>

text \<open>
  \<open>src/ojs/ml.py\<close>: the dataclasses of resource requirements, their wire dicts, the helpers that wrap
  them as metadata, and the merge of such metadata.
\<close>

record gpu_requirements =
  gp_count :: int
  gp_type :: "string option"
  gp_memory_gb :: "pfloat option"

definition opt_float :: "pfloat option \<Rightarrow> pyval" where
  "opt_float x = (case x of None \<Rightarrow> PNone | Some f \<Rightarrow> PFloat f)"

definition opt_int :: "int option \<Rightarrow> pyval" where
  "opt_int x = (case x of None \<Rightarrow> PNone | Some i \<Rightarrow> PInt i)"

definition gpu_to_dict :: "gpu_requirements \<Rightarrow> pydict" where
  "gpu_to_dict g = [(PStr ''count'', PInt (gp_count g))]
     @ opt_entry (gp_type g \<noteq> None) ''type'' (opt_str (gp_type g))
     @ opt_entry (gp_memory_gb g \<noteq> None) ''memory_gb'' (opt_float (gp_memory_gb g))"

record cpu_requirements =
  cp_cores :: int

definition cpu_to_dict :: "cpu_requirements \<Rightarrow> pydict" where
  "cpu_to_dict c = [(PStr ''cores'', PInt (cp_cores c))]"

record resource_requirements =
  re_gpu :: "gpu_requirements option"
  re_cpu :: "cpu_requirements option"
  re_memory_gb :: "pfloat option"
  re_storage_gb :: "pfloat option"

definition resources_to_dict :: "resource_requirements \<Rightarrow> pydict" where
  "resources_to_dict r =
     opt_entry (re_gpu r \<noteq> None) ''gpu'' (PDict (gpu_to_dict (the (re_gpu r))))
     @ opt_entry (re_cpu r \<noteq> None) ''cpu'' (PDict (cpu_to_dict (the (re_cpu r))))
     @ opt_entry (re_memory_gb r \<noteq> None) ''memory_gb'' (opt_float (re_memory_gb r))
     @ opt_entry (re_storage_gb r \<noteq> None) ''storage_gb'' (opt_float (re_storage_gb r))"

record model_reference =
  mo_name :: string
  mo_version :: "string option"
  mo_registry :: "string option"
  mo_checksum :: "string option"

definition model_to_dict :: "model_reference \<Rightarrow> pydict" where
  "model_to_dict m = [(PStr ''name'', PStr (mo_name m))]
     @ opt_entry (mo_version m \<noteq> None) ''version'' (opt_str (mo_version m))
     @ opt_entry (mo_registry m \<noteq> None) ''registry'' (opt_str (mo_registry m))
     @ opt_entry (mo_checksum m \<noteq> None) ''checksum'' (opt_str (mo_checksum m))"

record checkpoint_config =
  cf_enabled :: bool
  cf_interval_s :: "int option"
  cf_storage_uri :: "string option"
  cf_max_checkpoints :: "int option"

definition checkpoint_to_dict :: "checkpoint_config \<Rightarrow> pydict" where
  "checkpoint_to_dict c = [(PStr ''enabled'', PBool (cf_enabled c))]
     @ opt_entry (cf_interval_s c \<noteq> None) ''interval_s'' (opt_int (cf_interval_s c))
     @ opt_entry (cf_storage_uri c \<noteq> None) ''storage_uri'' (opt_str (cf_storage_uri c))
     @ opt_entry (cf_max_checkpoints c \<noteq> None) ''max_checkpoints'' (opt_int (cf_max_checkpoints c))"

record preemption_config =
  pe_preemptible :: bool
  pe_grace_period_s :: "int option"
  pe_checkpoint_on_preempt :: "bool option"

definition preemption_to_dict :: "preemption_config \<Rightarrow> pydict" where
  "preemption_to_dict p = [(PStr ''preemptible'', PBool (pe_preemptible p))]
     @ opt_entry (pe_grace_period_s p \<noteq> None) ''grace_period_s'' (opt_int (pe_grace_period_s p))
     @ opt_entry (pe_checkpoint_on_preempt p \<noteq> None) ''checkpoint_on_preempt'' (PBool (the (pe_checkpoint_on_preempt p)))"

definition with_resources :: "resource_requirements \<Rightarrow> pydict" where
  "with_resources r = [(PStr ''resources'', PDict (resources_to_dict r))]"

definition with_gpu :: "string \<Rightarrow> int \<Rightarrow> pfloat option \<Rightarrow> pydict" where
  "with_gpu gpu_type count memory_gb = with_resources \<lparr>re_gpu = Some \<lparr>gp_count = count, gp_type = Some gpu_type,
     gp_memory_gb = memory_gb\<rparr>, re_cpu = None, re_memory_gb = None, re_storage_gb = None\<rparr>"

definition with_model :: "model_reference \<Rightarrow> pydict" where
  "with_model m = [(PStr ''model'', PDict (model_to_dict m))]"

definition with_checkpoint :: "checkpoint_config \<Rightarrow> pydict" where
  "with_checkpoint c = [(PStr ''checkpoint'', PDict (checkpoint_to_dict c))]"

definition with_preemption :: "preemption_config \<Rightarrow> pydict" where
  "with_preemption p = [(PStr ''preemption'', PDict (preemption_to_dict p))]"

text \<open>\<open>merged.update(part)\<close> for every part.\<close>

definition dict_update :: "pydict \<Rightarrow> pydict \<Rightarrow> pydict" where
  "dict_update d part = foldl (\<lambda>acc (k, v). AList.update k v acc) d part"

definition merge_ml_meta :: "pydict list \<Rightarrow> pydict" where
  "merge_ml_meta parts = foldl dict_update [] parts"

subsection \<open>What the merge keeps\<close>

lemma map_of_dict_update: "map_of (dict_update d part) = map_of d ++ map_of (rev part)"
proof (induction part arbitrary: d)
  case (Cons p part)
  obtain k v where p: "p = (k, v)" by (cases p)
  have "map_of (dict_update d (p # part)) = map_of (AList.update k v d) ++ map_of (rev part)"
    using Cons.IH[of "AList.update k v d"] by (simp add: dict_update_def p)
  then show ?case by (simp add: p update_conv' map_add_upd_left)
qed (simp add: dict_update_def)

text \<open>The last part that has the key.\<close>

fun last_with :: "string \<Rightarrow> pydict list \<Rightarrow> pyval option" where
  "last_with k [] = None"
| "last_with k (d # ds) = (case last_with k ds of Some v \<Rightarrow> Some v | None \<Rightarrow> dget (rev d) k)"

lemma dget_merge: "dget (foldl dict_update acc parts) k = (case last_with k parts of Some v \<Rightarrow> Some v | None \<Rightarrow> dget acc k)"
proof (induction parts arbitrary: acc)
  case (Cons d ds)
  have "dget (dict_update acc d) k = (case dget (rev d) k of Some v \<Rightarrow> Some v | None \<Rightarrow> dget acc k)"
    by (simp add: dget_def map_of_dict_update map_add_def split: option.splits)
  then show ?case using Cons.IH by (simp split: option.splits)
qed simp

text \<open>
  Merging metadata is per top-level key, and the last part wins: a GPU requirement merged with a later
  CPU requirement is gone (both live under \<open>resources\<close>), while the requirement, the model, the
  checkpoint and the preemption settings of one call keep each other.
\<close>

theorem merge_ml_meta_spec:
  "dget (merge_ml_meta parts) k = last_with k parts
   \<and> dget (merge_ml_meta [with_resources r, with_model m, with_checkpoint c, with_preemption p]) ''resources'' = Some (PDict (resources_to_dict r))
   \<and> dget (merge_ml_meta [with_resources r, with_model m, with_checkpoint c, with_preemption p]) ''model'' = Some (PDict (model_to_dict m))
   \<and> dget (merge_ml_meta [with_resources r, with_model m, with_checkpoint c, with_preemption p]) ''checkpoint'' = Some (PDict (checkpoint_to_dict c))
   \<and> dget (merge_ml_meta [with_resources r, with_model m, with_checkpoint c, with_preemption p]) ''preemption'' = Some (PDict (preemption_to_dict p))
   \<and> merge_ml_meta [with_gpu t n g, with_resources r] = with_resources r"
proof -
  have "dget (merge_ml_meta qs) k' = last_with k' qs" for qs k'
    unfolding merge_ml_meta_def dget_merge by (simp split: option.splits)
  moreover have "merge_ml_meta [with_gpu t n g, with_resources r] = with_resources r"
    by (simp add: merge_ml_meta_def dict_update_def with_gpu_def with_resources_def)
  ultimately show ?thesis
    by (simp add: with_resources_def with_model_def with_checkpoint_def with_preemption_def)
qed

end
