(* ===== verification/Recorder.thy ===== *)
theory Recorder
  imports Pyval
begin

section \<open>The execution recorder\<close>

text \<open>
  \<open>src/ojs/recorder/recorder.py\<close>: the recorder of the Replay Studio as a state machine over its calls, and
  the trace as a function of the history of calls.
\<close>

datatype recording_level = Full | Summary | Off

fun level_value :: "recording_level \<Rightarrow> string" where
  "level_value Full = ''full''"
| "level_value Summary = ''summary''"
| "level_value Off = ''off''"

record source_map =
  sm_git_sha :: string
  sm_file_path :: string
  sm_line :: int

record trace_entry =
  te_func_name :: string
  te_args :: pyval
  te_result :: pyval
  te_duration_ms :: int
  te_timestamp :: pydatetime
  te_source_map :: "source_map option"

record recorder_state =
  rr_level :: recording_level
  rr_entries :: "trace_entry list"
  rr_pending :: "source_map option"

definition new_recorder :: "recording_level \<Rightarrow> recorder_state" where
  "new_recorder level = \<lparr>rr_level = level, rr_entries = [], rr_pending = None\<rparr>"

definition record_call :: "pydatetime \<Rightarrow> string \<Rightarrow> pyval \<Rightarrow> pyval \<Rightarrow> int \<Rightarrow> recorder_state \<Rightarrow> recorder_state" where
  "record_call now func_name args result duration_ms r =
     (if rr_level r = Off then r
      else let summary = (rr_level r = Summary) in
        r\<lparr>rr_entries := rr_entries r @ [\<lparr>te_func_name = func_name, te_args = (if summary then PNone else args),
            te_result = (if summary then PNone else result), te_duration_ms = duration_ms, te_timestamp = now,
            te_source_map = rr_pending r\<rparr>],
          rr_pending := None\<rparr>)"

definition attach_sourcemap :: "source_map \<Rightarrow> recorder_state \<Rightarrow> recorder_state" where
  "attach_sourcemap s r = (if rr_level r = Off then r else r\<lparr>rr_pending := Some s\<rparr>)"

definition recorder_trace :: "recorder_state \<Rightarrow> trace_entry list" where
  "recorder_trace r = rr_entries r"

definition clear_recorder :: "recorder_state \<Rightarrow> recorder_state" where
  "clear_recorder r = r\<lparr>rr_entries := [], rr_pending := None\<rparr>"

definition recorder_len :: "recorder_state \<Rightarrow> int" where
  "recorder_len r = int (length (rr_entries r))"

subsection \<open>The trace as a function of the history\<close>

datatype recorder_call =
    Record pydatetime string pyval pyval int
  | Attach source_map
  | Clear

fun recorder_step :: "recorder_state \<Rightarrow> recorder_call \<Rightarrow> recorder_state" where
  "recorder_step r (Record now f args res d) = record_call now f args res d r"
| "recorder_step r (Attach s) = attach_sourcemap s r"
| "recorder_step r Clear = clear_recorder r"

text \<open>The source map the next call gets: the last one attached since the last call or clear (latest call first).\<close>

fun waiting_map :: "recorder_call list \<Rightarrow> source_map option" where
  "waiting_map (Attach s # _) = Some s"
| "waiting_map _ = None"

fun history_trace :: "bool \<Rightarrow> recorder_call list \<Rightarrow> trace_entry list" where
  "history_trace summary [] = []"
| "history_trace summary (Record now f args res d # past) = history_trace summary past
     @ [\<lparr>te_func_name = f, te_args = (if summary then PNone else args), te_result = (if summary then PNone else res),
         te_duration_ms = d, te_timestamp = now, te_source_map = waiting_map past\<rparr>]"
| "history_trace summary (Attach s # past) = history_trace summary past"
| "history_trace summary (Clear # past) = []"

lemma recorder_history:
  "level \<noteq> Off \<Longrightarrow> foldl recorder_step (new_recorder level) cs
     = \<lparr>rr_level = level, rr_entries = history_trace (level = Summary) (rev cs), rr_pending = waiting_map (rev cs)\<rparr>"
proof (induction cs rule: rev_induct)
  case (snoc c cs)
  then show ?case
    by (cases c) (auto simp: record_call_def attach_sourcemap_def clear_recorder_def Let_def)
qed (simp add: new_recorder_def)

lemma recorder_off: "foldl recorder_step (new_recorder Off) cs = new_recorder Off"
proof (induction cs rule: rev_induct)
  case (snoc c cs)
  then show ?case
    by (cases c) (auto simp: record_call_def attach_sourcemap_def clear_recorder_def new_recorder_def)
qed simp

text \<open>
  The recorder refines the function of its history: after any sequence of calls the trace is the calls since
  the last clear in order, each with the source map attached last before it and after the call before it,
  with arguments and results exactly at the full level; a recorder that is off records nothing.
\<close>

theorem recorder_refines_history:
  "recorder_trace (foldl recorder_step (new_recorder level) cs)
   = (if level = Off then [] else history_trace (level = Summary) (rev cs))"
proof (cases "level = Off")
  case True
  then show ?thesis by (simp add: recorder_off recorder_trace_def) (simp add: new_recorder_def)
qed (simp add: recorder_history recorder_trace_def)

end
