(* ===== verification/Serverless.thy ===== *)
theory Serverless
  imports Fake
begin

section \<open>Serverless adapters\<close>

text \<open>
  \<open>src/ojs/serverless\<close>: decoding of an invocation's event, dispatch to a registered handler, the bridge
  that reports the outcome, and the entrypoints of the AWS Lambda and Azure Functions adapters.  Handlers
  and the completion transport act on a world; \<open>json.loads\<close>, \<open>json.dumps\<close>, UTF-8 decoding, \<open>repr\<close> of
  a value that is no string and \<open>datetime.fromisoformat\<close> are arguments.  Choosing between
  \<open>asyncio.run\<close> and an awaitable is left out: the coroutine is what is modelled.
\<close>

record serverless_env =
  se_loads :: "string \<Rightarrow> pyval option"
  se_dumps :: "pyval \<Rightarrow> string"
  se_utf8 :: "nat list \<Rightarrow> string option"
  se_repr :: "pyval \<Rightarrow> string"
  se_isop :: "string \<Rightarrow> pydatetime option"

subsection \<open>Decoding events\<close>

definition decode_event :: "serverless_env \<Rightarrow> pyval \<Rightarrow> exn + pydict" where
  "decode_event env v =
     bindR (case v of PBytes b \<Rightarrow> (case se_utf8 env b of Some s \<Rightarrow> Inr (PStr s)
              | None \<Rightarrow> Inl (ServerlessEventErr ''event body is not valid UTF-8''))
            | _ \<Rightarrow> Inr v) (\<lambda>v1.
     bindR (case v1 of PStr s \<Rightarrow> (case se_loads env s of Some x \<Rightarrow> Inr x
              | None \<Rightarrow> Inl (ServerlessEventErr ''event body is not valid JSON''))
            | _ \<Rightarrow> Inr v1) (\<lambda>v2.
     case v2 of PDict d \<Rightarrow> Inr d | _ \<Rightarrow> Inl (ServerlessEventErr ''event body must be a JSON object'')))"

definition integer_field :: "pydict \<Rightarrow> string \<Rightarrow> int \<Rightarrow> int option \<Rightarrow> exn + int" where
  "integer_field data name dflt minimum = (case dget_default data name (PInt dflt) of
     PInt i \<Rightarrow> (case minimum of
         Some m \<Rightarrow> if i < m then Inl (ServerlessEventErr (''job '' @ name @ '' must be at least '' @ string_of_int m)) else Inr i
       | None \<Rightarrow> Inr i)
   | _ \<Rightarrow> Inl (ServerlessEventErr (''job '' @ name @ '' must be an integer'')))"

definition event_state :: "serverless_env \<Rightarrow> pyval \<Rightarrow> exn + job_state" where
  "event_state env v = (case v of
     PStr s \<Rightarrow> (case parse_state s of Some st \<Rightarrow> Inr st
       | None \<Rightarrow> Inl (ServerlessEventErr (''invalid job state: '' @ repr_str s)))
   | _ \<Rightarrow> Inl (ServerlessEventErr (''invalid job state: '' @ se_repr env v)))"

definition nonempty_string :: "pyval \<Rightarrow> string \<Rightarrow> exn + string" where
  "nonempty_string v msg = (case v of PStr s \<Rightarrow> if s = [] then Inl (ServerlessEventErr msg) else Inr s
     | _ \<Rightarrow> Inl (ServerlessEventErr msg))"

definition parse_job_event :: "serverless_env \<Rightarrow> pydict \<Rightarrow> exn + job" where
  "parse_job_event env data =
     bindR (nonempty_string (dget_default data ''id'' PNone) ''job id must be a non-empty string'') (\<lambda>job_id.
     bindR (nonempty_string (dget_default data ''type'' PNone) ''job type must be a non-empty string'') (\<lambda>job_type.
     bindR (case dget_default data ''args'' (PList []) of PList xs \<Rightarrow> Inr xs
            | _ \<Rightarrow> Inl (ServerlessEventErr ''job args must be an array'')) (\<lambda>args.
     bindR (case dget_default data ''meta'' (PDict []) of PDict m \<Rightarrow> Inr m
            | _ \<Rightarrow> Inl (ServerlessEventErr ''job meta must be an object'')) (\<lambda>meta.
     bindR (event_state env (dget_default data ''state'' (PStr (state_value Active)))) (\<lambda>state.
     bindR (integer_field data ''attempt'' 1 (Some 0)) (\<lambda>attempt.
     bindR (integer_field data ''max_attempts'' 3 (Some 1)) (\<lambda>max_attempts.
     bindR (integer_field data ''priority'' 0 None) (\<lambda>priority.
       job_from_dict (se_isop env) (PDict
         (dset (dset (dset (dset (dset (dset (dset (dset data ''id'' (PStr job_id)) ''type'' (PStr job_type))
            ''state'' (PStr (state_value state))) ''args'' (PList args)) ''meta'' (PDict meta))
            ''attempt'' (PInt attempt)) ''max_attempts'' (PInt max_attempts)) ''priority'' (PInt priority)))))))))))"

definition extract_job_event :: "serverless_env \<Rightarrow> pydict \<Rightarrow> exn + job" where
  "extract_job_event env envelope = (case dget_default envelope ''job'' (PDict envelope) of
     PDict d \<Rightarrow> parse_job_event env d
   | _ \<Rightarrow> Inl (ServerlessEventErr ''job envelope field must be an object''))"

definition event_job :: "serverless_env \<Rightarrow> pyval \<Rightarrow> exn + job" where
  "event_job env v = bindR (decode_event env v) (extract_job_event env)"

subsection \<open>Handlers\<close>

type_synonym 'w registry = "(string \<times> 'w handler) list"

definition registry_add :: "string \<Rightarrow> 'w handler \<Rightarrow> 'w registry \<Rightarrow> 'w registry" where
  "registry_add t h reg = AList.update t h reg"

definition execute_job :: "'w registry \<Rightarrow> job \<Rightarrow> ('w, pyval) io" where
  "execute_job reg j = (case map_of reg (j_type j) of
     None \<Rightarrow> raiseIO (HandlerNotFoundErr (''No handler registered for job type: '' @ j_type j))
   | Some h \<Rightarrow> h (new_context j (if j_attempt j = 0 then 1 else j_attempt j) []))"

text \<open>\<open>json.dumps(result, allow_nan=False)\<close> succeeds: the values of the JSON wire model.\<close>

fun json_key_ok :: "pyval \<Rightarrow> bool" where
  "json_key_ok (PStr _) = True"
| "json_key_ok (PInt _) = True"
| "json_key_ok (PBool _) = True"
| "json_key_ok PNone = True"
| "json_key_ok (PFloat (Fin _)) = True"
| "json_key_ok _ = False"

lemma size_snd_pair: "p \<in> set d \<Longrightarrow> size (snd p) < Suc (size_list (size_prod size size) d)"
  by (induction d) auto

function json_ok :: "pyval \<Rightarrow> bool" where
  "json_ok PNone = True"
| "json_ok (PBool _) = True"
| "json_ok (PInt _) = True"
| "json_ok (PFloat f) = (case f of Fin _ \<Rightarrow> True | _ \<Rightarrow> False)"
| "json_ok (PStr _) = True"
| "json_ok (PBytes _) = False"
| "json_ok (PList xs) = list_all json_ok xs"
| "json_ok (PDict d) = list_all (\<lambda>p. json_key_ok (fst p) \<and> json_ok (snd p)) d"
| "json_ok (PDatetime _) = False"
  by pat_completeness auto

termination
  by (relation "measure size") (auto simp: less_Suc_eq_le size_list_estimation' dest: size_snd_pair)

definition validate_result :: "pyval \<Rightarrow> exn + unit" where
  "validate_result v = guardR (json_ok v) (ResultSerializationErr ''handler result is not JSON serializable'')"

subsection \<open>Outcomes\<close>

record invocation_outcome =
  iv_status :: string
  iv_job_id :: string
  iv_result :: pyval
  iv_error :: "pydict option"
  iv_requires_redelivery :: bool
  iv_cause :: "exn option"

definition iv_succeeded :: "invocation_outcome \<Rightarrow> bool" where
  "iv_succeeded x \<longleftrightarrow> iv_status x = ''completed''"

definition iv_retryable :: "invocation_outcome \<Rightarrow> bool" where
  "iv_retryable x \<longleftrightarrow> (case iv_error x of None \<Rightarrow> False | Some e \<Rightarrow> truthy (dget_default e ''retryable'' PNone))"

definition outcome_to_dict :: "bool \<Rightarrow> invocation_outcome \<Rightarrow> pydict" where
  "outcome_to_dict include_job_id x = [(PStr ''status'', PStr (iv_status x))]
     @ opt_entry include_job_id ''job_id'' (PStr (iv_job_id x))
     @ opt_entry (iv_result x \<noteq> PNone) ''result'' (iv_result x)
     @ opt_entry (iv_error x \<noteq> None) ''error'' (PDict (the (iv_error x)))"

text \<open>\<open>type(error).__name__\<close>.\<close>

fun exn_class :: "exn \<Rightarrow> string" where
  "exn_class (ValueErr _) = ''ValueError''"
| "exn_class (TypeErr _) = ''TypeError''"
| "exn_class (KeyErr _) = ''KeyError''"
| "exn_class (RuntimeErr _) = ''RuntimeError''"
| "exn_class OverflowErr = ''OverflowError''"
| "exn_class ZeroDivErr = ''ZeroDivisionError''"
| "exn_class TimeoutErr = ''TimeoutError''"
| "exn_class CancelledErr = ''CancelledError''"
| "exn_class (OJSErr _) = ''OJSError''"
| "exn_class (ValidationErr _) = ''OJSValidationError''"
| "exn_class (CapabilityErr _) = ''OJSCapabilityError''"
| "exn_class (ConnectionErr _) = ''OJSConnectionError''"
| "exn_class (OJSTimeoutErr _) = ''OJSTimeoutError''"
| "exn_class (JobExecutionTimeoutErr _ _) = ''JobExecutionTimeout''"
| "exn_class (APIErr PlainAPI _ _) = ''OJSAPIError''"
| "exn_class (APIErr DuplicateJob _ _) = ''DuplicateJobError''"
| "exn_class (APIErr JobNotFound _ _) = ''JobNotFoundError''"
| "exn_class (APIErr QueuePaused _ _) = ''QueuePausedError''"
| "exn_class (APIErr (RateLimited _ _) _ _) = ''RateLimitedError''"
| "exn_class (DurableReplayErr _) = ''DurableReplayError''"
| "exn_class (SSEDataErr _) = ''SSEDataError''"
| "exn_class (ServerlessEventErr _) = ''ServerlessEventError''"
| "exn_class (HandlerNotFoundErr _) = ''HandlerNotFoundError''"
| "exn_class (ResultSerializationErr _) = ''ResultSerializationError''"
| "exn_class LeaseBudgetExceededErr = ''LeaseBudgetExceededError''"
| "exn_class StreamTerminatedErr = ''_SSEStreamTerminatedError''"
| "exn_class (UserErr c _) = c"

definition completed_outcome :: "string \<Rightarrow> pyval \<Rightarrow> invocation_outcome" where
  "completed_outcome i r = \<lparr>iv_status = ''completed'', iv_job_id = i, iv_result = r, iv_error = None,
     iv_requires_redelivery = False, iv_cause = None\<rparr>"

fun failure_class :: "exn \<Rightarrow> string \<times> bool" where
  "failure_class (ServerlessEventErr _) = (''invalid_request'', False)"
| "failure_class (HandlerNotFoundErr _) = (''unknown_job_type'', False)"
| "failure_class (ResultSerializationErr _) = (''invalid_result'', False)"
| "failure_class _ = (''handler_error'', True)"

definition error_body :: "string \<Rightarrow> exn \<Rightarrow> bool \<Rightarrow> pydict" where
  "error_body code e retryable = [(PStr ''code'', PStr code), (PStr ''message'', PStr (exn_class e)),
     (PStr ''retryable'', PBool retryable)]"

definition failed_outcome :: "string \<Rightarrow> exn \<Rightarrow> invocation_outcome" where
  "failed_outcome i e = (case failure_class e of (code, retryable) \<Rightarrow>
     \<lparr>iv_status = ''failed'', iv_job_id = i, iv_result = PNone, iv_error = Some (error_body code e retryable),
      iv_requires_redelivery = False, iv_cause = Some e\<rparr>)"

definition callback_failed_outcome :: "string \<Rightarrow> exn \<Rightarrow> invocation_outcome" where
  "callback_failed_outcome i e = \<lparr>iv_status = ''failed'', iv_job_id = i, iv_result = PNone,
     iv_error = Some (error_body ''completion_callback_error'' e True), iv_requires_redelivery = True, iv_cause = Some e\<rparr>"

subsection \<open>The bridge\<close>

record 'w completion =
  ct_ack :: "string \<Rightarrow> pyval \<Rightarrow> ('w, unit) io"
  ct_nack :: "string \<Rightarrow> pydict \<Rightarrow> ('w, unit) io"
  ct_sleep :: "rat \<Rightarrow> ('w, unit) io"

definition report_once :: "'w completion \<Rightarrow> string \<Rightarrow> terminal_outcome \<Rightarrow> ('w, bool) io" where
  "report_once ct i x w = (case report (ct_ack ct) (ct_nack ct) (ct_sleep ct) x (new_reporter i) w of (r, _, w') \<Rightarrow> (r, w'))"

definition run_handler :: "'w registry \<Rightarrow> job \<Rightarrow> ('w, pyval) io" where
  "run_handler reg j = bindIO (execute_job reg j) (\<lambda>v. bindIO (liftIO (validate_result v)) (\<lambda>_. retIO v))"

definition callback_result :: "string \<Rightarrow> invocation_outcome \<Rightarrow> ('w, bool) io \<Rightarrow> ('w, invocation_outcome) io" where
  "callback_result i x m w = (case m w of
     (Inr _, w') \<Rightarrow> (Inr x, w')
   | (Inl e, w') \<Rightarrow> if is_exception e then (Inr (callback_failed_outcome i e), w') else (Inl e, w'))"

definition report_failure :: "'w completion \<Rightarrow> job \<Rightarrow> invocation_outcome \<Rightarrow> ('w, bool) io" where
  "report_failure ct j x = (case iv_error x of
     None \<Rightarrow> retIO True
   | Some e \<Rightarrow> report_once ct (j_id j) (Failed_outcome e))"

definition invoke :: "'w registry \<Rightarrow> 'w completion option \<Rightarrow> job \<Rightarrow> bool \<Rightarrow> ('w, invocation_outcome) io" where
  "invoke reg transport j report_completion w = (case run_handler reg j w of
     (Inl e, w1) \<Rightarrow>
       if \<not> is_exception e then (Inl e, w1)
       else let x = failed_outcome (j_id j) e in
         if \<not> report_completion then (Inr x, w1)
         else (case transport of
             None \<Rightarrow> (Inr (x\<lparr>iv_requires_redelivery := True\<rparr>), w1)
           | Some ct \<Rightarrow> callback_result (j_id j) x (report_failure ct j x) w1)
   | (Inr v, w1) \<Rightarrow> (case transport of
         Some ct \<Rightarrow> if report_completion
           then callback_result (j_id j) (completed_outcome (j_id j) v) (report_once ct (j_id j) (Completed_outcome v)) w1
           else (Inr (completed_outcome (j_id j) v), w1)
       | None \<Rightarrow> (Inr (completed_outcome (j_id j) v), w1)))"

text \<open>
  \<open>create_completion_transport\<close>: the URL and the headers of the HTTP transport it builds (no headers
  are passed when the dict is empty).
\<close>

definition has_header :: "headers \<Rightarrow> string \<Rightarrow> bool" where
  "has_header hs name = list_ex (\<lambda>(k, _). str_lower k = str_lower name) hs"

definition completion_config :: "string option \<Rightarrow> string option \<Rightarrow> headers \<Rightarrow> (string \<times> headers option) option" where
  "completion_config url api_key hs = (case url of
     None \<Rightarrow> None
   | Some u \<Rightarrow> let merged = (if or_str api_key [] \<noteq> [] \<and> \<not> has_header hs ''Authorization''
         then AList.update ''Authorization'' (''Bearer '' @ or_str api_key []) hs else hs)
       in Some (u, if merged = [] then None else Some merged))"

record 'w adapter =
  ad_registry :: "'w registry"
  ad_transport :: "'w completion option"

definition adapter_register :: "string \<Rightarrow> 'w handler \<Rightarrow> 'w adapter \<Rightarrow> 'w adapter" where
  "adapter_register t h a = a\<lparr>ad_registry := registry_add t h (ad_registry a)\<rparr>"

definition adapter_invoke :: "'w adapter \<Rightarrow> bool \<Rightarrow> job \<Rightarrow> ('w, invocation_outcome) io" where
  "adapter_invoke a report_completion j = invoke (ad_registry a) (ad_transport a) j report_completion"

subsection \<open>AWS Lambda\<close>

text \<open>One record of an SQS event: its message id, and whether it is to be redelivered.\<close>

definition sqs_message_id :: "pyval \<Rightarrow> string" where
  "sqs_message_id record = (case record of
     PDict d \<Rightarrow> (case dget_default d ''messageId'' (PStr ''unknown'') of PStr s \<Rightarrow> s | _ \<Rightarrow> ''unknown'')
   | _ \<Rightarrow> ''unknown'')"

definition sqs_job :: "serverless_env \<Rightarrow> pyval \<Rightarrow> exn + job" where
  "sqs_job env record = (case record of
     PDict d \<Rightarrow> event_job env (dget_default d ''body'' (PStr []))
   | _ \<Rightarrow> Inl (ServerlessEventErr ''SQS record must be an object''))"

definition sqs_record :: "serverless_env \<Rightarrow> 'w adapter \<Rightarrow> pyval \<Rightarrow> ('w, bool) io" where
  "sqs_record env a record = catchIO
     (bindIO (liftIO (sqs_job env record)) (\<lambda>j.
      bindIO (adapter_invoke a True j) (\<lambda>x. retIO (iv_requires_redelivery x))))
     is_exception (\<lambda>_. retIO True)"

fun sqs_loop :: "serverless_env \<Rightarrow> 'w adapter \<Rightarrow> pyval list \<Rightarrow> ('w, string list) io" where
  "sqs_loop env a [] = retIO []"
| "sqs_loop env a (r # rs) = bindIO (sqs_record env a r) (\<lambda>failed.
     bindIO (sqs_loop env a rs) (\<lambda>ids. retIO (if failed then sqs_message_id r # ids else ids)))"

definition sqs_response :: "string list \<Rightarrow> pydict" where
  "sqs_response ids = [(PStr ''batchItemFailures'', PList (map (\<lambda>i. PDict [(PStr ''itemIdentifier'', PStr i)]) ids))]"

definition sqs_records :: "pydict \<Rightarrow> pyval list" where
  "sqs_records event = (case dget_default event ''Records'' (PList []) of PList rs \<Rightarrow> rs | _ \<Rightarrow> [])"

definition handle_sqs :: "serverless_env \<Rightarrow> 'w adapter \<Rightarrow> pydict \<Rightarrow> ('w, pydict) io" where
  "handle_sqs env a event = (case sqs_records event of
     [] \<Rightarrow> retIO (sqs_response [])
   | r # rs \<Rightarrow> bindIO (sqs_loop env a (r # rs)) (\<lambda>ids. retIO (sqs_response ids)))"

definition http_method :: "pydict \<Rightarrow> string" where
  "http_method event =
     (let legacy = (case dget_default event ''httpMethod'' (PStr []) of PStr s \<Rightarrow> s | _ \<Rightarrow> []) in
      case dget_default event ''requestContext'' (PDict []) of
        PDict rc \<Rightarrow> (case dget_default rc ''http'' (PDict []) of
            PDict h \<Rightarrow> (case dget_default h ''method'' (PStr []) of PStr s \<Rightarrow> if s = [] then legacy else s | _ \<Rightarrow> legacy)
          | _ \<Rightarrow> legacy)
      | _ \<Rightarrow> legacy)"

definition is_invalid_request :: "invocation_outcome \<Rightarrow> bool" where
  "is_invalid_request x \<longleftrightarrow> (case iv_error x of None \<Rightarrow> False
     | Some e \<Rightarrow> dget_default e ''code'' PNone = PStr ''invalid_request'')"

text \<open>Decode, extract and invoke; an exception of any of them becomes a failed outcome of the job \<open>i\<close>.\<close>

definition guarded_invoke :: "'w adapter \<Rightarrow> bool \<Rightarrow> string \<Rightarrow> exn + job \<Rightarrow> ('w, invocation_outcome) io" where
  "guarded_invoke a report_completion i r = catchIO (bindIO (liftIO r) (adapter_invoke a report_completion))
     is_exception (\<lambda>e. retIO (failed_outcome i e))"

definition http_response :: "serverless_env \<Rightarrow> int \<Rightarrow> pydict \<Rightarrow> pydict" where
  "http_response env status body = [(PStr ''statusCode'', PInt status),
     (PStr ''headers'', PDict [(PStr ''Content-Type'', PStr ''application/json'')]),
     (PStr ''body'', PStr (se_dumps env (PDict body)))]"

definition method_not_allowed :: pydict where
  "method_not_allowed = [(PStr ''error'', PStr ''Method not allowed'')]"

definition handle_http :: "serverless_env \<Rightarrow> 'w adapter \<Rightarrow> pydict \<Rightarrow> ('w, pydict) io" where
  "handle_http env a event = (if str_upper (http_method event) \<noteq> ''POST''
     then retIO (http_response env 405 method_not_allowed)
     else bindIO (guarded_invoke a False [] (event_job env (dget_default event ''body'' (PStr [])))) (\<lambda>x.
       retIO (http_response env (if is_invalid_request x then 400 else 200) (outcome_to_dict False x))))"

definition event_id :: "pydict \<Rightarrow> string" where
  "event_id event = (case dget_default event ''id'' (PStr []) of PStr s \<Rightarrow> s | _ \<Rightarrow> [])"

definition handle_direct :: "serverless_env \<Rightarrow> 'w adapter \<Rightarrow> pydict \<Rightarrow> ('w, pydict) io" where
  "handle_direct env a event = bindIO (guarded_invoke a True (event_id event) (event_job env (PDict event))) (\<lambda>x.
     retIO (outcome_to_dict True x))"

text \<open>
  \<open>run_sync_entrypoint\<close>: without a running loop the coroutine is run to its end; inside one it is handed to
  the caller, and nothing has happened yet.
\<close>

datatype ('w, 'a) entrypoint_result = Ran "exn + 'a" | Awaitable "('w, 'a) io"

definition run_sync_entrypoint :: "bool \<Rightarrow> ('w, 'a) io \<Rightarrow> 'w \<Rightarrow> ('w, 'a) entrypoint_result \<times> 'w" where
  "run_sync_entrypoint loop_running m w = (if loop_running then (Awaitable m, w) else (case m w of (r, w') \<Rightarrow> (Ran r, w')))"

definition sqs_handler :: "serverless_env \<Rightarrow> 'w adapter \<Rightarrow> bool \<Rightarrow> pydict \<Rightarrow> 'w \<Rightarrow> ('w, pydict) entrypoint_result \<times> 'w" where
  "sqs_handler env a loop_running event = run_sync_entrypoint loop_running (handle_sqs env a event)"

definition http_handler :: "serverless_env \<Rightarrow> 'w adapter \<Rightarrow> bool \<Rightarrow> pydict \<Rightarrow> 'w \<Rightarrow> ('w, pydict) entrypoint_result \<times> 'w" where
  "http_handler env a loop_running event = run_sync_entrypoint loop_running (handle_http env a event)"

definition direct_handler :: "serverless_env \<Rightarrow> 'w adapter \<Rightarrow> bool \<Rightarrow> pydict \<Rightarrow> 'w \<Rightarrow> ('w, pydict) entrypoint_result \<times> 'w" where
  "direct_handler env a loop_running event = run_sync_entrypoint loop_running (handle_direct env a event)"

text \<open>The response classes kept for compatibility.\<close>

record push_delivery_response =
  pd_status :: string
  pd_result :: pyval
  pd_error :: "pydict option"

definition push_delivery_to_dict :: "push_delivery_response \<Rightarrow> pydict" where
  "push_delivery_to_dict p = [(PStr ''status'', PStr (pd_status p))]
     @ opt_entry (pd_result p \<noteq> PNone) ''result'' (pd_result p)
     @ opt_entry (pd_error p \<noteq> None) ''error'' (PDict (the (pd_error p)))"

record direct_response =
  dr_status :: string
  dr_job_id :: string
  dr_error :: pyval

definition direct_response_to_dict :: "direct_response \<Rightarrow> pydict" where
  "direct_response_to_dict d = [(PStr ''status'', PStr (dr_status d)), (PStr ''job_id'', PStr (dr_job_id d))]
     @ opt_entry (dr_error d \<noteq> PNone) ''error'' (dr_error d)"

subsection \<open>Azure Functions\<close>

definition resolve_queue_outcome :: "serverless_env \<Rightarrow> invocation_outcome \<Rightarrow> ('w, pyval) io" where
  "resolve_queue_outcome env x = (if iv_retryable x
     then raiseIO (RuntimeErr (se_dumps env (PDict (outcome_to_dict True x)))) else retIO (iv_result x))"

definition handle_queue_message :: "serverless_env \<Rightarrow> 'w adapter \<Rightarrow> pyval \<Rightarrow> ('w, pyval) io" where
  "handle_queue_message env a body = (case event_job env body of
     Inl e \<Rightarrow> if is_exception e then resolve_queue_outcome env (failed_outcome [] e) else raiseIO e
   | Inr j \<Rightarrow> bindIO (adapter_invoke a True j) (resolve_queue_outcome env))"

fun is_value_error :: "exn \<Rightarrow> bool" where
  "is_value_error (ValueErr _) = True"
| "is_value_error (ServerlessEventErr _) = True"
| "is_value_error _ = False"

text \<open>The request's \<open>method\<close>, what \<open>get_json\<close> answers, and the response's status and body.\<close>

definition request_json :: "exn + pyval \<Rightarrow> exn + pyval" where
  "request_json got = (case got of
     Inl e \<Rightarrow> Inl (if is_value_error e then ServerlessEventErr ''HTTP request body is not valid JSON'' else e)
   | Inr v \<Rightarrow> Inr v)"

definition handle_http_request :: "serverless_env \<Rightarrow> 'w adapter \<Rightarrow> string option \<Rightarrow> exn + pyval \<Rightarrow> ('w, int \<times> string) io" where
  "handle_http_request env a meth got = (if or_str meth [] \<noteq> [] \<and> str_upper (or_str meth []) \<noteq> ''POST''
     then retIO (405, se_dumps env (PDict method_not_allowed))
     else bindIO (guarded_invoke a False [] (bindR (request_json got) (event_job env))) (\<lambda>x.
       retIO (if is_invalid_request x then 400 else 200, se_dumps env (PDict (outcome_to_dict False x)))))"

definition process_event :: "serverless_env \<Rightarrow> 'w adapter \<Rightarrow> pydict \<Rightarrow> ('w, pydict) io" where
  "process_event env a event = bindIO (guarded_invoke a True (event_id event) (event_job env (PDict event))) (\<lambda>x.
     retIO (outcome_to_dict True x))"

subsection \<open>Decoded jobs\<close>

lemma nonempty_string_ok: "nonempty_string v msg = Inr s \<longleftrightarrow> v = PStr s \<and> s \<noteq> []"
  by (auto simp: nonempty_string_def split: pyval.splits)

lemma integer_field_ok:
  "integer_field data name dflt minimum = Inr i \<longleftrightarrow> dget_default data name (PInt dflt) = PInt i
     \<and> (case minimum of None \<Rightarrow> True | Some m \<Rightarrow> m \<le> i)"
  by (auto simp: integer_field_def split: pyval.splits option.splits if_splits)

lemma event_state_ok: "event_state env v = Inr s \<longleftrightarrow> v = PStr (state_value s)"
proof (cases v)
  case (PStr t)
  then show ?thesis
    using parse_state_iff[of t s] by (cases "parse_state t") (simp_all add: event_state_def del: parse_state_value)
qed (simp_all add: event_state_def)

lemma job_from_dict_reads:
  assumes "job_from_dict isop (PDict d) = Inr j"
  shows "dget d ''id'' = Some (PStr (j_id j))" "dget d ''type'' = Some (PStr (j_type j))"
    "dget d ''args'' = Some (PList xs) \<Longrightarrow> j_args j = xs"
    "dget d ''state'' = Some (PStr (state_value s)) \<Longrightarrow> j_state j = s"
    "dget d ''attempt'' = Some (PInt i) \<Longrightarrow> j_attempt j = i"
    "dget d ''max_attempts'' = Some (PInt m) \<Longrightarrow> j_max_attempts j = m"
proof -
  have keys: "str_keys d" using job_from_dict_object[OF assms] by auto
  note f = job_from_dict_Inr[OF assms keys]
  show "dget d ''id'' = Some (PStr (j_id j))" "dget d ''type'' = Some (PStr (j_type j))"
    using f by (simp_all add: required_string_Inr)
  show "j_args j = xs" if "dget d ''args'' = Some (PList xs)"
    using f that by (simp add: wire_array_Inr)
  show "j_attempt j = i" if "dget d ''attempt'' = Some (PInt i)"
    using f that by (simp add: wire_integer_def or_zero_def)
  show "j_max_attempts j = m" if "dget d ''max_attempts'' = Some (PInt m)"
    using f that by (simp add: wire_integer_def or_zero_def)
  have nonempty: "state_value t \<noteq> []" for t by (cases t) simp_all
  have st: "job_state_field \<lparr>dec_data = d, dec_path = ''job''\<rparr> = Inr (j_state j)" using f by simp
  show "j_state j = s" if "dget d ''state'' = Some (PStr (state_value s))"
    using job_state_field_Inr[OF st] that nonempty parse_state_value[of s] parse_state_value[of "j_state j"] by auto
qed

lemma parse_job_event_Inr:
  assumes "parse_job_event env data = Inr j"
  shows "dget data ''id'' = Some (PStr (j_id j)) \<and> j_id j \<noteq> []
    \<and> dget data ''type'' = Some (PStr (j_type j)) \<and> j_type j \<noteq> []
    \<and> dget_default data ''args'' (PList []) = PList (j_args j)
    \<and> dget_default data ''state'' (PStr ''active'') = PStr (state_value (j_state j))
    \<and> dget_default data ''attempt'' (PInt 1) = PInt (j_attempt j) \<and> 0 \<le> j_attempt j
    \<and> dget_default data ''max_attempts'' (PInt 3) = PInt (j_max_attempts j) \<and> 1 \<le> j_max_attempts j"
proof -
  obtain i t xs m s a ma p where
    id: "nonempty_string (dget_default data ''id'' PNone) ''job id must be a non-empty string'' = Inr i" and
    ty: "nonempty_string (dget_default data ''type'' PNone) ''job type must be a non-empty string'' = Inr t" and
    args: "(case dget_default data ''args'' (PList []) of PList xs \<Rightarrow> Inr xs
       | _ \<Rightarrow> Inl (ServerlessEventErr ''job args must be an array'')) = Inr xs" and
    st: "event_state env (dget_default data ''state'' (PStr (state_value Active))) = Inr s" and
    att: "integer_field data ''attempt'' 1 (Some 0) = Inr a" and
    mx: "integer_field data ''max_attempts'' 3 (Some 1) = Inr ma" and
    job: "job_from_dict (se_isop env) (PDict
         (dset (dset (dset (dset (dset (dset (dset (dset data ''id'' (PStr i)) ''type'' (PStr t))
            ''state'' (PStr (state_value s))) ''args'' (PList xs)) ''meta'' (PDict m))
            ''attempt'' (PInt a)) ''max_attempts'' (PInt ma)) ''priority'' (PInt p))) = Inr j"
    using assms unfolding parse_job_event_def bindR_eq_Inr_iff by blast
  have fields: "j_id j = i" "j_type j = t" "j_args j = xs" "j_state j = s" "j_attempt j = a" "j_max_attempts j = ma"
    using job_from_dict_reads[OF job] by (simp_all add: dict_simps)
  have get: "dget d k = Some (PStr x) \<and> x \<noteq> []" if "nonempty_string (dget_default d k PNone) msg = Inr x" for d k x msg
    using that unfolding nonempty_string_ok by (cases "dget d k") simp_all
  have args': "dget_default data ''args'' (PList []) = PList xs"
    using args by (cases "dget_default data ''args'' (PList [])") simp_all
  have st': "dget_default data ''state'' (PStr (state_value Active)) = PStr (state_value s)"
    using st by (simp only: event_state_ok)
  have bounds: "dget_default data ''attempt'' (PInt 1) = PInt a \<and> 0 \<le> a"
      "dget_default data ''max_attempts'' (PInt 3) = PInt ma \<and> 1 \<le> ma"
    using att mx unfolding integer_field_ok option.case by (simp_all only: simp_thms)
  show ?thesis
    using get[OF id] get[OF ty] args' st' bounds unfolding fields state_value.simps(4) by blast
qed

text \<open>Decoding raises one of two exceptions: its own, and the one \<open>Job.from_dict\<close> raises.\<close>

definition event_only :: "exn + 'a \<Rightarrow> bool" where
  "event_only r \<longleftrightarrow> (case r of Inl e \<Rightarrow> (\<exists>m. e = ServerlessEventErr m) \<or> (\<exists>m. e = ValidationErr m) | Inr _ \<Rightarrow> True)"

lemma event_only_simps [simp]: "event_only (Inr v)" "event_only (Inl (ServerlessEventErr m))"
  by (simp_all add: event_only_def)

lemma event_only_bind [intro]: "event_only m \<Longrightarrow> (\<And>v. event_only (f v)) \<Longrightarrow> event_only (bindR m f)"
  by (cases m) (auto simp: event_only_def)

lemma event_only_parts [intro]:
  "event_only (nonempty_string v msg)" "event_only (integer_field d k x mn)" "event_only (event_state env v)"
  "event_only (job_from_dict isop v)"
proof -
  show "event_only (nonempty_string v msg)" by (cases v) (simp_all add: nonempty_string_def)
  show "event_only (integer_field d k x mn)"
    by (cases "dget_default d k (PInt x)"; cases mn) (simp_all add: integer_field_def)
  show "event_only (event_state env v)"
    by (cases v) (simp_all add: event_state_def split: option.splits)
  show "event_only (job_from_dict isop v)"
    using validated_job[of isop v] by (auto simp: event_only_def validated_iff split: sum.splits)
qed

lemma event_only_case [intro]:
  "event_only (case v of PList xs \<Rightarrow> Inr xs | _ \<Rightarrow> Inl (ServerlessEventErr msg))"
  "event_only (case v of PDict d \<Rightarrow> Inr d | _ \<Rightarrow> Inl (ServerlessEventErr msg))"
  "event_only (case v of PBytes b \<Rightarrow> (case u b of Some s \<Rightarrow> Inr (PStr s) | None \<Rightarrow> Inl (ServerlessEventErr msg)) | _ \<Rightarrow> Inr v)"
  "event_only (case v of PStr s \<Rightarrow> (case l s of Some x \<Rightarrow> Inr x | None \<Rightarrow> Inl (ServerlessEventErr msg)) | _ \<Rightarrow> Inr v)"
  by (cases v; simp split: option.splits)+

lemma event_only_parse [intro]: "event_only (parse_job_event env d)"
  unfolding parse_job_event_def by (intro event_only_bind event_only_parts event_only_case)

lemma event_only_extract [intro]: "event_only (extract_job_event env d)"
  by (cases "dget_default d ''job'' (PDict d)") (auto simp: extract_job_event_def)

lemma event_only_job: "event_only (event_job env v)"
  unfolding event_job_def decode_event_def by (intro event_only_bind event_only_case event_only_extract)

lemma event_job_errors:
  "event_job env v = Inl e \<Longrightarrow> (\<exists>m. e = ServerlessEventErr m) \<or> (\<exists>m. e = ValidationErr m)"
  using event_only_job[of env v] by (simp add: event_only_def)

text \<open>
  C18. What an invocation's event can decode to: either one of two errors (the event is no job, or a field
  of the job is malformed), or a job with an id and a type, an attempt of at least 0 and at least one
  attempt allowed, whose id, type, arguments, state and attempts are those of the job object of the
  event, with state active, attempt 1 and three attempts where they are absent.
\<close>

theorem event_job_spec:
  "(case event_job env v of
      Inl e \<Rightarrow> (\<exists>m. e = ServerlessEventErr m) \<or> (\<exists>m. e = ValidationErr m)
    | Inr j \<Rightarrow> j_id j \<noteq> [] \<and> j_type j \<noteq> [] \<and> 0 \<le> j_attempt j \<and> 1 \<le> j_max_attempts j
        \<and> (\<exists>d. dget d ''id'' = Some (PStr (j_id j)) \<and> dget d ''type'' = Some (PStr (j_type j))
            \<and> dget_default d ''args'' (PList []) = PList (j_args j)
            \<and> dget_default d ''state'' (PStr ''active'') = PStr (state_value (j_state j))
            \<and> dget_default d ''attempt'' (PInt 1) = PInt (j_attempt j)
            \<and> dget_default d ''max_attempts'' (PInt 3) = PInt (j_max_attempts j)
            \<and> (\<exists>outer. decode_event env v = Inr outer \<and> dget_default outer ''job'' (PDict outer) = PDict d)))"
proof (cases "event_job env v")
  case (Inl e)
  then show ?thesis using event_job_errors[OF Inl] by simp
next
  case (Inr j)
  then obtain outer where outer: "decode_event env v = Inr outer" "extract_job_event env outer = Inr j"
    unfolding event_job_def bindR_eq_Inr_iff by blast
  then obtain d where d: "dget_default outer ''job'' (PDict outer) = PDict d" "parse_job_event env d = Inr j"
    by (cases "dget_default outer ''job'' (PDict outer)") (simp_all add: extract_job_event_def)
  note f = parse_job_event_Inr[OF d(2)]
  show ?thesis unfolding Inr sum.case using f outer(1) d(1) by blast
qed

subsection \<open>SQS batches\<close>

lemma callback_result_ok:
  "callback_result i x m w = (Inr y, w') \<Longrightarrow> \<not> iv_requires_redelivery y \<Longrightarrow> \<exists>b. m w = (Inr b, w') \<and> y = x"
  by (auto simp: callback_result_def callback_failed_outcome_def split: prod.splits sum.splits if_splits)

lemma report_once_settles:
  assumes "completion_sink (ct_ack ct) (ct_nack ct) view settled" and "report_once ct i x w = (Inr b, w')"
  shows "settled x (view w' i)"
proof -
  obtain rep' where rep: "report (ct_ack ct) (ct_nack ct) (ct_sleep ct) x (new_reporter i) w = (Inr b, rep', w')"
    using assms(2) by (auto simp: report_once_def split: prod.splits)
  then have "b = True" by (auto simp: report_def new_reporter_def Let_def split: prod.splits sum.splits)
  then show ?thesis
    using completion_sink.report_settles[OF assms(1), of "ct_sleep ct" x "new_reporter i" w rep' w'] rep
    by (simp add: new_reporter_def)
qed

lemma report_once_accepted:
  "report_once ct i x w = (y, w') \<Longrightarrow> completion_sink (ct_ack ct) (ct_nack ct) view settled \<Longrightarrow>
    isl y \<or> settled x (view w' i)"
  by (cases y) (auto intro: report_once_settles)

text \<open>The terminal outcome of a job's execution, as the server is told.\<close>

definition server_outcome :: "job \<Rightarrow> exn + pyval \<Rightarrow> terminal_outcome" where
  "server_outcome j r = (case r of
     Inr v \<Rightarrow> Completed_outcome v
   | Inl e \<Rightarrow> Failed_outcome (the (iv_error (failed_outcome (j_id j) e))))"

lemma failed_outcome_fields [simp]:
  "iv_job_id (failed_outcome i e) = i" "iv_status (failed_outcome i e) = ''failed''"
  "iv_error (failed_outcome i e) = Some (error_body (fst (failure_class e)) e (snd (failure_class e)))"
  "\<not> iv_requires_redelivery (failed_outcome i e)" "iv_result (failed_outcome i e) = PNone"
  by (simp_all add: failed_outcome_def split: prod.splits)

text \<open>What one reported invocation does, and whether its job is to be redelivered.\<close>

lemma invoke_redelivery:
  assumes "invoke reg tr j True w = (Inr x, w')"
  shows "case run_handler reg j w of (r, w1) \<Rightarrow> (case tr of
      None \<Rightarrow> (iv_requires_redelivery x \<longleftrightarrow> isl r) \<and> w' = w1
    | Some ct \<Rightarrow> (case report_once ct (j_id j) (server_outcome j r) w1 of (y, w2) \<Rightarrow>
        (iv_requires_redelivery x \<longleftrightarrow> isl y) \<and> w' = w2))"
proof (cases "run_handler reg j w")
  case (Pair r w1)
  show ?thesis
  proof (cases tr)
    case None
    then show ?thesis using assms Pair
      by (cases r) (auto simp: invoke_def Let_def completed_outcome_def split: if_splits)
  next
    case (Some ct)
    obtain y w2 where y: "report_once ct (j_id j) (server_outcome j r) w1 = (y, w2)" by fastforce
    have "x' = (case r of Inl e \<Rightarrow> failed_outcome (j_id j) e | Inr v \<Rightarrow> completed_outcome (j_id j) v)
        \<Longrightarrow> callback_result (j_id j) x' (report_once ct (j_id j) (server_outcome j r)) w1 = (Inr x, w')" for x'
      using assms Pair Some by (cases r) (auto simp: invoke_def Let_def report_failure_def server_outcome_def split: if_splits)
    then have "callback_result (j_id j) (case r of Inl e \<Rightarrow> failed_outcome (j_id j) e | Inr v \<Rightarrow> completed_outcome (j_id j) v)
        (report_once ct (j_id j) (server_outcome j r)) w1 = (Inr x, w')" by blast
    then have "(iv_requires_redelivery x \<longleftrightarrow> isl y) \<and> w' = w2"
      using y by (cases r; cases y) (auto simp: callback_result_def callback_failed_outcome_def completed_outcome_def split: if_splits)
    then show ?thesis using Pair Some y by simp
  qed
qed

text \<open>Every error of the handler and of the report becomes an outcome: only a cancellation is raised.\<close>

lemma callback_result_err: "callback_result i x m w = (Inl e, w') \<Longrightarrow> \<not> is_exception e"
  by (auto simp: callback_result_def split: prod.splits sum.splits if_splits)

lemma invoke_raises_cancellation: "invoke reg tr j b w = (Inl e, w') \<Longrightarrow> \<not> is_exception e"
  by (auto simp: invoke_def Let_def dest: callback_result_err split: prod.splits sum.splits option.splits if_splits)

lemma sqs_record_flag:
  assumes "sqs_record env a r w = (Inr b, w')"
  shows "case sqs_job env r of
      Inl e \<Rightarrow> b \<and> w' = w
    | Inr j \<Rightarrow> (case run_handler (ad_registry a) j w of (x, w1) \<Rightarrow> (case ad_transport a of
        None \<Rightarrow> (b \<longleftrightarrow> isl x) \<and> w' = w1
      | Some ct \<Rightarrow> (case report_once ct (j_id j) (server_outcome j x) w1 of (y, w2) \<Rightarrow> (b \<longleftrightarrow> isl y) \<and> w' = w2)))"
proof (cases "sqs_job env r")
  case (Inl e)
  then show ?thesis using assms
    by (auto simp: sqs_record_def catchIO_def bindIO_def liftIO_def retIO_def split: if_splits)
next
  case (Inr j)
  obtain x where x: "adapter_invoke a True j w = (Inr x, w')" "b = iv_requires_redelivery x"
    using assms Inr invoke_raises_cancellation[of "ad_registry a" "ad_transport a" j True w]
    by (cases "adapter_invoke a True j w")
      (auto simp: adapter_invoke_def sqs_record_def catchIO_def bindIO_def liftIO_def retIO_def split: sum.splits if_splits)
  show ?thesis unfolding Inr sum.case x(2)
    by (rule invoke_redelivery[OF x(1)[unfolded adapter_invoke_def]])
qed

lemma sqs_loop_worlds:
  assumes "sqs_loop env a rs w = (Inr ids, w')"
  shows "\<exists>ws flags. length ws = Suc (length rs) \<and> length flags = length rs \<and> ws ! 0 = w \<and> ws ! length rs = w'
    \<and> ids = map (sqs_message_id \<circ> fst) (filter snd (zip rs flags))
    \<and> (\<forall>i < length rs. sqs_record env a (rs ! i) (ws ! i) = (Inr (flags ! i), ws ! Suc i))"
  using assms
proof (induction rs arbitrary: w ids)
  case Nil
  then show ?case by (intro exI[of _ "[w]"] exI[of _ "[]"]) (simp add: retIO_def)
next
  case (Cons r rs)
  obtain b w1 ids1 where step: "sqs_record env a r w = (Inr b, w1)" "sqs_loop env a rs w1 = (Inr ids1, w')"
    "ids = (if b then sqs_message_id r # ids1 else ids1)"
    using Cons.prems by (auto simp: bindIO_def retIO_def split: prod.splits sum.splits)
  obtain ws flags where IH: "length ws = Suc (length rs)" "length flags = length rs" "ws ! 0 = w1" "ws ! length rs = w'"
    "ids1 = map (sqs_message_id \<circ> fst) (filter snd (zip rs flags))"
    "\<forall>i < length rs. sqs_record env a (rs ! i) (ws ! i) = (Inr (flags ! i), ws ! Suc i)"
    using Cons.IH[OF step(2)] by blast
  have "sqs_record env a ((r # rs) ! i) ((w # ws) ! i) = (Inr ((b # flags) ! i), (w # ws) ! Suc i)"
    if "i < length (r # rs)" for i
    using that step(1) IH by (cases i) auto
  then show ?case using IH step(3)
    by (intro exI[of _ "w # ws"] exI[of _ "b # flags"]) auto
qed

text \<open>
  C9. No job of an SQS batch is lost.  The records are processed one after the other, and the response
  lists the message ids of exactly those marked for redelivery, in order.  A record that decodes to no job
  is marked and nothing runs.  For a job, the handler runs once; with no completion transport (the default
  without an \<open>ojs_url\<close>) it is marked exactly when the handler failed, however it failed, and a success is
  neither reported nor redelivered; with a transport it is marked exactly when reporting its outcome (the
  result, or the failure with its retryable flag) raised, and if it is not marked the server has accepted
  that outcome when the next record is started.
\<close>

theorem sqs_no_job_lost:
  assumes "case ad_transport a of None \<Rightarrow> True | Some ct \<Rightarrow> completion_sink (ct_ack ct) (ct_nack ct) view settled"
    and "sqs_records event = rs" and "handle_sqs env a event w = (Inr resp, w')"
  shows "\<exists>ws flags. length ws = Suc (length rs) \<and> length flags = length rs \<and> ws ! 0 = w \<and> ws ! length rs = w'
    \<and> resp = sqs_response (map (sqs_message_id \<circ> fst) (filter snd (zip rs flags)))
    \<and> (\<forall>i < length rs. case sqs_job env (rs ! i) of
        Inl e \<Rightarrow> flags ! i \<and> ws ! Suc i = ws ! i
      | Inr j \<Rightarrow> (case run_handler (ad_registry a) j (ws ! i) of (r, w1) \<Rightarrow> (case ad_transport a of
          None \<Rightarrow> (flags ! i \<longleftrightarrow> isl r) \<and> ws ! Suc i = w1
        | Some ct \<Rightarrow> (case report_once ct (j_id j) (server_outcome j r) w1 of (y, w2) \<Rightarrow>
            (flags ! i \<longleftrightarrow> isl y) \<and> ws ! Suc i = w2
            \<and> (flags ! i \<or> settled (server_outcome j r) (view w2 (j_id j)))))))"
proof -
  obtain ids where ids: "sqs_loop env a rs w = (Inr ids, w')" "resp = sqs_response ids"
    using assms(2,3) by (cases rs) (auto simp: handle_sqs_def bindIO_def retIO_def split: prod.splits sum.splits)
  obtain ws flags where ws: "length ws = Suc (length rs)" "length flags = length rs" "ws ! 0 = w" "ws ! length rs = w'"
    "ids = map (sqs_message_id \<circ> fst) (filter snd (zip rs flags))"
    "\<forall>i < length rs. sqs_record env a (rs ! i) (ws ! i) = (Inr (flags ! i), ws ! Suc i)"
    using sqs_loop_worlds[OF ids(1)] by blast
  have "case sqs_job env (rs ! i) of
        Inl e \<Rightarrow> flags ! i \<and> ws ! Suc i = ws ! i
      | Inr j \<Rightarrow> (case run_handler (ad_registry a) j (ws ! i) of (r, w1) \<Rightarrow> (case ad_transport a of
          None \<Rightarrow> (flags ! i \<longleftrightarrow> isl r) \<and> ws ! Suc i = w1
        | Some ct \<Rightarrow> (case report_once ct (j_id j) (server_outcome j r) w1 of (y, w2) \<Rightarrow>
            (flags ! i \<longleftrightarrow> isl y) \<and> ws ! Suc i = w2
            \<and> (flags ! i \<or> settled (server_outcome j r) (view w2 (j_id j))))))" if "i < length rs" for i
    using sqs_record_flag[OF ws(6)[rule_format, OF that]] assms(1)
    by (auto split: sum.splits option.splits prod.splits dest: report_once_accepted)
  then show ?thesis using ws ids(2) by blast
qed

definition sample_adapter :: "fake_store adapter" where
  "sample_adapter = \<lparr>ad_registry = [(''email.send'', \<lambda>_. retIO (PInt 1))],
     ad_transport = Some \<lparr>ct_ack = fake_ack_unit, ct_nack = fake_nack_unit, ct_sleep = (\<lambda>_. retIO ())\<rparr>\<rparr>"

definition sample_serverless :: serverless_env where
  "sample_serverless = \<lparr>se_loads = (\<lambda>s. if s = ''job'' then Some sample_job else None), se_dumps = (\<lambda>_. []),
     se_utf8 = (\<lambda>_. None), se_repr = (\<lambda>_. []), se_isop = (\<lambda>_. None)\<rparr>"

definition sample_store :: fake_store where
  "sample_store = \<lparr>fs_enqueued = [\<lparr>fj_id = ''j1'', fj_type = ''email.send'', fj_queue = ''default'', fj_args = [],
      fj_meta = [], fj_state = ''active'', fj_attempt = 1, fj_options = [], fj_result = PNone, fj_errors = [],
      fj_created_at = []\<rparr>], fs_performed = [], fs_handlers = [], fs_next_id = 1\<rparr>"

definition sample_records :: "pyval list" where
  "sample_records = [
     PDict [(PStr ''messageId'', PStr ''m1''), (PStr ''body'', PStr ''job'')],
     PDict [(PStr ''messageId'', PStr ''m2''), (PStr ''body'', PStr ''{'')]]"

definition sample_batch :: pydict where
  "sample_batch = [(PStr ''Records'', PList sample_records)]"

lemma sample_batch_response: "fst (handle_sqs sample_serverless sample_adapter sample_batch sample_store) = Inr (sqs_response [''m2''])"
  by code_simp

lemma sqs_response_inj: "sqs_response xs = sqs_response ys \<Longrightarrow> xs = ys"
proof -
  have "inj (\<lambda>i. PDict [(PStr ''itemIdentifier'', PStr i)])" by (rule injI) simp
  then show "sqs_response xs = sqs_response ys \<Longrightarrow> xs = ys"
    by (simp add: sqs_response_def inj_map_eq_map)
qed

theorem sqs_no_job_lost_witness:
  "\<exists>w1 j. sqs_job sample_serverless (hd sample_records) = Inr j
     \<and> settled_view (server_outcome j (fst (run_handler (ad_registry sample_adapter) j sample_store))) (fake_abs w1 (j_id j))"
proof -
  obtain w' where w': "handle_sqs sample_serverless sample_adapter sample_batch sample_store = (Inr (sqs_response [''m2'']), w')"
    using sample_batch_response by (metis prod.collapse)
  obtain ct where ct: "ad_transport sample_adapter = Some ct" "ct_ack ct = fake_ack_unit" "ct_nack ct = fake_nack_unit"
    by (simp add: sample_adapter_def)
  have sink: "case ad_transport sample_adapter of None \<Rightarrow> True
      | Some ct \<Rightarrow> completion_sink (ct_ack ct) (ct_nack ct) fake_abs settled_view"
    using ct fake_sink.completion_sink_axioms by simp
  have records: "sqs_records sample_batch = sample_records"
    by (simp add: sample_batch_def sqs_records_def)
  obtain ws flags where r: "length flags = length sample_records" "ws ! 0 = sample_store"
    "sqs_response [''m2''] = sqs_response (map (sqs_message_id \<circ> fst) (filter snd (zip sample_records flags)))"
    and all: "\<forall>i < length sample_records. case sqs_job sample_serverless (sample_records ! i) of
        Inl e \<Rightarrow> flags ! i \<and> ws ! Suc i = ws ! i
      | Inr j \<Rightarrow> (case run_handler (ad_registry sample_adapter) j (ws ! i) of (r, w1) \<Rightarrow> (case ad_transport sample_adapter of
          None \<Rightarrow> (flags ! i \<longleftrightarrow> isl r) \<and> ws ! Suc i = w1
        | Some ct \<Rightarrow> (case report_once ct (j_id j) (server_outcome j r) w1 of (y, w2) \<Rightarrow>
            (flags ! i \<longleftrightarrow> isl y) \<and> ws ! Suc i = w2
            \<and> (flags ! i \<or> settled_view (server_outcome j r) (fake_abs w2 (j_id j))))))"
    using sqs_no_job_lost[OF sink records w'] by (elim exE conjE) rule
  have "0 < length sample_records" by (simp add: sample_records_def)
  note spec = all[rule_format, OF this]
  obtain b1 b2 where flags: "flags = [b1, b2]"
    using r(1) by (auto simp: sample_records_def length_Suc_conv)
  have "map (sqs_message_id \<circ> fst) (filter snd (zip sample_records flags)) = [''m2'']"
    using sqs_response_inj[OF r(3)] by simp
  then have "\<not> flags ! 0"
    by (cases b1) (simp_all add: flags sample_records_def sqs_message_id_def)
  moreover have "sample_records ! 0 = hd sample_records" by (simp add: sample_records_def)
  ultimately show ?thesis using spec r(2) ct(1) by (auto split: sum.splits prod.splits)
qed

subsection \<open>HTTP invocations\<close>

lemma run_handler_lift: "bindIO (liftIO (Inr j)) (adapter_invoke a b) = adapter_invoke a b j"
  by (rule ext) (simp add: bindIO_def liftIO_def)

lemma guarded_invoke_err: "is_exception e \<Longrightarrow> guarded_invoke a b i (Inl e) w = (Inr (failed_outcome i e), w)"
  by (simp add: guarded_invoke_def catchIO_def bindIO_def liftIO_def retIO_def)

lemma invoke_unreported:
  "invoke reg tr j False w = (case run_handler reg j w of
     (Inl e, w') \<Rightarrow> (if is_exception e then Inr (failed_outcome (j_id j) e) else Inl e, w')
   | (Inr v, w') \<Rightarrow> (Inr (completed_outcome (j_id j) v), w'))"
  by (auto simp: invoke_def Let_def split: prod.splits sum.splits option.splits)

lemma guarded_invoke_ok:
  "guarded_invoke a False i (Inr j) w = (case run_handler (ad_registry a) j w of
     (Inl e, w') \<Rightarrow> (if is_exception e then Inr (failed_outcome (j_id j) e) else Inl e, w')
   | (Inr v, w') \<Rightarrow> (Inr (completed_outcome (j_id j) v), w'))"
  unfolding guarded_invoke_def run_handler_lift
  by (auto simp: catchIO_def adapter_invoke_def invoke_unreported split: prod.splits sum.splits)

text \<open>
  The HTTP entrypoint on every branch: any method but POST is answered 405 and nothing runs; a body that
  is no job is answered 400 and nothing runs; otherwise the handler runs once, nothing is acknowledged
  (the response is the acknowledgement), and the answer is 200 with the result, or with the error of a
  failing handler, which is retryable unless the handler is missing or its result is no JSON; a handler
  that itself raises the event error is answered 400.
\<close>

theorem handle_http_spec:
  "handle_http env a event w =
    (if str_upper (http_method event) \<noteq> ''POST'' then (Inr (http_response env 405 method_not_allowed), w)
     else case event_job env (dget_default event ''body'' (PStr [])) of
       Inl e \<Rightarrow> (Inr (http_response env (if \<exists>m. e = ServerlessEventErr m then 400 else 200)
           (outcome_to_dict False (failed_outcome [] e))), w)
     | Inr j \<Rightarrow> (case run_handler (ad_registry a) j w of
         (Inr v, w') \<Rightarrow> (Inr (http_response env 200 (outcome_to_dict False (completed_outcome (j_id j) v))), w')
       | (Inl e, w') \<Rightarrow> (if \<not> is_exception e then Inl e
           else Inr (http_response env (if \<exists>m. e = ServerlessEventErr m then 400 else 200)
             (outcome_to_dict False (failed_outcome (j_id j) e))), w')))"
proof -
  have inv: "is_invalid_request (failed_outcome i e) \<longleftrightarrow> (\<exists>m. e = ServerlessEventErr m)" for i e
    by (cases e) (simp_all add: is_invalid_request_def error_body_def)
  have ok: "\<not> is_invalid_request (completed_outcome i v)" for i v
    by (simp add: is_invalid_request_def completed_outcome_def)
  show ?thesis
  proof (cases "event_job env (dget_default event ''body'' (PStr []))")
    case (Inl e)
    moreover have "is_exception e" using event_job_errors[OF Inl] by auto
    ultimately show ?thesis by (simp add: handle_http_def guarded_invoke_err bindIO_def retIO_def inv)
  next
    case (Inr j)
    then show ?thesis
      by (auto simp: handle_http_def guarded_invoke_ok bindIO_def retIO_def inv ok split: prod.splits sum.splits)
  qed
qed

subsection \<open>Queue messages\<close>

definition abandon :: "serverless_env \<Rightarrow> invocation_outcome \<Rightarrow> exn" where
  "abandon env x = RuntimeErr (se_dumps env (PDict (outcome_to_dict True x)))"

lemma iv_retryable_simps [simp]:
  "iv_retryable (failed_outcome i e) = snd (failure_class e)" "iv_retryable (callback_failed_outcome i e)"
  "\<not> iv_retryable (completed_outcome i v)" "iv_retryable (x\<lparr>iv_requires_redelivery := b\<rparr>) = iv_retryable x"
  by (simp_all add: iv_retryable_def callback_failed_outcome_def completed_outcome_def error_body_def)

lemma resolve_queue_outcome_eq:
  "resolve_queue_outcome env x w = (if iv_retryable x then Inl (abandon env x) else Inr (iv_result x), w)"
  by (simp add: resolve_queue_outcome_def raiseIO_def retIO_def abandon_def)

text \<open>
  The Azure queue trigger on every branch.  A message that is no job completes and nothing runs.
  Otherwise the handler runs once; a result is returned and a failure that is not retryable completes
  the message once the server (if there is one) has accepted the outcome; a retryable failure abandons
  the message even when the server accepted it, and so does a server that does not accept the outcome.
\<close>

theorem handle_queue_message_spec:
  "handle_queue_message env a body w =
    (case event_job env body of
       Inl e \<Rightarrow> (if \<exists>m. e = ServerlessEventErr m then Inr PNone else Inl (abandon env (failed_outcome [] e)), w)
     | Inr j \<Rightarrow> (case run_handler (ad_registry a) j w of
         (r, w1) \<Rightarrow>
           let x = (case r of Inr v \<Rightarrow> completed_outcome (j_id j) v | Inl e \<Rightarrow> failed_outcome (j_id j) e);
               kept = (case r of Inr v \<Rightarrow> Inr v
                 | Inl e \<Rightarrow> if snd (failure_class e) then Inl (abandon env (x\<lparr>iv_requires_redelivery := ad_transport a = None\<rparr>))
                     else Inr PNone)
           in case r of
             Inl CancelledErr \<Rightarrow> (Inl CancelledErr, w1)
           | _ \<Rightarrow> (case ad_transport a of
               None \<Rightarrow> (kept, w1)
             | Some ct \<Rightarrow> (case report_once ct (j_id j) (server_outcome j r) w1 of
                 (Inr _, w2) \<Rightarrow> (kept, w2)
               | (Inl e, w2) \<Rightarrow> (if is_exception e then Inl (abandon env (callback_failed_outcome (j_id j) e)) else Inl e, w2)))))"
proof (cases "event_job env body")
  case (Inl e)
  moreover have "is_exception e" "snd (failure_class e) \<longleftrightarrow> \<not> (\<exists>m. e = ServerlessEventErr m)"
    using event_job_errors[OF Inl] by auto
  ultimately show ?thesis by (simp add: handle_queue_message_def resolve_queue_outcome_eq)
next
  case (Inr j)
  obtain r w1 where r: "run_handler (ad_registry a) j w = (r, w1)" by fastforce
  have red: "(failed_outcome (j_id j) e)\<lparr>iv_requires_redelivery := False\<rparr> = failed_outcome (j_id j) e" for e
    by (simp add: failed_outcome_def split: prod.splits)
  show ?thesis
  proof (cases r)
    case ok: (Inr v)
    then show ?thesis using Inr r
      by (auto simp: handle_queue_message_def adapter_invoke_def invoke_def bindIO_def resolve_queue_outcome_eq
          callback_result_def server_outcome_def completed_outcome_def callback_failed_outcome_def iv_retryable_def
          error_body_def Let_def split: option.splits prod.splits sum.splits)
  next
    case failed: (Inl e)
    show ?thesis
    proof (cases "is_exception e")
      case True
      then have nc: "e \<noteq> CancelledErr" by auto
      show ?thesis
      proof (cases "ad_transport a")
        case None
        then show ?thesis using Inr r failed True nc
          by (cases e) (simp_all add: handle_queue_message_def adapter_invoke_def invoke_def bindIO_def resolve_queue_outcome_eq Let_def)
      next
        case (Some ct)
        obtain y w2 where y: "report_once ct (j_id j) (server_outcome j r) w1 = (y, w2)" by fastforce
        have inv: "adapter_invoke a True j w = callback_result (j_id j) (failed_outcome (j_id j) e)
            (report_once ct (j_id j) (server_outcome j r)) w1"
          using r failed True Some by (simp add: adapter_invoke_def invoke_def Let_def report_failure_def server_outcome_def)
        show ?thesis
          using Inr r Some y nc failed
          by (cases e; cases y) (simp_all add: handle_queue_message_def bindIO_def inv callback_result_def
              resolve_queue_outcome_eq Let_def red)
      qed
    next
      case False
      then have "e = CancelledErr" by (cases e) simp_all
      then show ?thesis using Inr r failed
        by (simp add: handle_queue_message_def adapter_invoke_def invoke_def bindIO_def Let_def)
    qed
  qed
qed

text \<open>
  C24. A malformed job is taken for a failing handler: when a field that only \<open>Job.from_dict\<close> checks has the
  wrong type (the queue of the sample is a number), the error is not the event error.  The HTTP entrypoint
  answers 200 with a retryable \<open>handler_error\<close> instead of 400 with \<open>invalid_request\<close>, and the queue
  trigger abandons the message, which the runtime delivers again, instead of completing it.
\<close>

theorem malformed_job_retried:
  assumes "event_job env body = Inl (ValidationErr m)"
  shows "fst (handle_queue_message env a body w) = Inl (abandon env (failed_outcome [] (ValidationErr m)))
    \<and> (str_upper (http_method event) = ''POST'' \<longrightarrow> dget event ''body'' = Some body \<longrightarrow>
        fst (handle_http env a event w) = Inr (http_response env 200 [(PStr ''status'', PStr ''failed''),
          (PStr ''error'', PDict [(PStr ''code'', PStr ''handler_error''), (PStr ''message'', PStr ''OJSValidationError''),
             (PStr ''retryable'', PBool True)])]))"
proof -
  have "fst (handle_http env a event w) = Inr (http_response env 200 [(PStr ''status'', PStr ''failed''),
          (PStr ''error'', PDict [(PStr ''code'', PStr ''handler_error''), (PStr ''message'', PStr ''OJSValidationError''),
             (PStr ''retryable'', PBool True)])])"
    if "str_upper (http_method event) = ''POST''" "dget event ''body'' = Some body"
    using that guarded_invoke_err[of "ValidationErr m" a False "[]" w] assms
    by (simp add: handle_http_def bindIO_def retIO_def is_invalid_request_def outcome_to_dict_def opt_entry_def
        error_body_def failed_outcome_def)
  moreover have "fst (handle_queue_message env a body w) = Inl (abandon env (failed_outcome [] (ValidationErr m)))"
    using assms by (simp add: handle_queue_message_def resolve_queue_outcome_eq)
  ultimately show ?thesis by blast
qed

theorem malformed_job_retried_witness:
  "\<exists>m. fst (handle_queue_message sample_serverless sample_adapter
     (PDict [(PStr ''id'', PStr ''j1''), (PStr ''type'', PStr ''email.send''), (PStr ''queue'', PInt 5)]) sample_store)
     = Inl (abandon sample_serverless (failed_outcome [] (ValidationErr m)))"
proof -
  let ?body = "PDict [(PStr ''id'', PStr ''j1''), (PStr ''type'', PStr ''email.send''), (PStr ''queue'', PInt 5)]"
  have "(case event_job sample_serverless ?body of Inl (ValidationErr _) \<Rightarrow> True | _ \<Rightarrow> False)" by code_simp
  then obtain m where "event_job sample_serverless ?body = Inl (ValidationErr m)"
    by (auto split: sum.splits exn.splits)
  then show ?thesis using malformed_job_retried[of sample_serverless ?body m sample_adapter sample_store "[]"] by blast
qed

end
