(* ===== verification/Sse.thy ===== *)
theory Sse
  imports Effects
begin

section \<open>Server-sent events\<close>

text \<open>
  \<open>src/ojs/sse/\<close>: the incremental frame parser, and the session that owns one client across reconnects.
  \<open>json.loads\<close> is a function (\<open>None\<close> when it raises \<open>JSONDecodeError\<close>).  The server is a function of the
  connections made so far; an answer is an error status, a 204, or a finite list of lines and the way
  the stream ends.  The session's log records connections, events, sleeps and the closing of the
  client in order.
\<close>

subsection \<open>The frame parser\<close>

record sse_event =
  se_id :: string
  se_type :: string
  se_data :: "pydict option"
  se_raw :: string

record frame_parser =
  fp_raise :: bool
  fp_event_type :: string
  fp_last_id :: string
  fp_data :: "string list"

definition new_parser :: "string \<Rightarrow> string \<Rightarrow> exn + frame_parser" where
  "new_parser malformed initial_id =
     (if malformed \<notin> {''raise'', ''raw''} then Inl (ValueErr (''malformed_data must be '' @ repr_str ''raise'' @ '' or '' @ repr_str ''raw''))
      else Inr \<lparr>fp_raise = (malformed = ''raise''), fp_event_type = [], fp_last_id = initial_id, fp_data = []\<rparr>)"

fun join_lines :: "string list \<Rightarrow> string" where
  "join_lines [] = []"
| "join_lines [x] = x"
| "join_lines (x # xs) = x @ CHR 0x0A # join_lines xs"

definition decode_frame :: "(string \<Rightarrow> pyval option) \<Rightarrow> bool \<Rightarrow> string \<Rightarrow> string \<Rightarrow> string \<Rightarrow> exn + sse_event" where
  "decode_frame json strict i t raw =
     (case json raw of
        None \<Rightarrow> if \<not> strict then Inr \<lparr>se_id = i, se_type = t, se_data = None, se_raw = raw\<rparr>
          else Inl (SSEDataErr ''SSE data is not valid JSON'')
      | Some (PDict d) \<Rightarrow> Inr \<lparr>se_id = i, se_type = t, se_data = Some d, se_raw = raw\<rparr>
      | Some _ \<Rightarrow> if \<not> strict then Inr \<lparr>se_id = i, se_type = t, se_data = None, se_raw = raw\<rparr>
          else Inl (SSEDataErr ''SSE data must be a JSON object''))"

definition fp_dispatch :: "(string \<Rightarrow> pyval option) \<Rightarrow> frame_parser \<Rightarrow> (exn + sse_event option) \<times> frame_parser" where
  "fp_dispatch json p =
     (let raw = join_lines (fp_data p);
          event_type = (if fp_event_type p = [] then ''message'' else fp_event_type p);
          p' = p\<lparr>fp_event_type := [], fp_data := []\<rparr> in
      if raw = [] then (Inr None, p')
      else (map_sum id Some (decode_frame json (fp_raise p) (fp_last_id p) event_type raw), p'))"

definition fp_feed :: "(string \<Rightarrow> pyval option) \<Rightarrow> string \<Rightarrow> frame_parser \<Rightarrow> (exn + sse_event option) \<times> frame_parser" where
  "fp_feed json line p =
     (if line = [] then fp_dispatch json p
      else if starts_with line '':'' then (Inr None, p)
      else (case partition_chr CHR '':'' line of (field, separator, v) \<Rightarrow>
        let value = (if separator \<and> starts_with v '' '' then drop 1 v else v) in
        if field = ''event'' then (Inr None, p\<lparr>fp_event_type := value\<rparr>)
        else if field = ''id'' \<and> CHR 0x00 \<notin> set value then (Inr None, p\<lparr>fp_last_id := value\<rparr>)
        else if field = ''data'' then (Inr None, p\<lparr>fp_data := fp_data p @ [value]\<rparr>)
        else (Inr None, p)))"

definition fp_finish :: "frame_parser \<Rightarrow> frame_parser" where
  "fp_finish p = p\<lparr>fp_event_type := [], fp_data := []\<rparr>"

text \<open>The lines of a stream, one after the other, up to the first that raises.\<close>

fun feed_lines :: "(string \<Rightarrow> pyval option) \<Rightarrow> frame_parser \<Rightarrow> string list \<Rightarrow> sse_event list \<times> frame_parser \<times> exn option" where
  "feed_lines json p [] = ([], p, None)"
| "feed_lines json p (l # ls) = (case fp_feed json l p of
     (Inl e, p') \<Rightarrow> ([], p', Some e)
   | (Inr ev, p') \<Rightarrow> (case feed_lines json p' ls of
       (evs, p'', err) \<Rightarrow> ((case ev of None \<Rightarrow> evs | Some x \<Rightarrow> x # evs), p'', err)))"

subsection \<open>The subscription session\<close>

record sse_session =
  ss_stream_url :: string
  ss_channel :: string
  ss_auth :: "string option"
  ss_malformed :: string
  ss_reconnect :: bool
  ss_max_reconnects :: int
  ss_reconnect_delay :: rat
  ss_owns_client :: bool

definition new_session :: "string \<Rightarrow> string \<Rightarrow> string option \<Rightarrow> bool \<Rightarrow> string \<Rightarrow> bool \<Rightarrow> int \<Rightarrow> rat \<Rightarrow> exn + sse_session" where
  "new_session url channel auth own malformed reconnect max_reconnects delay =
     (if channel = [] then Inl (ValueErr ''SSE channel must be non-empty'')
      else if max_reconnects < 0 then Inl (ValueErr ''max_reconnects cannot be negative'')
      else if delay < 0 then Inl (ValueErr ''reconnect_delay cannot be negative'')
      else Inr \<lparr>ss_stream_url = rstrip_char CHR ''/'' url @ ''/ojs/v1/events/stream'', ss_channel = channel,
        ss_auth = auth, ss_malformed = malformed, ss_reconnect = reconnect, ss_max_reconnects = max_reconnects,
        ss_reconnect_delay = delay, ss_owns_client = own\<rparr>)"

datatype sse_failure = Sse_timeout string | Sse_request_failed string | Sse_raised exn

text \<open>An answer: the failure to connect, or a status with headers, JSON body, text and stream.\<close>

record sse_response =
  sr_status :: int
  sr_headers :: headers
  sr_json :: "exn + pyval"
  sr_text :: string
  sr_lines :: "string list"
  sr_end :: "sse_failure option"

datatype sse_action =
    Connect headers
  | Yielded sse_event
  | Slept_for rat
  | Closed

record sse_env =
  sv_json :: "string \<Rightarrow> pyval option"
  sv_server :: "headers list \<Rightarrow> sse_failure + sse_response"
  sv_http_date :: "string \<Rightarrow> pydatetime option"
  sv_now :: pydatetime

definition connections :: "sse_action list \<Rightarrow> headers list" where
  "connections tr = concat (map (\<lambda>a. case a of Connect h \<Rightarrow> [h] | _ \<Rightarrow> []) tr)"

definition sse_headers :: "sse_session \<Rightarrow> string \<Rightarrow> headers" where
  "sse_headers s last_id = [(''Accept'', ''text/event-stream''), (''Cache-Control'', ''no-cache'')]
     @ (case ss_auth s of Some a \<Rightarrow> if a = [] then [] else [(''Authorization'', ''Bearer '' @ a)] | None \<Rightarrow> [])
     @ (if last_id = [] then [] else [(''Last-Event-ID'', last_id)])"

text \<open>\<open>_raise_for_error\<close>; \<open>except (TypeError, ValueError)\<close> around \<open>response.json()\<close>.\<close>

definition is_type_or_value_error :: "exn \<Rightarrow> bool" where
  "is_type_or_value_error e = (case e of TypeErr _ \<Rightarrow> True | ValueErr _ \<Rightarrow> True | _ \<Rightarrow> False)"

definition sse_error_body :: "string \<Rightarrow> int \<Rightarrow> pydict" where
  "sse_error_body message status = [(PStr ''error'', PDict [(PStr ''code'', PStr ''parse_error''),
     (PStr ''message'', PStr message), (PStr ''retryable'', PBool (500 \<le> status))])]"

definition sse_raise_for_error :: "sse_env \<Rightarrow> sse_response \<Rightarrow> exn + unit" where
  "sse_raise_for_error env r =
     (if sr_status r < 400 then Inr ()
      else (case sr_json r of
          Inl e \<Rightarrow> if is_type_or_value_error e
            then Inl (map_error_response (sv_http_date env) (sv_now env) (sr_status r)
              (sse_error_body (if sr_text r = [] then ''Unknown SSE error'' else sr_text r) (sr_status r)) (sr_headers r))
            else Inl e
        | Inr (PDict body) \<Rightarrow> Inl (map_error_response (sv_http_date env) (sv_now env) (sr_status r) body (sr_headers r))
        | Inr _ \<Rightarrow> Inl (map_error_response (sv_http_date env) (sv_now env) (sr_status r)
              (sse_error_body ''SSE error response was not a JSON object'' (sr_status r)) (sr_headers r))))"

definition sse_failure_exn :: "sse_failure \<Rightarrow> exn" where
  "sse_failure_exn f = (case f of
     Sse_timeout m \<Rightarrow> OJSTimeoutErr (''SSE connection timed out: '' @ m)
   | Sse_request_failed m \<Rightarrow> ConnectionErr (''SSE connection failed: '' @ m)
   | Sse_raised e \<Rightarrow> e)"

text \<open>One connection: how it ended, the id of the last event (the one given if there was none), the log.\<close>

definition consume_once :: "sse_env \<Rightarrow> sse_session \<Rightarrow> string \<Rightarrow> sse_action list \<Rightarrow> (exn + unit) \<times> string \<times> sse_action list" where
  "consume_once env s last_id tr =
     (let tr1 = tr @ [Connect (sse_headers s last_id)] in
      case sv_server env (connections tr1) of
        Inl f \<Rightarrow> (Inl (sse_failure_exn f), last_id, tr1)
      | Inr r \<Rightarrow> (case sse_raise_for_error env r of
          Inl e \<Rightarrow> (Inl e, last_id, tr1)
        | Inr _ \<Rightarrow>
            if sr_status r = 204 then (Inl StreamTerminatedErr, last_id, tr1)
            else (case new_parser (ss_malformed s) last_id of
                Inl e \<Rightarrow> (Inl e, last_id, tr1)
              | Inr p \<Rightarrow> (case feed_lines (sv_json env) p (sr_lines r) of (evs, p', err) \<Rightarrow>
                  (case err of Some e \<Rightarrow> Inl e
                     | None \<Rightarrow> (case sr_end r of None \<Rightarrow> Inr () | Some f \<Rightarrow> Inl (sse_failure_exn f)),
                   (if evs = [] then last_id else se_id (last evs)), tr1 @ map Yielded evs)))))"

definition can_reconnect :: "sse_session \<Rightarrow> nat \<Rightarrow> bool" where
  "can_reconnect s reconnects \<longleftrightarrow> ss_reconnect s \<and> int reconnects < ss_max_reconnects s"

definition reconnect_sleep :: "sse_session \<Rightarrow> nat \<Rightarrow> exn + rat" where
  "reconnect_sleep s reconnects =
     (if float_limit \<le> (2::rat) ^ (reconnects - 1) then Inl OverflowErr
      else Inr (min (ss_reconnect_delay s * 2 ^ (reconnects - 1)) 30))"

function session_loop :: "sse_env \<Rightarrow> sse_session \<Rightarrow> nat \<Rightarrow> string \<Rightarrow> sse_action list \<Rightarrow> (exn + unit) \<times> sse_action list" where
  "session_loop env s reconnects last_id tr =
     (case consume_once env s last_id tr of (r, last_id', tr') \<Rightarrow>
        if r = Inl StreamTerminatedErr then (Inr (), tr')
        else if (case r of Inl e \<Rightarrow> \<not> (is_connection_error e \<or> is_timeout_error e) | Inr _ \<Rightarrow> False) then (r, tr')
        else if \<not> can_reconnect s reconnects then (r, tr')
        else (case reconnect_sleep s (reconnects + 1) of
            Inl e \<Rightarrow> (Inl e, tr')
          | Inr d \<Rightarrow> session_loop env s (reconnects + 1) last_id' (tr' @ [Slept_for d])))"
  by pat_completeness auto

text \<open>Every further connection uses up one of \<open>max_reconnects\<close>.\<close>

termination
  by (relation "measure (\<lambda>(env, s, reconnects, last_id, tr). nat (ss_max_reconnects s) - reconnects)")
    (auto simp: can_reconnect_def)

declare session_loop.simps [simp del]

text \<open>
  What a consumer that reads the session to its end sees: every connection yields a finite stream, and
  the consumer neither abandons nor cancels the generator (then the \<open>finally\<close> clauses of the source
  close the response).
\<close>

definition session_events :: "sse_env \<Rightarrow> sse_session \<Rightarrow> (exn + unit) \<times> sse_action list" where
  "session_events env s = (case session_loop env s 0 [] [] of
     (r, tr) \<Rightarrow> (r, if ss_owns_client s then tr @ [Closed] else tr))"

subsection \<open>The parser against the processing model\<close>

text \<open>
  The reference: a line that is neither blank nor a comment is a field; the lines up to a blank line
  are a block; and a block makes an event out of all of its fields at once.
\<close>

definition field_of :: "string \<Rightarrow> (string \<times> string) option" where
  "field_of line = (if starts_with line '':'' then None else
     (case partition_chr CHR '':'' line of (field, separator, v) \<Rightarrow>
        Some (field, if separator \<and> starts_with v '' '' then drop 1 v else v)))"

definition field_values :: "string \<Rightarrow> string list \<Rightarrow> string list" where
  "field_values name block = concat (map (\<lambda>l. case field_of l of
     Some (n, v) \<Rightarrow> if n = name then [v] else [] | None \<Rightarrow> []) block)"

definition block_ids :: "string list \<Rightarrow> string list" where
  "block_ids block = filter (\<lambda>v. CHR 0x00 \<notin> set v) (field_values ''id'' block)"

definition block_result :: "(string \<Rightarrow> pyval option) \<Rightarrow> bool \<Rightarrow> string \<Rightarrow> string list \<Rightarrow> (exn + sse_event) list" where
  "block_result json strict i block =
     (let t = last ([] # field_values ''event'' block); raw = join_lines (field_values ''data'' block) in
      if raw = [] then [] else [decode_frame json strict i (if t = [] then ''message'' else t) raw])"

fun ref_results :: "(string \<Rightarrow> pyval option) \<Rightarrow> bool \<Rightarrow> string \<Rightarrow> string list list \<Rightarrow> (exn + sse_event) list" where
  "ref_results json strict i [] = []"
| "ref_results json strict i (b # bs) = (let i' = last (i # block_ids b) in
     block_result json strict i' b @ ref_results json strict i' bs)"

fun frames :: "string list \<Rightarrow> string list list \<times> string list" where
  "frames [] = ([], [])"
| "frames (l # ls) = (case frames ls of (bs, rest) \<Rightarrow>
     if l = [] then ([] # bs, rest)
     else (case bs of [] \<Rightarrow> ([], l # rest) | b # bs' \<Rightarrow> ((l # b) # bs', rest)))"

lemma frames_split:
  "frames ls = (bs, rest) \<Longrightarrow> ls = concat (map (\<lambda>b. b @ [[]]) bs) @ rest \<and> [] \<notin> set rest \<and> (\<forall>b \<in> set bs. [] \<notin> set b)"
proof (induction ls arbitrary: bs rest)
  case (Cons l ls)
  obtain bs1 rest1 where rec: "frames ls = (bs1, rest1)" by (cases "frames ls")
  note IH = Cons.IH[OF rec]
  show ?case
  proof (cases "l = []")
    case True
    then have "bs = [] # bs1" "rest = rest1" using Cons.prems rec by auto
    then show ?thesis using IH True by auto
  next
    case False
    then show ?thesis using Cons.prems rec IH by (cases bs1) auto
  qed
qed simp

lemma feed_lines_append:
  "feed_lines json p (xs @ ys) = (case feed_lines json p xs of
     (evs, p1, Some e) \<Rightarrow> (evs, p1, Some e)
   | (evs, p1, None) \<Rightarrow> (case feed_lines json p1 ys of (evs2, p2, err) \<Rightarrow> (evs @ evs2, p2, err)))"
  by (induction xs arbitrary: p) (auto split: prod.splits sum.splits option.splits)

text \<open>What the fields of a block leave in the buffers.\<close>

definition absorb :: "string list \<Rightarrow> frame_parser \<Rightarrow> frame_parser" where
  "absorb b p = p\<lparr>fp_event_type := last (fp_event_type p # field_values ''event'' b),
     fp_last_id := last (fp_last_id p # block_ids b), fp_data := fp_data p @ field_values ''data'' b\<rparr>"

lemma field_values_Cons: "field_values n (l # b) = (case field_of l of
    Some (m, v) \<Rightarrow> if m = n then [v] else [] | None \<Rightarrow> []) @ field_values n b"
  by (simp add: field_values_def)

lemma feed_field: "l \<noteq> [] \<Longrightarrow> fp_feed json l p = (Inr None, absorb [l] p)"
  by (auto simp: fp_feed_def absorb_def block_ids_def field_values_def field_of_def Let_def split: prod.splits)

lemma absorb_Cons: "absorb b (absorb [l] p) = absorb (l # b) p"
  by (auto simp: absorb_def block_ids_def field_values_Cons field_values_def[of _ "[]"] split: option.splits)

lemma feed_block: "[] \<notin> set b \<Longrightarrow> feed_lines json p b = ([], absorb b p, None)"
proof (induction b arbitrary: p)
  case Nil
  then show ?case by (simp add: absorb_def block_ids_def field_values_def)
next
  case (Cons l b)
  then have "l \<noteq> []" by auto
  then show ?case using Cons by (simp add: feed_field absorb_Cons)
qed

definition parser_idle :: "frame_parser \<Rightarrow> bool" where
  "parser_idle p \<longleftrightarrow> fp_event_type p = [] \<and> fp_data p = []"

lemma dispatch_block:
  assumes "parser_idle p"
  shows "fp_dispatch json (absorb b p) = ((case block_result json (fp_raise p) (last (fp_last_id p # block_ids b)) b of
       [] \<Rightarrow> Inr None | r # _ \<Rightarrow> map_sum id Some r), p\<lparr>fp_last_id := last (fp_last_id p # block_ids b)\<rparr>)"
  using assms by (cases p) (auto simp: fp_dispatch_def absorb_def block_result_def parser_idle_def Let_def)

lemma field_values_append: "field_values n (a @ b) = field_values n a @ field_values n b"
  by (simp add: field_values_def)

lemma block_ids_append: "block_ids (a @ b) = block_ids a @ block_ids b"
  by (simp add: block_ids_def field_values_append)

lemma block_ids_blank: "block_ids ([] # b) = block_ids b" "block_ids [] = []"
  by (simp_all add: block_ids_def field_values_def field_of_def starts_with_def)

lemma last_ids: "last (last (i # xs) # ys) = last (i # xs @ ys)"
  by (cases ys) auto

lemma feed_blocks:
  assumes "parser_idle p" "[] \<notin> set rest" "\<forall>b \<in> set bs. [] \<notin> set b"
  shows "case feed_lines json p (concat (map (\<lambda>b. b @ [[]]) bs) @ rest) of (evs, p', err) \<Rightarrow>
     (let rs = ref_results json (fp_raise p) (fp_last_id p) bs in
        evs = map projr (takeWhile (\<lambda>r. \<not> isl r) rs)
      \<and> err = (case dropWhile (\<lambda>r. \<not> isl r) rs of [] \<Rightarrow> None | r # _ \<Rightarrow> Some (projl r))
      \<and> (err = None \<longrightarrow> fp_last_id p' = last (fp_last_id p # block_ids (concat (map (\<lambda>b. b @ [[]]) bs) @ rest))))"
  using assms(1,3)
proof (induction bs arbitrary: p)
  case Nil
  then show ?case using assms(2) by (simp add: feed_block absorb_def)
next
  case (Cons b bs)
  define i where "i = last (fp_last_id p # block_ids b)"
  let ?p = "p\<lparr>fp_last_id := i\<rparr>"
  let ?rest = "concat (map (\<lambda>b. b @ [[]]) bs) @ rest"
  have idle: "parser_idle ?p" using Cons.prems(1) by (simp add: parser_idle_def)
  have one: "feed_lines json p (b @ [[]]) = (case block_result json (fp_raise p) i b of
      [] \<Rightarrow> ([], ?p, None) | Inl e # _ \<Rightarrow> ([], ?p, Some e) | Inr ev # _ \<Rightarrow> ([ev], ?p, None))"
    using Cons.prems(2) dispatch_block[OF Cons.prems(1), of json b, folded i_def]
    by (auto simp: feed_lines_append feed_block fp_feed_def block_result_def Let_def split: list.splits sum.splits)
  have ids: "last (i # block_ids ?rest) = last (fp_last_id p # block_ids (b @ [[]] @ ?rest))"
    unfolding i_def by (simp add: block_ids_append block_ids_blank last_ids del: append_assoc last.simps)
  obtain evs p' err where rec: "feed_lines json ?p ?rest = (evs, p', err)" by (cases "feed_lines json ?p ?rest")
  have IH: "let rs = ref_results json (fp_raise p) i bs in
      evs = map projr (takeWhile (\<lambda>r. \<not> isl r) rs)
      \<and> err = (case dropWhile (\<lambda>r. \<not> isl r) rs of [] \<Rightarrow> None | r # _ \<Rightarrow> Some (projl r))
      \<and> (err = None \<longrightarrow> fp_last_id p' = last (i # block_ids ?rest))"
    using Cons.IH[OF idle] Cons.prems(2) rec by simp
  have whole: "feed_lines json p (concat (map (\<lambda>b. b @ [[]]) (b # bs)) @ rest) = (case block_result json (fp_raise p) i b of
      [] \<Rightarrow> (evs, p', err) | Inl e # _ \<Rightarrow> ([], ?p, Some e) | Inr ev # _ \<Rightarrow> (ev # evs, p', err))"
    using feed_lines_append[of json p "b @ [[]]" ?rest] rec unfolding one
    by (simp split: list.split sum.split)
  have few: "block_result json (fp_raise p) i b = [] \<or> (\<exists>r. block_result json (fp_raise p) i b = [r])"
    by (simp add: block_result_def Let_def)
  show ?case
    using few IH ids unfolding whole
    by (elim disjE exE) (auto simp: Let_def i_def[symmetric] split: sum.splits simp del: last.simps)
qed

text \<open>
  C25. The incremental parser is the block-wise processing model: whatever the lines, the events are
  those of the blank-line terminated blocks in order (the data lines joined, the last event field or
  \<open>message\<close>, the last id seen so far), up to the first block the policy refuses, whose error is the one
  raised; lines after the last blank line make no event, but their ids are kept.
\<close>

theorem sse_parser_reference:
  assumes "parser_idle p" "frames ls = (bs, rest)"
  shows "case feed_lines json p ls of (evs, p', err) \<Rightarrow>
     (let rs = ref_results json (fp_raise p) (fp_last_id p) bs in
        evs = map projr (takeWhile (\<lambda>r. \<not> isl r) rs)
      \<and> err = (case dropWhile (\<lambda>r. \<not> isl r) rs of [] \<Rightarrow> None | r # _ \<Rightarrow> Some (projl r))
      \<and> (err = None \<longrightarrow> fp_last_id p' = last (fp_last_id p # block_ids ls)))"
  using feed_blocks[OF assms(1), of rest bs json] frames_split[OF assms(2)] by simp

theorem sse_parser_reference_witness:
  "fst (feed_lines (\<lambda>_. Some (PDict [])) \<lparr>fp_raise = False, fp_event_type = [], fp_last_id = ''4'', fp_data = []\<rparr>
     [''event: x'', ''data: {}'', [], ''data: {}''])
   = [\<lparr>se_id = ''4'', se_type = ''x'', se_data = Some [], se_raw = ''{}''\<rparr>]"
proof -
  let ?p = "\<lparr>fp_raise = False, fp_event_type = [], fp_last_id = ''4'', fp_data = []\<rparr>"
  have "parser_idle ?p" by (simp add: parser_idle_def)
  moreover have "frames [''event: x'', ''data: {}'', [], ''data: {}''] = ([[''event: x'', ''data: {}'']], [''data: {}''])"
    by simp
  ultimately have "case feed_lines (\<lambda>_. Some (PDict [])) ?p [''event: x'', ''data: {}'', [], ''data: {}''] of (evs, p', err) \<Rightarrow>
      evs = map projr (takeWhile (\<lambda>r. \<not> isl r) (ref_results (\<lambda>_. Some (PDict [])) False ''4'' [[''event: x'', ''data: {}'']]))"
    using sse_parser_reference[of ?p _ _ _ "\<lambda>_. Some (PDict [])"] by (fastforce simp: Let_def)
  moreover have "ref_results (\<lambda>_. Some (PDict [])) False ''4'' [[''event: x'', ''data: {}'']]
      = [Inr \<lparr>se_id = ''4'', se_type = ''x'', se_data = Some [], se_raw = ''{}''\<rparr>]"
    by (simp add: block_result_def block_ids_def field_values_def field_of_def starts_with_def decode_frame_def)
  ultimately show ?thesis by (auto split: prod.splits)
qed

subsection \<open>What a session does\<close>

text \<open>
  Along the log, given the id of the last event before it: every connection asks to resume after the
  last event that was yielded, and every sleep is between zero and thirty seconds.
\<close>

fun resumes :: "sse_session \<Rightarrow> string \<Rightarrow> sse_action list \<Rightarrow> bool" where
  "resumes s i [] = True"
| "resumes s i (Connect h # tr) = (h = sse_headers s i \<and> resumes s i tr)"
| "resumes s i (Yielded e # tr) = resumes s (se_id e) tr"
| "resumes s i (Slept_for d # tr) = (0 \<le> d \<and> d \<le> 30 \<and> resumes s i tr)"
| "resumes s i (Closed # tr) = resumes s i tr"

fun last_event_id :: "string \<Rightarrow> sse_action list \<Rightarrow> string" where
  "last_event_id i [] = i"
| "last_event_id i (Yielded e # tr) = last_event_id (se_id e) tr"
| "last_event_id i (a # tr) = last_event_id i tr"

lemma resumes_append [simp]:
  "resumes s i (a @ b) \<longleftrightarrow> resumes s i a \<and> resumes s (last_event_id i a) b"
  by (induction s i a rule: resumes.induct) auto

lemma last_event_id_append [simp]: "last_event_id i (a @ b) = last_event_id (last_event_id i a) b"
  by (induction i a rule: last_event_id.induct) auto

lemma yields [simp]: "resumes s i (map Yielded evs)" "last_event_id i (map Yielded evs) = (if evs = [] then i else se_id (last evs))"
  by (induction evs arbitrary: i) auto

lemma connections_simps [simp]:
  "connections (a @ b) = connections a @ connections b" "connections (Connect h # b) = h # connections b"
  "connections (map Yielded evs) = []" "connections (Yielded e # b) = connections b"
  "connections (Slept_for d # b) = connections b" "connections (Closed # b) = connections b" "connections [] = []"
  by (auto simp: connections_def)

text \<open>Along the log, given the connections before it: nothing is asked after a 204.\<close>

definition says_stop :: "sse_env \<Rightarrow> headers list \<Rightarrow> bool" where
  "says_stop env cs \<longleftrightarrow> (case sv_server env cs of Inr r \<Rightarrow> sr_status r = 204 | Inl _ \<Rightarrow> False)"

fun stops :: "sse_env \<Rightarrow> headers list \<Rightarrow> sse_action list \<Rightarrow> bool" where
  "stops env cs [] = True"
| "stops env cs (Connect h # tr) = ((says_stop env (cs @ [h]) \<longrightarrow> connections tr = []) \<and> stops env (cs @ [h]) tr)"
| "stops env cs (a # tr) = stops env cs tr"

lemma stops_yields [simp]: "stops env cs (map Yielded evs @ tr) = stops env cs tr"
  by (induction evs) auto

lemma stops_yields_only [simp]: "stops env cs (map Yielded evs)"
  using stops_yields[of env cs evs "[]"] by simp

lemma stops_closed: "stops env cs tr \<Longrightarrow> stops env cs (tr @ [Closed])"
  by (induction env cs tr rule: stops.induct) auto

lemma consume_stop:
  "says_stop env (connections tr @ [sse_headers s i]) \<Longrightarrow> fst (consume_once env s i tr) = Inl StreamTerminatedErr"
  by (auto simp: says_stop_def consume_once_def Let_def sse_raise_for_error_def split: sum.splits)

lemma consume_once_log:
  "\<exists>evs. consume_once env s i tr = (fst (consume_once env s i tr), last_event_id i (map Yielded evs),
      tr @ [Connect (sse_headers s i)] @ map Yielded evs)"
proof -
  have "\<exists>evs. snd (consume_once env s i tr) = (last_event_id i (map Yielded evs), tr @ [Connect (sse_headers s i)] @ map Yielded evs)"
    by (auto simp: consume_once_def Let_def split: sum.split prod.split option.split intro: exI[of _ "[]"] exI)
  then show ?thesis by (metis prod.collapse)
qed

lemma session_loop_log:
  assumes "resumes s [] tr" "last_event_id [] tr = i" "0 \<le> ss_reconnect_delay s"
  shows "\<exists>new. snd (session_loop env s n i tr) = tr @ new \<and> resumes s [] (tr @ new)
    \<and> stops env (connections tr) new \<and> (\<exists>more. new = Connect (sse_headers s i) # more)
    \<and> length (connections new) \<le> (if ss_reconnect s then nat (ss_max_reconnects s) - n else 0) + 1"
  using assms
proof (induction env s n i tr rule: session_loop.induct)
  case (1 env s n i tr)
  obtain r evs where once: "consume_once env s i tr = (r, last_event_id i (map Yielded evs), tr @ [Connect (sse_headers s i)] @ map Yielded evs)"
    using consume_once_log[of env s i tr] by metis
  let ?i = "last_event_id i (map Yielded evs)"
  let ?tr = "tr @ [Connect (sse_headers s i)] @ map Yielded evs"
  show ?case
  proof (cases "r \<noteq> Inl StreamTerminatedErr \<and> \<not> (case r of Inl e \<Rightarrow> \<not> (is_connection_error e \<or> is_timeout_error e) | Inr _ \<Rightarrow> False)
      \<and> can_reconnect s n \<and> (\<exists>d. reconnect_sleep s (n + 1) = Inr d)")
    case False
    then have "snd (session_loop env s n i tr) = ?tr"
      using once by (subst session_loop.simps) (auto split: sum.split)
    then show ?thesis using 1(2,3)
      by (intro exI[of _ "[Connect (sse_headers s i)] @ map Yielded evs"]) simp
  next
    case True
    then obtain d where d: "reconnect_sleep s (n + 1) = Inr d" by blast
    then have d_eq: "d = min (ss_reconnect_delay s * 2 ^ n) 30"
      by (simp add: reconnect_sleep_def split: if_splits)
    then have bound: "0 \<le> d" "d \<le> 30" using 1(4) by simp_all
    have step: "session_loop env s n i tr = session_loop env s (n + 1) ?i (?tr @ [Slept_for d])"
      using True d once by (subst session_loop.simps) simp
    have IH: "resumes s [] (?tr @ [Slept_for d]) \<Longrightarrow> last_event_id [] (?tr @ [Slept_for d]) = ?i \<Longrightarrow> 0 \<le> ss_reconnect_delay s \<Longrightarrow>
      \<exists>new. snd (session_loop env s (n + 1) ?i (?tr @ [Slept_for d])) = (?tr @ [Slept_for d]) @ new
        \<and> resumes s [] ((?tr @ [Slept_for d]) @ new)
        \<and> stops env (connections (?tr @ [Slept_for d])) new \<and> (\<exists>more. new = Connect (sse_headers s ?i) # more)
        \<and> length (connections new) \<le> (if ss_reconnect s then nat (ss_max_reconnects s) - (n + 1) else 0) + 1"
      using "1.IH"[OF once[symmetric] refl _ _ _ d] True by blast
    obtain new where new: "snd (session_loop env s (n + 1) ?i (?tr @ [Slept_for d])) = (?tr @ [Slept_for d]) @ new"
        "resumes s [] ((?tr @ [Slept_for d]) @ new)" "stops env (connections (?tr @ [Slept_for d])) new" "\<exists>more. new = Connect (sse_headers s ?i) # more"
        "length (connections new) \<le> (if ss_reconnect s then nat (ss_max_reconnects s) - (n + 1) else 0) + 1"
      using IH 1(2,3,4) bound by auto
    have "ss_reconnect s" "int n < ss_max_reconnects s" using True by (auto simp: can_reconnect_def)
    moreover have "\<not> says_stop env (connections tr @ [sse_headers s i])"
      using consume_stop[of env tr s i] once True by auto
    ultimately show ?thesis using new step
      by (intro exI[of _ "[Connect (sse_headers s i)] @ map Yielded evs @ [Slept_for d] @ new"]) auto
  qed
qed

text \<open>
  C26. A session resumes where it stopped, and stops: it makes at least one connection and at most
  \<open>max_reconnects + 1\<close> (one when reconnecting is off), each with the id of the last event it yielded
  before as \<open>Last-Event-ID\<close> (without the header when there is none or it is empty); every sleep in
  between is at most thirty seconds; after a 204 it never connects again; and an owned client is closed
  at the end, however the session ended.
\<close>

theorem sse_session_log:
  assumes "0 \<le> ss_reconnect_delay s"
  shows "let tr = snd (session_events env s) in
    resumes s [] tr \<and> stops env [] tr \<and> 1 \<le> length (connections tr)
    \<and> length (connections tr) \<le> (if ss_reconnect s then nat (ss_max_reconnects s) else 0) + 1
    \<and> (ss_owns_client s \<longrightarrow> last tr = Closed)"
proof -
  obtain new where new: "snd (session_loop env s 0 [] []) = new" "resumes s [] new" "stops env [] new"
      "\<exists>more. new = Connect (sse_headers s []) # more"
      "length (connections new) \<le> (if ss_reconnect s then nat (ss_max_reconnects s) - 0 else 0) + 1"
    using session_loop_log[of s "[]" "[]" env 0] assms unfolding append_Nil connections_simps(7)
      resumes.simps(1) last_event_id.simps(1) by blast
  then show ?thesis
    by (auto simp: session_events_def Let_def stops_closed split: prod.splits)
qed

definition sample_session :: sse_session where
  "sample_session = \<lparr>ss_stream_url = ''http://h/ojs/v1/events/stream'', ss_channel = ''all'', ss_auth = None,
     ss_malformed = ''raw'', ss_reconnect = True, ss_max_reconnects = 1, ss_reconnect_delay = 1 / 2, ss_owns_client = True\<rparr>"

definition sse_answer :: "int \<Rightarrow> string list \<Rightarrow> sse_response" where
  "sse_answer status ls = \<lparr>sr_status = status, sr_headers = [], sr_json = Inr PNone, sr_text = [], sr_lines = ls, sr_end = None\<rparr>"

definition sse_sample_env :: "(headers list \<Rightarrow> sse_failure + sse_response) \<Rightarrow> sse_env" where
  "sse_sample_env server = \<lparr>sv_json = (\<lambda>_. Some (PDict [])), sv_server = server, sv_http_date = (\<lambda>_. None), sv_now = NaiveDT 0\<rparr>"

theorem sse_session_log_witness:
  "length (connections (snd (session_events (sse_sample_env (\<lambda>_. Inr (sse_answer 200 []))) sample_session))) \<le> 2"
  using sse_session_log[of sample_session "sse_sample_env (\<lambda>_. Inr (sse_answer 200 []))"]
  by (simp add: sample_session_def Let_def)

text \<open>
  An id without data is forgotten on reconnect: when a connection ends whose frames set the last
  event id without dispatching an event (an \<open>id\<close> field in a block with no data), the parser's buffer
  holds the new id, yet the next connection asks to resume after the old one.  On one connection the next
  event would have had the new id.
\<close>

theorem sse_dataless_id_lost:
  assumes "sv_server env [sse_headers s []] = Inr r" and "sr_status r < 400" "sr_status r \<noteq> 204" "sr_end r = None"
    and "ss_reconnect s" "0 < ss_max_reconnects s" "ss_malformed s = ''raw''"
    and "feed_lines (sv_json env) \<lparr>fp_raise = False, fp_event_type = [], fp_last_id = [], fp_data = []\<rparr> (sr_lines r) = ([], p, None)"
    and "fp_last_id p = i" "i \<noteq> []" "fp_event_type p = []" "fp_data p = []" "sv_json env ''{}'' = Some (PDict [])"
    and "0 \<le> ss_reconnect_delay s"
  shows "(\<exists>rest. connections (snd (session_events env s)) = sse_headers s [] # sse_headers s [] # rest)
    \<and> feed_lines (sv_json env) p [''data: {}'', []]
       = ([\<lparr>se_id = i, se_type = ''message'', se_data = Some [], se_raw = ''{}''\<rparr>], p, None)"
proof
  let ?h = "sse_headers s []"
  have "consume_once env s [] [] = (Inr (), [], [Connect ?h])"
    using assms(1-4,7,8) by (simp add: consume_once_def sse_raise_for_error_def new_parser_def)
  moreover have "reconnect_sleep s 1 = Inr (min (ss_reconnect_delay s) 30)"
    by (simp add: reconnect_sleep_def float_limit_def)
  ultimately have step: "session_loop env s 0 [] []
      = session_loop env s 1 [] [Connect ?h, Slept_for (min (ss_reconnect_delay s) 30)]"
    using assms(5,6) by (subst session_loop.simps) (simp add: can_reconnect_def)
  obtain new more where "snd (session_loop env s 0 [] []) = [Connect ?h, Slept_for (min (ss_reconnect_delay s) 30)] @ new"
      "new = Connect ?h # more"
    using session_loop_log[of s "[Connect ?h, Slept_for (min (ss_reconnect_delay s) 30)]" "[]" env 1] assms(14)
    unfolding step by auto
  then show "\<exists>rest. connections (snd (session_events env s)) = ?h # ?h # rest"
    by (auto simp: session_events_def split: prod.splits)
  have "feed_lines (sv_json env) p [''data: {}'', []] = (case fp_dispatch (sv_json env) (p\<lparr>fp_data := [''{}'']\<rparr>) of
      (Inl e, p') \<Rightarrow> ([], p', Some e) | (Inr ev, p') \<Rightarrow> ((case ev of None \<Rightarrow> [] | Some x \<Rightarrow> [x]), p', None))"
    using assms(12) by (simp add: fp_feed_def starts_with_def split: prod.split sum.split)
  also have "\<dots> = ([\<lparr>se_id = i, se_type = ''message'', se_data = Some [], se_raw = ''{}''\<rparr>], p, None)"
    using assms(9,11,12,13) by (cases p) (simp add: fp_dispatch_def decode_frame_def)
  finally show "feed_lines (sv_json env) p [''data: {}'', []]
      = ([\<lparr>se_id = i, se_type = ''message'', se_data = Some [], se_raw = ''{}''\<rparr>], p, None)" .
qed

theorem sse_dataless_id_lost_witness:
  "\<exists>rest. connections (snd (session_events (sse_sample_env (\<lambda>_. Inr (sse_answer 200 [''id: 7'', []]))) sample_session))
     = sse_headers sample_session [] # sse_headers sample_session [] # rest"
  by (rule conjunct1[OF sse_dataless_id_lost[where i = "''7''" and r = "sse_answer 200 [''id: 7'', []]"
      and p = "\<lparr>fp_raise = False, fp_event_type = [], fp_last_id = ''7'', fp_data = []\<rparr>"]])
    (simp_all add: sse_sample_env_def sse_answer_def sample_session_def fp_feed_def starts_with_def fp_dispatch_def)

end
