(* ===== verification/Subscribe.thy ===== *)
theory Subscribe
  imports Sse
begin

section \<open>Subscriptions\<close>

text \<open>
  \<open>src/ojs/subscribe.py\<close>: the three entry points over a session.  The server is a function of the stream's
  URL, the channel of the query and the headers of the connections made so far.  As the entry points are
  asynchronous generators, an invalid argument raises when the first event is asked for.
\<close>

record subscribe_options =
  so_auth :: "string option"
  so_own_client :: bool
  so_malformed :: string
  so_reconnect :: bool
  so_max_reconnects :: int
  so_reconnect_delay :: rat

definition default_subscribe :: subscribe_options where
  "default_subscribe = \<lparr>so_auth = None, so_own_client = True, so_malformed = ''raw'', so_reconnect = False,
     so_max_reconnects = 3, so_reconnect_delay = 1 / 2\<rparr>"

type_synonym event_server = "string \<Rightarrow> string \<Rightarrow> headers list \<Rightarrow> sse_failure + sse_response"

definition subscribe :: "sse_env \<Rightarrow> event_server \<Rightarrow> string \<Rightarrow> string \<Rightarrow> subscribe_options \<Rightarrow> (exn + unit) \<times> sse_action list" where
  "subscribe env server url channel p =
     (case new_session url channel (so_auth p) (so_own_client p) (so_malformed p) (so_reconnect p) (so_max_reconnects p)
         (so_reconnect_delay p) of
        Inl e \<Rightarrow> (Inl e, [])
      | Inr s \<Rightarrow> session_events (env\<lparr>sv_server := server (ss_stream_url s) (ss_channel s)\<rparr>) s)"

definition subscribe_job :: "sse_env \<Rightarrow> event_server \<Rightarrow> string \<Rightarrow> string \<Rightarrow> subscribe_options \<Rightarrow> (exn + unit) \<times> sse_action list" where
  "subscribe_job env server url job_id p = subscribe env server url (''job:'' @ job_id) p"

definition subscribe_queue :: "sse_env \<Rightarrow> event_server \<Rightarrow> string \<Rightarrow> string \<Rightarrow> subscribe_options \<Rightarrow> (exn + unit) \<times> sse_action list" where
  "subscribe_queue env server url q p = subscribe env server url (''queue:'' @ q) p"

text \<open>
  The channels of jobs and queues never meet, and different ids are different channels; an empty id is not
  caught: it subscribes to the channel \<open>job:\<close>, where only an empty channel is refused.
\<close>

lemma subscription_channels:
  "''job:'' @ i = ''job:'' @ j \<longleftrightarrow> i = j" "''job:'' @ i \<noteq> ''queue:'' @ q" "''queue:'' @ q = ''queue:'' @ r \<longleftrightarrow> q = r"
  by simp_all

lemma subscribe_channel:
  assumes "0 \<le> so_max_reconnects p" and "0 \<le> so_reconnect_delay p" and "channel \<noteq> []"
  shows "\<exists>s. new_session url channel (so_auth p) (so_own_client p) (so_malformed p) (so_reconnect p) (so_max_reconnects p)
       (so_reconnect_delay p) = Inr s
     \<and> subscribe env server url channel p
       = session_events (env\<lparr>sv_server := server (rstrip_char CHR ''/'' url @ ''/ojs/v1/events/stream'') channel\<rparr>) s"
proof -
  obtain s where s: "new_session url channel (so_auth p) (so_own_client p) (so_malformed p) (so_reconnect p)
      (so_max_reconnects p) (so_reconnect_delay p) = Inr s" "ss_channel s = channel"
      "ss_stream_url s = rstrip_char CHR ''/'' url @ ''/ojs/v1/events/stream''"
    using assms by (simp add: new_session_def)
  then show ?thesis by (simp add: subscribe_def)
qed

end
