(* ===== verification/Telemetry.thy ===== *)
theory Telemetry
  imports Middleware
begin

section \<open>OpenTelemetry middleware\<close>

text \<open>
  \<open>src/ojs/otel.py\<close>.  The \<open>opentelemetry\<close> package is a parameter: what each of its operations does is an
  event in a log, and \<open>instruments\<close> says what an operation raises, if anything (its API promises that none
  does).  The span is a context manager that lets exceptions through.
\<close>

type_synonym otel_attrs = "(string \<times> pyval) list"

datatype otel_event =
    Span_started string otel_attrs
  | Span_status_ok
  | Span_exception exn
  | Span_status_error string
  | Duration_recorded rat otel_attrs
  | Completed_added otel_attrs
  | Failed_added otel_attrs
  | Span_ended "exn option"

record 'w otel_world =
  ow_log :: "otel_event list"
  ow_rest :: 'w

definition instrument :: "(otel_event list \<Rightarrow> otel_event \<Rightarrow> exn option) \<Rightarrow> otel_event \<Rightarrow> ('w otel_world, unit) io" where
  "instrument instruments ev w = (case instruments (ow_log w) ev of
     None \<Rightarrow> (Inr (), w\<lparr>ow_log := ow_log w @ [ev]\<rparr>)
   | Some e \<Rightarrow> (Inl e, w\<lparr>ow_log := ow_log w @ [ev]\<rparr>))"

definition metric_attrs :: "job \<Rightarrow> otel_attrs" where
  "metric_attrs j = [(''ojs.job.type'', PStr (j_type j)), (''ojs.job.queue'', PStr (j_queue j))]"

definition span_attrs :: "job \<Rightarrow> otel_attrs" where
  "span_attrs j = [(''messaging.system'', PStr ''ojs''), (''messaging.operation'', PStr ''process''),
     (''ojs.job.type'', PStr (j_type j)), (''ojs.job.id'', PStr (j_id j)), (''ojs.job.queue'', PStr (j_queue j)),
     (''ojs.job.attempt'', PInt (j_attempt j))]"

text \<open>The body of the \<open>with\<close> block: \<open>try\<close> covers the handler and the recording of its success.\<close>

definition otel_success :: "(otel_event list \<Rightarrow> otel_event \<Rightarrow> exn option) \<Rightarrow> ('w \<Rightarrow> rat) \<Rightarrow> job \<Rightarrow> rat \<Rightarrow> pyval
    \<Rightarrow> ('w otel_world, pyval) io" where
  "otel_success ins now j start result w = (let elapsed = now (ow_rest w) - start in
     bindIO (instrument ins Span_status_ok) (\<lambda>_.
     bindIO (instrument ins (Duration_recorded elapsed (metric_attrs j))) (\<lambda>_.
     bindIO (instrument ins (Completed_added (metric_attrs j))) (\<lambda>_. retIO result))) w)"

definition otel_failure :: "(otel_event list \<Rightarrow> otel_event \<Rightarrow> exn option) \<Rightarrow> (exn \<Rightarrow> string) \<Rightarrow> ('w \<Rightarrow> rat) \<Rightarrow> job \<Rightarrow> rat
    \<Rightarrow> exn \<Rightarrow> ('w otel_world, pyval) io" where
  "otel_failure ins str_of now j start e w = (let elapsed = now (ow_rest w) - start in
     bindIO (instrument ins (Span_exception e)) (\<lambda>_.
     bindIO (instrument ins (Span_status_error (str_of e))) (\<lambda>_.
     bindIO (instrument ins (Duration_recorded elapsed (metric_attrs j))) (\<lambda>_.
     bindIO (instrument ins (Failed_added (metric_attrs j))) (\<lambda>_. raiseIO e)))) w)"

text \<open>Leaving the \<open>with\<close> block ends the span, whatever the body did; an error of that replaces the body's.\<close>

definition otel_middleware :: "(otel_event list \<Rightarrow> otel_event \<Rightarrow> exn option) \<Rightarrow> (exn \<Rightarrow> string) \<Rightarrow> ('w \<Rightarrow> rat)
    \<Rightarrow> 'w otel_world execution_middleware" where
  "otel_middleware ins str_of now ctx nxt = (let j = jc_job ctx in
     bindIO (instrument ins (Span_started (''process '' @ j_type j) (span_attrs j))) (\<lambda>_ w1.
       let start = now (ow_rest w1) in
       case catchIO (bindIO nxt (otel_success ins now j start)) is_exception (otel_failure ins str_of now j start) w1 of
         (r, w2) \<Rightarrow> (case instrument ins (Span_ended (case r of Inl e \<Rightarrow> Some e | Inr _ \<Rightarrow> None)) w2 of
             (Inl e, w3) \<Rightarrow> (Inl e, w3)
           | (Inr _, w3) \<Rightarrow> (r, w3))))"

definition quiet_instruments :: "otel_event list \<Rightarrow> otel_event \<Rightarrow> exn option" where
  "quiet_instruments _ _ = None"

text \<open>What a finished execution leaves in the log, from its outcome and duration.\<close>

definition outcome_events :: "(exn \<Rightarrow> string) \<Rightarrow> job \<Rightarrow> exn + pyval \<Rightarrow> rat \<Rightarrow> otel_event list" where
  "outcome_events str_of j r d = (case r of
     Inr _ \<Rightarrow> [Span_status_ok, Duration_recorded d (metric_attrs j), Completed_added (metric_attrs j), Span_ended None]
   | Inl e \<Rightarrow> (if is_exception e then [Span_exception e, Span_status_error (str_of e), Duration_recorded d (metric_attrs j),
         Failed_added (metric_attrs j)] else []) @ [Span_ended (Some e)])"

text \<open>
  Over instruments that keep their promise the middleware is invisible to the chain: it runs the rest
  exactly once and ends as it ended, and the log gains a span around it with exactly one count of the
  outcome; a cancelled execution is counted neither as completed nor as failed.
\<close>

theorem otel_transparent:
  "otel_middleware quiet_instruments str_of now ctx nxt w =
    (let j = jc_job ctx; w1 = w\<lparr>ow_log := ow_log w @ [Span_started (''process '' @ j_type j) (span_attrs j)]\<rparr> in
     case nxt w1 of (r, w2) \<Rightarrow>
       (r, w2\<lparr>ow_log := ow_log w2 @ outcome_events str_of j r (now (ow_rest w2) - now (ow_rest w))\<rparr>))"
  by (auto simp: otel_middleware_def instrument_def quiet_instruments_def Let_def bindIO_def catchIO_def retIO_def raiseIO_def
      otel_success_def otel_failure_def outcome_events_def split: prod.splits sum.splits)

text \<open>
  An instrument that breaks the promise after the handler returned turns the success into a failure: the
  duration is recorded a second time, the execution is counted as failed, and the job ends with the
  instrument's exception.
\<close>

lemma otel_not_fail_open:
  assumes "\<And>l ev. ins l ev = (if ev = Completed_added (metric_attrs (jc_job ctx)) then Some e else None)"
    and "is_exception e"
    and "nxt (w\<lparr>ow_log := ow_log w @ [Span_started (''process '' @ j_type (jc_job ctx)) (span_attrs (jc_job ctx))]\<rparr>) = (Inr v, w2)"
  shows "\<exists>w3. otel_middleware ins str_of now ctx nxt w = (Inl e, w3) \<and> Failed_added (metric_attrs (jc_job ctx)) \<in> set (ow_log w3)"
  using assms
  by (simp add: otel_middleware_def instrument_def Let_def bindIO_def catchIO_def retIO_def raiseIO_def otel_success_def otel_failure_def)

end
