(* ===== verification/Worker_Turn.thy ===== *)
theory Worker_Turn
  imports Fake_Testing
begin

section \<open>A worker over the in-memory transport\<close>

text \<open>
  The rest of \<open>Worker\<close> in \<open>src/ojs/worker/runtime.py\<close> (registration, \<open>stop\<close>, the rejection of surplus
  leases), and the jobs a worker fetches from the in-memory transport.  What one execution does to that
  store is \<open>worker_settles_fake_job\<close> of \<open>Fake_Testing\<close>.
\<close>

subsection \<open>The worker object\<close>

record 'w worker_object =
  wf_handlers :: "(string \<times> 'w handler) list"
  wf_middleware :: "'w execution_middleware list"
  wf_run :: "worker option"

definition new_worker :: "'w worker_object" where
  "new_worker = \<lparr>wf_handlers = [], wf_middleware = [], wf_run = None\<rparr>"

text \<open>The decorator form warns when it replaces a handler; the result says whether it did.\<close>

definition worker_register :: "string \<Rightarrow> 'w handler \<Rightarrow> 'w worker_object \<Rightarrow> bool \<times> 'w worker_object" where
  "worker_register job_type fn o' = (map_of (wf_handlers o') job_type \<noteq> None,
     o'\<lparr>wf_handlers := AList.update job_type fn (wf_handlers o')\<rparr>)"

definition worker_handler :: "string \<Rightarrow> 'w handler \<Rightarrow> 'w worker_object \<Rightarrow> 'w worker_object" where
  "worker_handler job_type fn o' = o'\<lparr>wf_handlers := AList.update job_type fn (wf_handlers o')\<rparr>"

definition worker_middleware :: "'w execution_middleware \<Rightarrow> 'w worker_object \<Rightarrow> 'w worker_object" where
  "worker_middleware m o' = o'\<lparr>wf_middleware := chain_add m (wf_middleware o')\<rparr>"

definition worker_begin :: "worker_config \<Rightarrow> 'w worker_object \<Rightarrow> exn + 'w worker_object" where
  "worker_begin cfg o' = (if wf_run o' \<noteq> None then Inl (RuntimeErr ''worker is already running'')
     else bindR (worker_start cfg) (\<lambda>w. Inr (o'\<lparr>wf_run := Some w\<rparr>)))"

definition worker_stop :: "'w worker_object \<Rightarrow> 'w worker_object" where
  "worker_stop o' = (case wf_run o' of None \<Rightarrow> o' | Some w \<Rightarrow> o'\<lparr>wf_run := Some (request_termination w)\<rparr>)"

definition reject_surplus_lease :: "(string \<Rightarrow> pyval \<Rightarrow> ('w, unit) io) \<Rightarrow> (string \<Rightarrow> pydict \<Rightarrow> ('w, unit) io)
    \<Rightarrow> (rat \<Rightarrow> ('w, unit) io) \<Rightarrow> job \<Rightarrow> ('w, unit) io" where
  "reject_surplus_lease ack nack slp j = report_io ack nack slp (j_id j)
     (failure ''worker_over_capacity'' ''Backend returned more leases than requested'' True)"

lemma surplus_returned:
  assumes "fake_abs st (j_id j) = Some fj"
  shows "\<exists>st'. reject_surplus_lease fake_ack_unit fake_nack_unit slp j st = (Inr (), st')
    \<and> fake_abs st' = (fake_abs st)(j_id j \<mapsto> settle_job (failure ''worker_over_capacity'' ''Backend returned more leases than requested'' True) fj)
    \<and> fj_state (settle_job (failure ''worker_over_capacity'' ''Backend returned more leases than requested'' True) fj) = ''retryable''"
  using fake_send_abs[OF assms] report_io_first
  by (fastforce simp: reject_surplus_lease_def settle_job_def failure_def dget_default_def)

subsection \<open>What a fetch hands out\<close>

text \<open>What a fetch hands out: distinct jobs, each of them active in the store.\<close>

lemma abs_position:
  "distinct (map fj_id (fs_enqueued st)) \<Longrightarrow> n < length (fs_enqueued st) \<Longrightarrow> fake_abs st (fj_id (fs_enqueued st ! n)) = Some (fs_enqueued st ! n)"
  unfolding fake_abs_def by (intro map_of_is_SomeI) (auto simp: comp_def)

lemma abs_absent: "i \<notin> fj_id ` set (fs_enqueued st) \<Longrightarrow> fake_abs st i = None"
  by (auto simp: fake_abs_def map_of_eq_None_iff image_iff)

lemma fetched_jobs:
  assumes "store_ok st" and "fake_fetch queues n st = (Inr js, st1)"
  shows "length js \<le> nat n" and "distinct (map j_id js)"
    and "\<And>j. j \<in> set js \<Longrightarrow> \<exists>fj. fake_abs st (j_id j) = Some fj \<and> fetchable queues fj \<and> j = job_of_fake Active (activate fj)
          \<and> fake_abs st1 (j_id j) = Some (activate fj)"
    and "\<And>i. i \<notin> j_id ` set js \<Longrightarrow> fake_abs st1 i = fake_abs st i"
proof -
  let ?e = "fs_enqueued st" and ?is = "chosen (fetchable queues) (nat n) (fs_enqueued st)"
  have js: "js = map (\<lambda>i. job_of_fake Active (activate (?e ! i))) ?is" "fs_enqueued st1 = mark activate ?is ?e"
    using assms(2) by (auto simp: fake_fetch_def fetch_loop_chosen)
  have id: "j_id (job_of_fake Active (activate fj)) = fj_id fj" for fj by (simp add: job_of_fake_def activate_def)
  have dist: "distinct (map fj_id ?e)" using store_ok_distinct[OF assms(1)] .
  have ids1: "map fj_id (fs_enqueued st1) = map fj_id ?e"
    unfolding js(2) by (rule mark_ids) (simp add: activate_def)
  have pos: "i < length ?e" "fetchable queues (?e ! i)" if "i \<in> set ?is" for i using chosen_props(4)[OF that] by auto
  show "length js \<le> nat n" using chosen_props(3) by (simp add: js(1))
  have "map j_id js = map (\<lambda>i. map fj_id ?e ! i) ?is"
    using pos by (simp add: js(1) id)
  moreover have "inj_on ((!) (map fj_id ?e)) (set ?is)"
    using pos by (intro inj_on_nth dist) simp
  ultimately show "distinct (map j_id js)"
    using chosen_props(1)[of "fetchable queues" "nat n" ?e] by (simp add: distinct_map)
  show "\<exists>fj. fake_abs st (j_id j) = Some fj \<and> fetchable queues fj \<and> j = job_of_fake Active (activate fj)
      \<and> fake_abs st1 (j_id j) = Some (activate fj)" if j: "j \<in> set js" for j
  proof -
    obtain i where i: "i \<in> set ?is" "j = job_of_fake Active (activate (?e ! i))" using j by (auto simp: js(1))
    have "fake_abs st1 (fj_id (fs_enqueued st1 ! i)) = Some (fs_enqueued st1 ! i)"
      using ids1 dist pos(1)[OF i(1)] by (intro abs_position) (simp_all add: js(2))
    moreover have "fs_enqueued st1 ! i = activate (?e ! i)" using i(1) pos(1)[OF i(1)] by (simp add: js(2))
    ultimately show ?thesis using abs_position[OF dist pos(1)[OF i(1)]] pos(2)[OF i(1)] i(2)
      by (intro exI[of _ "?e ! i"]) (simp add: id, simp add: activate_def)
  qed
  show "fake_abs st1 i = fake_abs st i" if i: "i \<notin> j_id ` set js" for i
  proof (cases "i \<in> fj_id ` set ?e")
    case True
    then obtain k where k: "k < length ?e" "i = fj_id (?e ! k)" by (auto simp: in_set_conv_nth)
    have "k \<notin> set ?is" using i k(2) by (auto simp: js(1) id image_iff)
    then have "fs_enqueued st1 ! k = ?e ! k" using k(1) by (simp add: js(2))
    moreover have "fake_abs st1 (fj_id (fs_enqueued st1 ! k)) = Some (fs_enqueued st1 ! k)"
      using ids1 dist k(1) by (intro abs_position) (simp_all add: js(2))
    ultimately show ?thesis using abs_position[OF dist k(1)] k(2) by simp
  next
    case False
    moreover have "fj_id ` set (fs_enqueued st1) = fj_id ` set ?e" using ids1 by (metis set_map)
    ultimately show ?thesis by (simp add: abs_absent)
  qed
qed

end
