(* ===== verification/Spec2Isabelle.thy ===== *)
theory Spec2Isabelle
  imports Admission Agent Attest Base64 Builtins Client Completion Durable Effects Encryption Enqueue Errors Fake Fake_Testing Grpc_Codec Grpc_Errors Grpc_Facts Grpc_Paging Grpc_Projection Grpc_Time Grpc_Transport Http Job_Context Jobs Lease Middleware Ml Prelude Pyval Queues_Events Recorder Regex Retry Serverless Sse Subscribe Telemetry Wire Worker Worker_Options Worker_Turn Workflows
begin

text \<open>
  A verification library of the OJS Python SDK (\<open>src/src/ojs\<close>; the paths below are relative to it).

  The program.  The SDK lets applications enqueue jobs on an Open Job Spec server and run workers that
  process them.  A \<open>Client\<close> validates a \<open>JobRequest\<close>, sends it through a chain of enqueue middleware and
  hands it to a transport: HTTP, gRPC or an in-memory one for tests.  A \<open>Worker\<close> fetches jobs into a
  bounded pool of leases, runs each through a chain of execution middleware and its handler, reports
  exactly one outcome, sends heartbeats that extend the leases and obeys the server's state directives
  until it drains.  Around them stand serverless adapters, durable handlers that replay a log of their
  effects, payload encryption, attestation receipts, server-sent events, workflows, an agent client, and
  the decoding and error model they share.

  How it is modelled.  An expression that may raise has type \<open>exn + 'a\<close>; an awaited call acts on a world
  and is \<open>('w, 'a) io\<close>, that is \<open>'w \<Rightarrow> (exn + 'a) \<times> 'w\<close> (theory \<open>Effects\<close>), so every raise and early return of
  the source is a branch of a definition.  JSON values are \<open>pyval\<close>, a dict is an association list in
  insertion order, a dataclass is a record, an enum a datatype.  Definitions are executable and keep the
  order of the code's checks.

  Theories and sources.
  \<^item> \<open>Prelude\<close>, \<open>Pyval\<close>, \<open>Effects\<close>, \<open>Builtins\<close>, \<open>Regex\<close>, \<open>Base64\<close>: results, values, strings, \<open>int\<close>, \<open>list\<close> and \<open>dict\<close> of
    a dynamic value, regular expressions by derivatives, Base64; the locale \<open>invariant_system\<close> (an invariant
    over the reachable states of a step relation).
  \<^item> \<open>Errors\<close>: \<open>errors/\<close> and \<open>error_codes.py\<close> (the catalog as data, error responses, rate-limit headers).
    \<open>Wire\<close>: \<open>wire_validation.py\<close>, \<open>_utils.py\<close>, and the locale \<open>wire_codec\<close> of encoders with their decoders,
    interpreted by the retry policy, the unique policy and the workflow step.
  \<^item> \<open>Retry\<close>: \<open>retry.py\<close>. \<open>Jobs\<close> and \<open>Job_Context\<close>: \<open>job.py\<close> and the runtime hooks of a context, \<open>progress.py\<close>.
    \<open>Queues_Events\<close>: \<open>queue.py\<close>, \<open>events.py\<close>. \<open>Workflows\<close>: \<open>workflow/\<close>. \<open>Ml\<close>: \<open>ml.py\<close>.
  \<^item> \<open>Middleware\<close>: \<open>middleware/\<close> (both chains and the built-in middleware). \<open>Telemetry\<close>: \<open>otel.py\<close>.
    \<open>Enqueue\<close>: \<open>client/enqueue_pipeline.py\<close>. \<open>Client\<close>: \<open>client/async_client.py\<close>, \<open>client/sync_runner.py\<close>, \<open>transport/base.py\<close>.
  \<^item> \<open>Lease\<close>, \<open>Admission\<close>, \<open>Completion\<close>, \<open>Worker\<close>, \<open>Worker_Options\<close>, \<open>Worker_Turn\<close>: \<open>worker/\<close> (leases and local
    retries, permits and registry, completion reporter, the loops and the shutdown, options and signals, the worker
    object and what it hands back).  Locales: \<open>permit_pool\<close>
    (admission) and \<open>completion_sink\<close> (what a transport promises of ack and nack, interpreted by the in-memory one).
  \<^item> \<open>Http\<close>: \<open>transport/http/\<close>, \<open>transport/rate_limiter.py\<close>. \<open>Fake\<close>, \<open>Fake_Testing\<close>: \<open>transport/fake.py\<close>, \<open>testing/\<close>.
  \<^item> \<open>Grpc_Time\<close>, \<open>Grpc_Projection\<close>, \<open>Grpc_Errors\<close>, \<open>Grpc_Paging\<close>, \<open>Grpc_Transport\<close>, \<open>Grpc_Codec\<close>, \<open>Grpc_Facts\<close>:
    \<open>transport/grpc/\<close> (durations, messages, status codes, pages, operations, descriptors with codec and stub,
    and the properties of the operations).
  \<^item> \<open>Sse\<close>, \<open>Subscribe\<close>: \<open>sse/\<close>, \<open>subscribe.py\<close>. \<open>Durable\<close>: \<open>durable/\<close>. \<open>Serverless\<close>: \<open>serverless/\<close>. \<open>Encryption\<close>:
    \<open>encryption.py\<close>. \<open>Attest\<close>: \<open>attest/\<close>. \<open>Agent\<close>: \<open>agent/\<close>. \<open>Recorder\<close>: \<open>recorder/\<close>.

  What the lemmas show.
  \<^item> Workers: over every interleaving of fetching, executing, heartbeats and signals the leases held never
    exceed the concurrency; shutdown and TERMINATE are never taken back; a drained worker holds nothing; an
    execution reports the outcome its chain had; a reporter delivers one terminal outcome with at most its
    number of attempts; a retry sleep ends by its time, by the end of the lease or by cancellation, and local
    retries end with the last outcome of the handler or with what a sleep raised; a job of the in-memory
    store that a worker processes is settled as its handler's outcome says, and no other job changes.
  \<^item> Enqueueing: the validator accepts exactly the documented names; a batch is sent as a whole or not at
    all; a client pushes validated requests only, and to the one sink that its
    construction and the fake mode select; the synchronous client does what the awaited calls do, and exactly when its loop
    starts in time is the transport closed.
  \<^item> Transports: HTTP requests are bounded and repeated only when that is safe, with one key for all
    repetitions; the in-memory store refines a map and keeps its invariant; gRPC requests arrive
    complete, policies as the printer of protobuf leaves them (absent zeros become defaults), integers are restored by the codec, offset pages are slices of the whole list, listing ends, the
    strongest heartbeat directive wins.
  \<^item> Formats: durations, policies, workflow steps, checkpoints, encrypted arguments and receipts survive their
    round trips; the stream parser agrees with a reference by blocks, and reconnection with its limits.
  \<^item> Serverless and security: a job of an SQS batch is either reported or redelivered; an accepted event is a
    complete job; a receipt is accepted exactly when every claim holds, and a signature binds them all.
  \<^item> Errors: the catalog decides the class and the default of every error response; the theorems whose names
    end in \<open>lost\<close>, \<open>breaks_retry\<close>, \<open>breaks_replay\<close>, \<open>unwrapped\<close>, \<open>retried\<close>, \<open>not_recognised\<close>, \<open>leaks\<close>,
    \<open>leaks_transport\<close> or \<open>raises\<close> pin down inputs on which the code does not do what it means to.

  Bounds and termination.  Every loop is a total function, with two exceptions: a server that never stops
  handing out page tokens keeps the paging loops of \<open>Grpc_Paging\<close> and \<open>Grpc_Transport\<close> going, so they are
  partial functions into \<open>option\<close>, and \<open>offset_page_refines\<close> and \<open>list_queues_complete\<close> show that they return
  for every server with finitely many pages.  The one fuel is that of \<open>retry_attempts\<close>, \<open>max_retries + 1\<close>,
  which is the range of the source's \<open>for\<close>.  A waiting retry sleep takes the list of wake-ups it meets;
  running out of them is still waiting.  Floats are exact rationals with the float limit checked where the
  code can overflow (durations print as in the source for seconds below 2 to the 53rd, the range of
  \<open>duration_roundtrip\<close>), Python's decimals are exact to their 28 digits, and strings are ASCII.

  What is a parameter.  The server and the network (a function of the requests made so far, or operations
  on a world), \<open>httpx\<close>, \<open>grpc\<close> and \<open>google.protobuf\<close>, JSON text, the parsing and printing of dates, clocks and
  random numbers, the AES-GCM cipher, keyed hashes, OpenTelemetry's instruments, handlers and user middleware.
  What a property needs of one of them is a hypothesis of it, and its witness instantiates it.

  Not modelled.  Generated protobuf code and the Protocol classes (they have no behaviour of their own), the
  package facades with their lazy imports, logging (except where a middleware's log is its purpose), thread and
  event-loop mechanics (the synchronous runner knows whether its loop starts and stops in time), opening and
  closing of channels, and aliasing: values are immutable, so a request that an inner middleware changes in
  place after \<open>next\<close> has returned does not change for the outer one.  The arguments of a job, which decryption
  does replace in place, are state of the world in \<open>Encryption\<close>.
\<close>

end
